(* ===== verification/Prelude.thy ===== *)
theory Prelude
  imports Main "HOL-Library.AList" "HOL-Library.Sublist" Complex_Main
begin

text \<open>
  Shared vocabulary of the development.

  \<^item> Python's \<^verbatim>\<open>dict\<close> keeps the order of first insertion: it is an association list with
    distinct keys, read by \<open>map_of\<close>, written by \<open>AList.update\<close> (an existing key keeps its
    place, a new key goes last) and popped by \<open>AList.delete\<close>.
  \<^item> Python's \<^verbatim>\<open>str\<close> is a list of code points; \<open>u\<close> turns an ASCII literal into one.
  \<^item> \<open>pyval\<close> is the part of \<^verbatim>\<open>Any\<close> the program stores, compares and serialises.
  \<^item> An exception is a class of the hierarchy the program catches by, the values its
    message interpolates, and the exception it was raised \<^verbatim>\<open>from\<close>.
  \<^item> \<open>dict_simps\<close>, \<open>dict_intros\<close> collect the facts on dictionaries that the components use.
\<close>

lemma ex_bool [simp]: "\<exists>b. b" "\<exists>b. \<not> b"
  by (rule exI [of _ True], rule TrueI) (rule exI [of _ False], simp)

section \<open>Dictionaries in insertion order\<close>

named_theorems dict_simps
named_theorems dict_intros

type_synonym ('k, 'v) dict = "('k \<times> 'v) list"

abbreviation dict_ok :: "('k, 'v) dict \<Rightarrow> bool" where
  "dict_ok d \<equiv> distinct (map fst d)"

abbreviation dict_get :: "('k, 'v) dict \<Rightarrow> 'k \<Rightarrow> 'v option" where
  "dict_get d k \<equiv> map_of d k"

abbreviation dict_set :: "'k \<Rightarrow> 'v \<Rightarrow> ('k, 'v) dict \<Rightarrow> ('k, 'v) dict" where
  "dict_set k v d \<equiv> AList.update k v d"

abbreviation dict_pop :: "'k \<Rightarrow> ('k, 'v) dict \<Rightarrow> ('k, 'v) dict" where
  "dict_pop k d \<equiv> AList.delete k d"

abbreviation dict_values :: "('k, 'v) dict \<Rightarrow> 'v list" where
  "dict_values d \<equiv> map snd d"

abbreviation dict_keys :: "('k, 'v) dict \<Rightarrow> 'k list" where
  "dict_keys d \<equiv> map fst d"

text \<open>\<^verbatim>\<open>d.get(k, dflt)\<close> and \<^verbatim>\<open>d.setdefault(k, dflt)\<close>.\<close>

definition dict_get_or :: "('k, 'v) dict \<Rightarrow> 'k \<Rightarrow> 'v \<Rightarrow> 'v" where
  "dict_get_or d k dflt = (case dict_get d k of None \<Rightarrow> dflt | Some v \<Rightarrow> v)"

definition dict_setdefault :: "'k \<Rightarrow> 'v \<Rightarrow> ('k, 'v) dict \<Rightarrow> ('k, 'v) dict" where
  "dict_setdefault k dflt d = (case dict_get d k of None \<Rightarrow> dict_set k dflt d | Some _ \<Rightarrow> d)"

lemma map_of_dict_set [dict_simps]: "map_of (AList.update k v d) = (map_of d)(k \<mapsto> v)"
  by (simp add: update_conv')

lemma map_of_dict_pop [dict_simps]: "map_of (AList.delete k d) = (map_of d)(k := None)"
  by (simp add: delete_conv')

lemma dict_ok_set [dict_intros, simp]: "dict_ok d \<Longrightarrow> dict_ok (dict_set k v d)"
  by (rule distinct_update)

lemma dict_ok_pop [dict_intros, simp]: "dict_ok d \<Longrightarrow> dict_ok (dict_pop k d)"
  by (rule distinct_delete)

lemma keys_dict_set [dict_simps]: "set (dict_keys (dict_set k v d)) = insert k (set (dict_keys d))"
  by (induction d) auto

lemma keys_dict_set_new: "k \<notin> set (dict_keys d) \<Longrightarrow> dict_set k v d = d @ [(k, v)]"
  by (induction d) auto

lemma keys_dict_set_old: "k \<in> set (dict_keys d) \<Longrightarrow> dict_keys (dict_set k v d) = dict_keys d"
  by (induction d) auto

lemma dict_get_None_iff: "dict_get d k = None \<longleftrightarrow> k \<notin> set (dict_keys d)"
  by (simp add: map_of_eq_None_iff)

lemma dict_setdefault_ok [dict_intros, simp]: "dict_ok d \<Longrightarrow> dict_ok (dict_setdefault k v d)"
  by (simp add: dict_setdefault_def split: option.split)

lemma map_of_dict_setdefault [dict_simps]:
  "map_of (dict_setdefault k v d) = (case map_of d k of None \<Rightarrow> (map_of d)(k \<mapsto> v) | Some _ \<Rightarrow> map_of d)"
  by (simp add: dict_setdefault_def dict_simps split: option.split)

lemma keys_dict_setdefault [dict_simps]:
  "set (dict_keys (dict_setdefault k v d)) = insert k (set (dict_keys d))"
proof (cases "dict_get d k")
  case None
  then show ?thesis by (simp only: dict_setdefault_def option.case keys_dict_set)
next
  case (Some w)
  then have "k \<in> set (dict_keys d)" by (force dest: map_of_SomeD)
  with Some show ?thesis by (auto simp: dict_setdefault_def)
qed

lemma dict_values_mem: "dict_ok d \<Longrightarrow> v \<in> set (dict_values d) \<longleftrightarrow> (\<exists>k. dict_get d k = Some v)"
  by (force simp: map_of_eq_Some_iff)

lemma dict_getD: "dict_get d k = Some v \<Longrightarrow> v \<in> set (dict_values d)"
  by (force dest: map_of_SomeD)

lemma set_dict_set: "set (dict_set k v d) \<subseteq> insert (k, v) (set d)"
  by (induction d) auto

lemma set_dict_setdefault: "set (dict_setdefault k v d) \<subseteq> insert (k, v) (set d)"
  using set_dict_set [of k v d] by (auto simp: dict_setdefault_def split: option.splits)

lemma set_dict_pop: "set (dict_pop k d) \<subseteq> set d"
  by (induction d) auto

text \<open>\<^verbatim>\<open>d.update(kvs)\<close>.\<close>

abbreviation dict_update :: "('k, 'v) dict \<Rightarrow> ('k, 'v) dict \<Rightarrow> ('k, 'v) dict" where
  "dict_update kvs d \<equiv> fold (\<lambda>(k, v). dict_set k v) kvs d"

lemma map_of_dict_update [dict_simps]:
  "dict_ok kvs \<Longrightarrow> map_of (dict_update kvs d) = map_of d ++ map_of kvs"
proof (induction kvs arbitrary: d)
  case Nil
  then show ?case by simp
next
  case (Cons kv kvs)
  obtain k v where kv: "kv = (k, v)" by (metis prod.exhaust)
  with Cons.prems have "map_of kvs k = None" by (simp add: map_of_eq_None_iff)
  then have "(map_of d)(k \<mapsto> v) ++ map_of kvs = map_of d ++ (map_of kvs)(k \<mapsto> v)"
    by (intro ext) (simp add: map_add_def split: option.split)
  moreover have "map_of (dict_update kvs (dict_set k v d)) = (map_of d)(k \<mapsto> v) ++ map_of kvs"
    using Cons.prems by (simp only: Cons.IH map_of_dict_set list.map distinct.simps)
  moreover have "map_of (kv # kvs) = (map_of kvs)(k \<mapsto> v)"
    using kv by (intro ext) simp
  ultimately show ?case using kv by (simp only: fold_simps o_apply prod.case)
qed

lemma dict_ok_update [dict_intros, simp]: "dict_ok d \<Longrightarrow> dict_ok (dict_update kvs d)"
  by (induction kvs arbitrary: d) auto

text \<open>\<^verbatim>\<open>d.setdefault(k, {})[i] = x\<close>\<close>

definition nested_put :: "'k \<Rightarrow> 'i \<Rightarrow> 'x \<Rightarrow> ('k, ('i, 'x) dict) dict \<Rightarrow> ('k, ('i, 'x) dict) dict" where
  "nested_put k i x d =
     (let d1 = dict_setdefault k [] d in dict_set k (dict_set i x (dict_get_or d1 k [])) d1)"

lemma dict_set_last: "k \<notin> set (dict_keys d) \<Longrightarrow> dict_set k v (d @ [(k, w)]) = d @ [(k, v)]"
  by (induction d) auto

lemma nested_put_new: "k \<notin> set (dict_keys d) \<Longrightarrow> nested_put k i x d = d @ [(k, [(i, x)])]"
proof -
  assume k: "k \<notin> set (dict_keys d)"
  then have "dict_get d k = None" by (simp add: dict_get_None_iff)
  with k show ?thesis
    by (simp add: nested_put_def dict_setdefault_def keys_dict_set_new dict_set_last dict_get_or_def map_add_def)
qed

lemma nested_put_last:
  assumes "k \<notin> set (dict_keys d)" and "i \<notin> set (dict_keys e)"
  shows "nested_put k i x (d @ [(k, e)]) = d @ [(k, e @ [(i, x)])]"
proof -
  have "dict_get d k = None" using assms(1) by (simp add: dict_get_None_iff)
  with assms show ?thesis
    by (simp add: nested_put_def dict_setdefault_def dict_set_last dict_get_or_def map_add_def keys_dict_set_new)
qed

section \<open>Strings\<close>

type_synonym pystr = "nat list"

definition u :: "string \<Rightarrow> pystr" where
  "u s = map of_char s"

lemma u_simps [simp]: "u [] = []" "u (c # cs) = of_char c # u cs"
  by (simp_all add: u_def)

section \<open>Values\<close>

datatype pyval =
    PNone
  | PBool bool
  | PInt int
  | PFloat real
  | PStr pystr
  | PList "pyval list"
  | PDict "(pystr \<times> pyval) list"

type_synonym pydict = "(pystr \<times> pyval) list"

text \<open>A value that may be \<^verbatim>\<open>None\<close>.\<close>

definition opt_val :: "pystr option \<Rightarrow> pyval" where
  "opt_val x = (case x of None \<Rightarrow> PNone | Some s \<Rightarrow> PStr s)"

text \<open>\<^verbatim>\<open>bool(v)\<close>.\<close>

fun py_truthy :: "pyval \<Rightarrow> bool" where
  "py_truthy PNone = False"
| "py_truthy (PBool b) = b"
| "py_truthy (PInt i) = (i \<noteq> 0)"
| "py_truthy (PFloat r) = (r \<noteq> 0)"
| "py_truthy (PStr s) = (s \<noteq> [])"
| "py_truthy (PList vs) = (vs \<noteq> [])"
| "py_truthy (PDict d) = (d \<noteq> [])"

text \<open>
  \<^verbatim>\<open>v == w\<close>: numbers compare by value across \<^verbatim>\<open>bool\<close>, \<^verbatim>\<open>int\<close> and \<^verbatim>\<open>float\<close>,
  dictionaries by their entries and not by their order.
\<close>

fun py_num :: "pyval \<Rightarrow> real option" where
  "py_num (PBool b) = Some (if b then 1 else 0)"
| "py_num (PInt i) = Some (of_int i)"
| "py_num (PFloat r) = Some r"
| "py_num _ = None"

lemma size_pair_mem: "(k, x) \<in> set d \<Longrightarrow> size x \<le> size_list (size_prod (\<lambda>_. 0) size) d"
  by (rule size_list_estimation' [of "(k, x)"]) auto

function py_eq :: "pyval \<Rightarrow> pyval \<Rightarrow> bool" where
  "py_eq v w =
     (case (v, w) of
        (PNone, PNone) \<Rightarrow> True
      | (PStr s, PStr t) \<Rightarrow> s = t
      | (PList vs, PList ws) \<Rightarrow>
          length vs = length ws \<and> (\<forall>(x, y) \<in> set (zip vs ws). py_eq x y)
      | (PDict d, PDict e) \<Rightarrow>
          length d = length e \<and>
          (\<forall>(k, x) \<in> set d. \<exists>(k', y) \<in> set e. k' = k \<and> py_eq x y)
      | _ \<Rightarrow> py_num v \<noteq> None \<and> py_num v = py_num w)"
  by pat_completeness auto
termination
  by (relation "measure (\<lambda>(v, w). size v)")
    (auto dest!: set_zip_leftD simp: less_Suc_eq_le size_list_estimation'
      intro: size_pair_mem)

declare py_eq.simps [simp del]

lemma py_eq_refl [simp]: "py_eq v v"
proof (induction v)
  case (PList vs)
  have "(x, y) \<in> set (zip vs vs) \<Longrightarrow> x = y \<and> x \<in> set vs" for x y
    by (auto simp: set_zip)
  with PList show ?case by (subst py_eq.simps) auto
next
  case (PDict d)
  then have "py_eq x x" if "(k, x) \<in> set d" for k x
    using that by (metis prod.collapse prod_set_simps(2) singletonI snd_conv)
  then show ?case by (subst py_eq.simps) fastforce
qed (subst py_eq.simps, simp)+

end
