(* ===== verification/Exceptions.thy ===== *)
theory Exceptions
  imports Prelude
begin

text \<open>
  The exception classes of the program, one datatype per \<^verbatim>\<open>errors.py\<close>, and the part of the
  interpreter's own hierarchy the program catches by name. An \<^verbatim>\<open>except C\<close> clause is
  \<open>exc_isa C\<close>; \<^verbatim>\<open>except Exception\<close> is \<open>is_Exception\<close>, which lets a cancellation pass.
\<close>

section \<open>Classes\<close>

datatype retriever_exc = RetrieverError | DuplicateIndexableError | RetrieverUnavailableError

datatype memory_exc =
    MemoryBaseError
  | MemoryBackendError
  | WorkingMemoryQuotaExceeded
  | CompactionError
  | CompactionUnavailableError

datatype prompt_exc =
    PromptError
  | PromptBackendError
  | PromptParseError
  | PromptTooLargeError
  | InvalidCacheBoundaryError

datatype sandbox_exc =
    SandboxError
  | SandboxTimeoutError
  | SandboxToolCallTimeoutError
  | SandboxCrashedError
  | SandboxConfigurationError
  | SandboxPoolExhaustedError

datatype manager_exc = GrantDeniedError | ApprovalRequiredError | SkillParseError | SkillNotFoundError

datatype mcp_exc =
    MCPError
  | MCPConnectionError
  | IsolationUnavailableError
  | UnsupportedSandboxConfigurationError
  | MCPServerUnavailableError
  | MCPToolError

datatype tunnel_exc = TunnelError | TunnelStartError | TunnelNotAvailableError

datatype bridge_exc =
    CivitasBridgeError
  | UngovernedConfigurationError
  | RuntimeRequiredError
  | SupervisorNotFoundError

datatype server_exc = FabricaMCPServerError | WeakIsolationError | AuthenticationError

datatype exc_class =
    BaseException | CancelledError | KeyboardInterrupt
  | PyException
  | LookupError | KeyError | IndexError
  | ValueError | UnicodeEncodeError | JSONDecodeError
  | TypeError | AttributeError | AssertionError | ZeroDivisionError | StructError | EOFError | IncompleteReadError
  | OSError | TimeoutError | ConnectionError | ConnectionResetError | ProcessLookupError
  | FileNotFoundError
  | HTTPError | YAMLError | OtherError
  | Retriever_exc retriever_exc
  | Memory_exc memory_exc
  | Prompt_exc prompt_exc
  | Sandbox_exc sandbox_exc
  | Manager_exc manager_exc
  | Mcp_exc mcp_exc
  | Tunnel_exc tunnel_exc
  | Bridge_exc bridge_exc
  | Server_exc server_exc

fun sandbox_parent :: "sandbox_exc \<Rightarrow> exc_class" where
  "sandbox_parent SandboxError = PyException"
| "sandbox_parent SandboxToolCallTimeoutError = Sandbox_exc SandboxTimeoutError"
| "sandbox_parent _ = Sandbox_exc SandboxError"

fun mcp_parent :: "mcp_exc \<Rightarrow> exc_class" where
  "mcp_parent MCPError = PyException"
| "mcp_parent IsolationUnavailableError = Mcp_exc MCPConnectionError"
| "mcp_parent UnsupportedSandboxConfigurationError = Mcp_exc MCPConnectionError"
| "mcp_parent _ = Mcp_exc MCPError"

fun exc_parent :: "exc_class \<Rightarrow> exc_class option" where
  "exc_parent BaseException = None"
| "exc_parent CancelledError = Some BaseException"
| "exc_parent KeyboardInterrupt = Some BaseException"
| "exc_parent PyException = Some BaseException"
| "exc_parent KeyError = Some LookupError"
| "exc_parent IndexError = Some LookupError"
| "exc_parent UnicodeEncodeError = Some ValueError"
| "exc_parent JSONDecodeError = Some ValueError"
| "exc_parent IncompleteReadError = Some EOFError"
| "exc_parent TimeoutError = Some OSError"
| "exc_parent ConnectionError = Some OSError"
| "exc_parent ConnectionResetError = Some ConnectionError"
| "exc_parent ProcessLookupError = Some OSError"
| "exc_parent FileNotFoundError = Some OSError"
| "exc_parent (Retriever_exc c) = Some (if c = RetrieverError then PyException else Retriever_exc RetrieverError)"
| "exc_parent (Memory_exc c) = Some (if c = MemoryBaseError then PyException else Memory_exc MemoryBaseError)"
| "exc_parent (Prompt_exc c) = Some (if c = PromptError then PyException else Prompt_exc PromptError)"
| "exc_parent (Sandbox_exc c) = Some (sandbox_parent c)"
| "exc_parent (Mcp_exc c) = Some (mcp_parent c)"
| "exc_parent (Tunnel_exc c) = Some (if c = TunnelError then PyException else Tunnel_exc TunnelError)"
| "exc_parent (Bridge_exc c) =
     Some (if c = CivitasBridgeError then PyException else Bridge_exc CivitasBridgeError)"
| "exc_parent (Server_exc c) =
     Some (if c = FabricaMCPServerError then PyException else Server_exc FabricaMCPServerError)"
| "exc_parent _ = Some PyException"

text \<open>No chain of the hierarchy is longer than five steps, so six classes are the whole MRO.\<close>

primrec mro_upto :: "nat \<Rightarrow> exc_class \<Rightarrow> exc_class list" where
  "mro_upto 0 c = [c]"
| "mro_upto (Suc n) c = c # (case exc_parent c of None \<Rightarrow> [] | Some p \<Rightarrow> mro_upto n p)"

definition mro :: "exc_class \<Rightarrow> exc_class list" where
  "mro c = mro_upto 5 c"

lemma mro_upto_numeral [simp]:
  "mro_upto (numeral k) c =
     c # (case exc_parent c of None \<Rightarrow> [] | Some p \<Rightarrow> mro_upto (pred_numeral k) p)"
  by (simp add: numeral_eq_Suc)

lemma mro_complete: "last (mro c) = BaseException"
proof (cases c)
  case (Sandbox_exc s)
  then show ?thesis by (cases s) (simp_all add: mro_def)
next
  case (Mcp_exc s)
  then show ?thesis by (cases s) (simp_all add: mro_def)
qed (simp_all add: mro_def)

section \<open>Exceptions and results\<close>

datatype exc = Exc (exc_cls: exc_class) (exc_args: "pyval list") (exc_cause: "exc option")

definition exc_isa :: "exc_class \<Rightarrow> exc \<Rightarrow> bool" where
  "exc_isa c e \<longleftrightarrow> c \<in> set (mro (exc_cls e))"

abbreviation is_Exception :: "exc \<Rightarrow> bool" where
  "is_Exception e \<equiv> exc_isa PyException e"

abbreviation raised :: "exc_class \<Rightarrow> pyval list \<Rightarrow> exc" where
  "raised c vs \<equiv> Exc c vs None"

abbreviation raised_from :: "exc_class \<Rightarrow> pyval list \<Rightarrow> exc \<Rightarrow> exc" where
  "raised_from c vs e \<equiv> Exc c vs (Some e)"

type_synonym 'a result = "exc + 'a"

text \<open>A step that may raise, then the rest.\<close>

definition rbind :: "'a result \<Rightarrow> ('a \<Rightarrow> 'b result) \<Rightarrow> 'b result" where
  "rbind r f = (case r of Inl e \<Rightarrow> Inl e | Inr x \<Rightarrow> f x)"

lemma rbind_simps [simp]: "rbind (Inl e) f = Inl e" "rbind (Inr x) f = f x"
  by (simp_all add: rbind_def)

lemmas exc_simps = exc_isa_def mro_def

lemma every_exception_is_BaseException: "exc_isa BaseException e"
proof -
  have "mro (exc_cls e) \<noteq> []" by (simp add: mro_def)
  then show ?thesis
    using mro_complete [of "exc_cls e"] last_in_set by (force simp: exc_isa_def)
qed

text \<open>A timed-out tool call is caught by every handler of a timed-out run.\<close>

lemma tool_call_timeout_isa_timeout:
  "exc_isa (Sandbox_exc SandboxTimeoutError) (Exc (Sandbox_exc SandboxToolCallTimeoutError) vs c)"
  by (simp add: exc_simps)

lemma cancelled_not_Exception [simp]: "\<not> is_Exception (Exc CancelledError vs c)"
  by (simp add: exc_simps)

end
