(* ===== verification/Observability.thy ===== *)
theory Observability
  imports Exceptions
begin

text \<open>
  \<^verbatim>\<open>src/fabrica/observability.py\<close>, and the computation type every asynchronous operation of
  the development has: it takes the tracer and the component's state and returns a value or
  an exception with both, updated.

  The tracer is an injected object; what the program does to it is the list of calls it
  receives (\<open>tcalls\<close>), and what it answers are the ids it gives the spans it opens (\<open>ids\<close>,
  by the number of the call and the requested trace id). \<open>null_tracer\<close> is \<^verbatim>\<open>NullTracer\<close>.
  Any other tracer is code outside the repository, a Protocol here. It is taken by the contract the file states
  ("span emission is always safe to call", "a span must never swallow or alter caller behavior"): its calls
  return. A tracer that raises is not modelled; \<open>start_span\<close>, \<open>set_attribute\<close>, \<open>set_error\<close> and \<open>end_span\<close>
  below record the calls the program makes and translate no code of their own.

  \<open>well_traced S m\<close>: the calls \<open>m\<close> makes are properly bracketed, every span it opens is ended
  exactly once, inside the spans around it, and only spans that are open (its own or those
  of \<open>S\<close>) are written. \<open>obs_eq m m'\<close>: the two computations differ at most in what they tell
  the tracer. The rules for both are in \<open>traced_intros\<close> and \<open>obs_intros\<close>.
\<close>

named_theorems traced_intros
named_theorems obs_intros

section \<open>Tracers and spans\<close>

datatype tcall =
    StartSpan nat pystr pystr "pystr option" pydict
  | SetAttribute nat pystr pyval
  | SetError nat exc
  | EndSpan nat

record tracer =
  tcalls :: "tcall list"
  nspans :: nat
  ids :: "nat \<Rightarrow> pystr \<Rightarrow> pystr \<times> pystr"

record span =
  sp_ref :: nat
  sp_trace_id :: pystr
  sp_span_id :: pystr

definition start_span ::
    "pystr \<Rightarrow> pystr \<Rightarrow> pystr option \<Rightarrow> pydict \<Rightarrow> tracer \<Rightarrow> span \<times> tracer" where
  "start_span name tid parent attrs t =
     (let n = nspans t; (ti, si) = ids t n tid
      in (\<lparr>sp_ref = n, sp_trace_id = ti, sp_span_id = si\<rparr>,
          t\<lparr>tcalls := tcalls t @ [StartSpan n name tid parent attrs], nspans := Suc n\<rparr>))"

definition set_attribute :: "span \<Rightarrow> pystr \<Rightarrow> pyval \<Rightarrow> tracer \<Rightarrow> tracer" where
  "set_attribute sp k v t = t\<lparr>tcalls := tcalls t @ [SetAttribute (sp_ref sp) k v]\<rparr>"

definition set_error :: "span \<Rightarrow> exc \<Rightarrow> tracer \<Rightarrow> tracer" where
  "set_error sp e t = t\<lparr>tcalls := tcalls t @ [SetError (sp_ref sp) e]\<rparr>"

definition end_span :: "span \<Rightarrow> tracer \<Rightarrow> tracer" where
  "end_span sp t = t\<lparr>tcalls := tcalls t @ [EndSpan (sp_ref sp)]\<rparr>"

definition null_tracer :: tracer where
  "null_tracer = \<lparr>tcalls = [], nspans = 0, ids = (\<lambda>_ _. ([], []))\<rparr>"

section \<open>Computations\<close>

type_synonym ('w, 'a) io = "tracer \<times> 'w \<Rightarrow> 'a result \<times> (tracer \<times> 'w)"

definition io_return :: "'a \<Rightarrow> ('w, 'a) io" where
  "io_return x = (\<lambda>s. (Inr x, s))"

definition io_raise :: "exc \<Rightarrow> ('w, 'a) io" where
  "io_raise e = (\<lambda>s. (Inl e, s))"

definition io_bind :: "('w, 'a) io \<Rightarrow> ('a \<Rightarrow> ('w, 'b) io) \<Rightarrow> ('w, 'b) io" where
  "io_bind m f = (\<lambda>s. case m s of (Inl e, s') \<Rightarrow> (Inl e, s') | (Inr x, s') \<Rightarrow> f x s')"

definition io_lift :: "('w \<Rightarrow> 'a result \<times> 'w) \<Rightarrow> ('w, 'a) io" where
  "io_lift f = (\<lambda>(t, w). let (r, w') = f w in (r, (t, w')))"

definition io_attr :: "span \<Rightarrow> pystr \<Rightarrow> pyval \<Rightarrow> ('w, unit) io" where
  "io_attr sp k v = (\<lambda>(t, w). (Inr (), (set_attribute sp k v t, w)))"

text \<open>\<^verbatim>\<open>try: m except ...: h e\<close>, the handler deciding by the exception, and \<^verbatim>\<open>try: m finally: f\<close>.\<close>

definition io_catch :: "('w, 'a) io \<Rightarrow> (exc \<Rightarrow> ('w, 'a) io) \<Rightarrow> ('w, 'a) io" where
  "io_catch m h = (\<lambda>s. case m s of (Inl e, s') \<Rightarrow> h e s' | (Inr x, s') \<Rightarrow> (Inr x, s'))"

definition io_finally :: "('w, 'a) io \<Rightarrow> ('w, unit) io \<Rightarrow> ('w, 'a) io" where
  "io_finally m f = (\<lambda>s. case m s of (r, s') \<Rightarrow>
     (case f s' of (Inl e, s'') \<Rightarrow> (Inl e, s'') | (Inr _, s'') \<Rightarrow> (r, s'')))"

text \<open>Running a computation of a part on that part of a larger state.\<close>

definition io_zoom :: "('w \<Rightarrow> 'x) \<Rightarrow> ('x \<Rightarrow> 'w \<Rightarrow> 'w) \<Rightarrow> ('x, 'a) io \<Rightarrow> ('w, 'a) io" where
  "io_zoom get put m =
     (\<lambda>(t, w). case m (t, get w) of (r, (t', x)) \<Rightarrow> (r, (t', put x w)))"

text \<open>
  \<^verbatim>\<open>asyncio.wait_for(op, timeout)\<close>: the operation says how long it takes. With no time left it is
  cancelled before it starts; cancelled later, it has done what it has done.
\<close>

definition wait_for :: "real \<Rightarrow> ('w \<Rightarrow> real \<times> ('a result \<times> 'w)) \<Rightarrow> 'w \<Rightarrow> 'a result \<times> 'w" where
  "wait_for tmo op w =
     (if tmo \<le> 0 then (Inl (raised TimeoutError []), w)
      else (case op w of (d, (r, w')) \<Rightarrow>
              if d > tmo then (Inl (raised TimeoutError []), w') else (r, w')))"

lemmas io_defs = io_return_def io_raise_def io_bind_def io_lift_def io_attr_def io_catch_def
  io_finally_def io_zoom_def

text \<open>\<^verbatim>\<open>traced()\<close>: \<^verbatim>\<open>None\<close>-valued attributes are dropped, the span is always ended, and an
  exception of the body is recorded and raised again unchanged.\<close>

definition clean_attributes :: "pydict \<Rightarrow> pydict" where
  "clean_attributes attrs = filter (\<lambda>(k, v). v \<noteq> PNone) attrs"

definition traced ::
    "pystr \<Rightarrow> pystr \<Rightarrow> pystr option \<Rightarrow> pydict \<Rightarrow> (span \<Rightarrow> ('w, 'a) io) \<Rightarrow> ('w, 'a) io" where
  "traced name tid parent attrs body =
     (\<lambda>(t, w).
        let (sp, t1) = start_span name tid parent (clean_attributes attrs) t;
            (r, (t2, w2)) = body sp (t1, w);
            t3 = (case r of Inl e \<Rightarrow> set_error sp e t2 | Inr _ \<Rightarrow> t2)
        in (r, (end_span sp t3, w2)))"

section \<open>Bracketing\<close>

fun nest :: "nat list \<Rightarrow> tcall list \<Rightarrow> nat list option" where
  "nest st [] = Some st"
| "nest st (StartSpan n _ _ _ _ # cs) = nest (n # st) cs"
| "nest st (SetAttribute n _ _ # cs) = (if n \<in> set st then nest st cs else None)"
| "nest st (SetError n _ # cs) = (if st \<noteq> [] \<and> hd st = n then nest st cs else None)"
| "nest st (EndSpan n # cs) = (if st \<noteq> [] \<and> hd st = n then nest (tl st) cs else None)"

lemma nest_append:
  "nest st (cs @ ds) = (case nest st cs of None \<Rightarrow> None | Some st' \<Rightarrow> nest st' ds)"
  by (induction st cs rule: nest.induct) auto

text \<open>What one computation may add to the calls of a tracer, the spans of \<open>S\<close> being open.\<close>

definition calls_ok :: "nat set \<Rightarrow> tracer \<Rightarrow> tracer \<Rightarrow> bool" where
  "calls_ok S t t' \<longleftrightarrow>
     ids t' = ids t \<and>
     (\<exists>cs. tcalls t' = tcalls t @ cs \<and> (\<forall>st. S \<subseteq> set st \<longrightarrow> nest st cs = Some st))"

definition well_traced :: "nat set \<Rightarrow> ('w, 'a) io \<Rightarrow> bool" where
  "well_traced S m \<longleftrightarrow> (\<forall>s. calls_ok S (fst s) (fst (snd (m s))))"

lemma calls_ok_refl [simp]: "calls_ok S t t"
  by (auto simp: calls_ok_def intro: exI [of _ "[]"])

lemma calls_ok_trans [trans]:
  assumes "calls_ok S t1 t2" and "calls_ok S t2 t3"
  shows "calls_ok S t1 t3"
proof -
  from assms(1) obtain cs where cs: "ids t2 = ids t1" "tcalls t2 = tcalls t1 @ cs"
    "\<forall>st. S \<subseteq> set st \<longrightarrow> nest st cs = Some st" by (auto simp: calls_ok_def)
  from assms(2) obtain ds where ds: "ids t3 = ids t2" "tcalls t3 = tcalls t2 @ ds"
    "\<forall>st. S \<subseteq> set st \<longrightarrow> nest st ds = Some st" by (auto simp: calls_ok_def)
  have "\<forall>st. S \<subseteq> set st \<longrightarrow> nest st (cs @ ds) = Some st"
    using cs(3) ds(3) by (simp add: nest_append)
  with cs ds show ?thesis unfolding calls_ok_def by (metis append.assoc)
qed

lemma well_tracedD: "well_traced S m \<Longrightarrow> m s = (r, s') \<Longrightarrow> calls_ok S (fst s) (fst s')"
  by (metis snd_conv well_traced_def)

lemma well_tracedI:
  "(\<And>s r s'. m s = (r, s') \<Longrightarrow> calls_ok S (fst s) (fst s')) \<Longrightarrow> well_traced S m"
  unfolding well_traced_def by (metis prod.exhaust_sel)

lemma well_traced_mono: "well_traced S m \<Longrightarrow> S \<subseteq> S' \<Longrightarrow> well_traced S' m"
  by (force simp: well_traced_def calls_ok_def)

lemma well_traced_return [traced_intros]: "well_traced S (io_return x)"
  by (simp add: well_traced_def io_return_def)

lemma well_traced_raise [traced_intros]: "well_traced S (io_raise e)"
  by (simp add: well_traced_def io_raise_def)

lemma well_traced_lift [traced_intros]: "well_traced S (io_lift f)"
  by (simp add: well_traced_def io_lift_def split: prod.split)

lemma well_traced_attr [traced_intros]: "sp_ref sp \<in> S \<Longrightarrow> well_traced S (io_attr sp k v)"
  by (auto simp: well_traced_def io_attr_def set_attribute_def calls_ok_def split: prod.split)

lemma well_traced_bind [traced_intros]:
  assumes m: "well_traced S m" and f: "\<And>x. well_traced S (f x)"
  shows "well_traced S (io_bind m f)"
proof (rule well_tracedI)
  fix s r s'
  assume eq: "io_bind m f s = (r, s')"
  obtain r1 s1 where m1: "m s = (r1, s1)" by (metis prod.exhaust)
  from m m1 have c1: "calls_ok S (fst s) (fst s1)" by (rule well_tracedD)
  show "calls_ok S (fst s) (fst s')"
  proof (cases r1)
    case (Inl e)
    with eq m1 c1 show ?thesis by (simp add: io_bind_def)
  next
    case (Inr x)
    with eq m1 have "f x s1 = (r, s')" by (simp add: io_bind_def)
    with f have "calls_ok S (fst s1) (fst s')" by (rule well_tracedD)
    with c1 show ?thesis by (rule calls_ok_trans)
  qed
qed

lemma well_traced_catch [traced_intros]:
  assumes m: "well_traced S m" and h: "\<And>e. well_traced S (h e)"
  shows "well_traced S (io_catch m h)"
proof (rule well_tracedI)
  fix s r s'
  assume eq: "io_catch m h s = (r, s')"
  obtain r1 s1 where m1: "m s = (r1, s1)" by (metis prod.exhaust)
  from m m1 have c1: "calls_ok S (fst s) (fst s1)" by (rule well_tracedD)
  show "calls_ok S (fst s) (fst s')"
  proof (cases r1)
    case (Inr x)
    with eq m1 c1 show ?thesis by (simp add: io_catch_def)
  next
    case (Inl e)
    with eq m1 have "h e s1 = (r, s')" by (simp add: io_catch_def)
    with h have "calls_ok S (fst s1) (fst s')" by (rule well_tracedD)
    with c1 show ?thesis by (rule calls_ok_trans)
  qed
qed

lemma well_traced_finally [traced_intros]:
  assumes m: "well_traced S m" and f: "well_traced S f"
  shows "well_traced S (io_finally m f)"
proof (rule well_tracedI)
  fix s r s'
  assume eq: "io_finally m f s = (r, s')"
  obtain r1 s1 where m1: "m s = (r1, s1)" by (metis prod.exhaust)
  obtain r2 s2 where f2: "f s1 = (r2, s2)" by (metis prod.exhaust)
  from eq m1 f2 have "s' = s2" by (auto simp: io_finally_def split: sum.splits)
  with well_tracedD [OF m m1] well_tracedD [OF f f2] show "calls_ok S (fst s) (fst s')"
    by (auto intro: calls_ok_trans)
qed

lemma well_traced_zoom [traced_intros]: "well_traced S m \<Longrightarrow> well_traced S (io_zoom get put m)"
  unfolding well_traced_def io_zoom_def by (auto split: prod.splits) (metis fst_conv snd_conv)

lemma well_traced_if [traced_intros]:
  "(b \<Longrightarrow> well_traced S m) \<Longrightarrow> (\<not> b \<Longrightarrow> well_traced S m') \<Longrightarrow> well_traced S (if b then m else m')"
  by simp

text \<open>\<open>traced\<close> opens one span around its body and always ends it.\<close>

lemma nest_bracket:
  assumes "\<forall>st. insert n S \<subseteq> set st \<longrightarrow> nest st cs = Some st" and "S \<subseteq> set st"
  shows "nest st (StartSpan n name tid parent attrs # cs @ [EndSpan n]) = Some st"
    and "nest st (StartSpan n name tid parent attrs # cs @ [SetError n e, EndSpan n]) = Some st"
proof -
  have "nest (n # st) cs = Some (n # st)"
    using assms by (meson insert_subset list.set_intros(1) set_subset_Cons subset_trans)
  then show "nest st (StartSpan n name tid parent attrs # cs @ [EndSpan n]) = Some st"
    and "nest st (StartSpan n name tid parent attrs # cs @ [SetError n e, EndSpan n]) = Some st"
    by (simp_all add: nest_append)
qed

lemma well_traced_traced [traced_intros]:
  assumes body: "\<And>sp. well_traced (insert (sp_ref sp) S) (body sp)"
  shows "well_traced S (traced name tid parent attrs body)"
proof (rule well_tracedI)
  fix s r s'
  assume eq: "traced name tid parent attrs body s = (r, s')"
  obtain t w where s: "s = (t, w)" by (metis prod.exhaust)
  obtain sp t1 where st: "start_span name tid parent (clean_attributes attrs) t = (sp, t1)"
    by (metis prod.exhaust)
  obtain r2 t2 w2 where b: "body sp (t1, w) = (r2, (t2, w2))" by (metis prod.exhaust)
  let ?n = "sp_ref sp" and ?start = "StartSpan (sp_ref sp) name tid parent (clean_attributes attrs)"
  from st have t1: "ids t1 = ids t" "tcalls t1 = tcalls t @ [?start]"
    by (auto simp: start_span_def Let_def split: prod.splits)
  from well_tracedD [OF body b] obtain cs where cs: "ids t2 = ids t1" "tcalls t2 = tcalls t1 @ cs"
    "\<forall>st. insert ?n S \<subseteq> set st \<longrightarrow> nest st cs = Some st"
    by (auto simp: calls_ok_def)
  note nb = nest_bracket [OF cs(3), of _ name tid parent "clean_attributes attrs"]
  show "calls_ok S (fst s) (fst s')"
  proof (cases r2)
    case (Inl e)
    with eq s st b t1 cs have "ids (fst s') = ids t"
      "tcalls (fst s') = tcalls t @ (?start # cs @ [SetError ?n e, EndSpan ?n])"
      by (auto simp: traced_def set_error_def end_span_def)
    with nb(2) [of _ e] s show ?thesis unfolding calls_ok_def by (metis fst_conv)
  next
    case (Inr x)
    with eq s st b t1 cs have "ids (fst s') = ids t"
      "tcalls (fst s') = tcalls t @ (?start # cs @ [EndSpan ?n])"
      by (auto simp: traced_def end_span_def)
    with nb(1) s show ?thesis unfolding calls_ok_def by (metis fst_conv)
  qed
qed

section \<open>Independence of the tracer\<close>

definition obs_eq :: "('w, 'a) io \<Rightarrow> ('w, 'a) io \<Rightarrow> bool" where
  "obs_eq m m' \<longleftrightarrow>
     (\<forall>t t' w. fst (m (t, w)) = fst (m' (t', w)) \<and> snd (snd (m (t, w))) = snd (snd (m' (t', w))))"

lemma obs_eqD:
  assumes "obs_eq m m'" and "m (t, w) = (r, (t1, w1))"
  shows "\<exists>t2. m' (t', w) = (r, (t2, w1))"
proof -
  obtain r' t2 w2 where m': "m' (t', w) = (r', (t2, w2))" by (metis prod.exhaust)
  have "fst (m (t, w)) = fst (m' (t', w)) \<and> snd (snd (m (t, w))) = snd (snd (m' (t', w)))"
    using assms(1) by (simp add: obs_eq_def)
  with assms(2) m' show ?thesis by simp
qed

lemma obs_eqI:
  assumes "\<And>t t' w r t1 w1. m (t, w) = (r, (t1, w1)) \<Longrightarrow> \<exists>t2. m' (t', w) = (r, (t2, w1))"
  shows "obs_eq m m'"
  unfolding obs_eq_def
proof (intro allI)
  fix t t' w
  obtain r t1 w1 where 1: "m (t, w) = (r, (t1, w1))" by (metis prod.exhaust)
  with assms [OF 1, of t'] obtain t2 where "m' (t', w) = (r, (t2, w1))" by blast
  with 1 show "fst (m (t, w)) = fst (m' (t', w)) \<and> snd (snd (m (t, w))) = snd (snd (m' (t', w)))"
    by simp
qed

lemma obs_eq_return [obs_intros]: "obs_eq (io_return x) (io_return x)"
  by (simp add: obs_eq_def io_return_def)

lemma obs_eq_raise [obs_intros]: "obs_eq (io_raise e) (io_raise e)"
  by (simp add: obs_eq_def io_raise_def)

lemma obs_eq_lift [obs_intros]: "obs_eq (io_lift f) (io_lift f)"
  by (simp add: obs_eq_def io_lift_def split: prod.split)

lemma obs_eq_attr [obs_intros]: "obs_eq (io_attr sp k v) (io_attr sp' k' v')"
  by (simp add: obs_eq_def io_attr_def)

lemma obs_eq_bind [obs_intros]:
  assumes m: "obs_eq m m'" and f: "\<And>x. obs_eq (f x) (f' x)"
  shows "obs_eq (io_bind m f) (io_bind m' f')"
proof (rule obs_eqI)
  fix t t' w r t1 w1
  assume eq: "io_bind m f (t, w) = (r, (t1, w1))"
  obtain q t2 w2 where 1: "m (t, w) = (q, (t2, w2))" by (metis prod.exhaust)
  with m obtain t3 where 2: "m' (t', w) = (q, (t3, w2))" by (blast dest: obs_eqD)
  show "\<exists>t2. io_bind m' f' (t', w) = (r, (t2, w1))"
    using eq 1 2 f by (cases q) (auto simp: io_bind_def dest: obs_eqD)
qed

lemma obs_eq_catch [obs_intros]:
  assumes m: "obs_eq m m'" and h: "\<And>e. obs_eq (h e) (h' e)"
  shows "obs_eq (io_catch m h) (io_catch m' h')"
proof (rule obs_eqI)
  fix t t' w r t1 w1
  assume eq: "io_catch m h (t, w) = (r, (t1, w1))"
  obtain q t2 w2 where 1: "m (t, w) = (q, (t2, w2))" by (metis prod.exhaust)
  with m obtain t3 where 2: "m' (t', w) = (q, (t3, w2))" by (blast dest: obs_eqD)
  show "\<exists>t2. io_catch m' h' (t', w) = (r, (t2, w1))"
    using eq 1 2 h by (cases q) (auto simp: io_catch_def dest: obs_eqD)
qed

lemma obs_eq_finally [obs_intros]:
  assumes m: "obs_eq m m'" and f: "obs_eq f f'"
  shows "obs_eq (io_finally m f) (io_finally m' f')"
proof (rule obs_eqI)
  fix t t' w r t1 w1
  assume eq: "io_finally m f (t, w) = (r, (t1, w1))"
  obtain q t2 w2 where 1: "m (t, w) = (q, (t2, w2))" by (metis prod.exhaust)
  with m obtain t3 where 2: "m' (t', w) = (q, (t3, w2))" by (blast dest: obs_eqD)
  obtain p t4 w4 where 3: "f (t2, w2) = (p, (t4, w4))" by (metis prod.exhaust)
  with f obtain t5 where "f' (t3, w2) = (p, (t5, w4))" by (blast dest: obs_eqD)
  with eq 1 2 3 show "\<exists>t2. io_finally m' f' (t', w) = (r, (t2, w1))"
    by (cases p) (auto simp: io_finally_def)
qed

lemma obs_eq_zoom [obs_intros]:
  assumes m: "obs_eq m m'"
  shows "obs_eq (io_zoom get put m) (io_zoom get put m')"
proof (rule obs_eqI)
  fix t t' w r t1 w1
  assume eq: "io_zoom get put m (t, w) = (r, (t1, w1))"
  obtain q t2 x where 1: "m (t, get w) = (q, (t2, x))" by (metis prod.exhaust)
  with m obtain t3 where "m' (t', get w) = (q, (t3, x))" by (blast dest: obs_eqD)
  with eq 1 show "\<exists>t2. io_zoom get put m' (t', w) = (r, (t2, w1))" by (simp add: io_zoom_def)
qed

lemma obs_eq_if [obs_intros]:
  "(b \<Longrightarrow> obs_eq m n) \<Longrightarrow> (\<not> b \<Longrightarrow> obs_eq m' n') \<Longrightarrow>
   obs_eq (if b then m else m') (if b then n else n')"
  by simp

lemma obs_eq_traced [obs_intros]:
  assumes body: "\<And>sp sp'. obs_eq (body sp) (body' sp')"
  shows "obs_eq (traced name tid parent attrs body) (traced name' tid' parent' attrs' body')"
proof (rule obs_eqI)
  fix t t' w r t1 w1
  assume eq: "traced name tid parent attrs body (t, w) = (r, (t1, w1))"
  obtain sp u1 where 1: "start_span name tid parent (clean_attributes attrs) t = (sp, u1)"
    by (metis prod.exhaust)
  obtain sp' u2 where 2: "start_span name' tid' parent' (clean_attributes attrs') t' = (sp', u2)"
    by (metis prod.exhaust)
  obtain q t2 w2 where 3: "body sp (u1, w) = (q, (t2, w2))" by (metis prod.exhaust)
  with body obtain t3 where "body' sp' (u2, w) = (q, (t3, w2))" by (blast dest: obs_eqD)
  with eq 1 2 3 show "\<exists>t2. traced name' tid' parent' attrs' body' (t', w) = (r, (t2, w1))"
    by (auto simp: traced_def)
qed

text \<open>What the caller of \<open>traced\<close> sees is what the body did.\<close>

lemma traced_result:
  assumes "traced name tid parent attrs body (t, w) = (r, (t', w'))"
  shows "\<exists>sp t1 t2. start_span name tid parent (clean_attributes attrs) t = (sp, t1) \<and>
           body sp (t1, w) = (r, (t2, w'))"
  using assms by (auto simp: traced_def split: prod.splits)

lemma clean_attributes_no_None: "(k, v) \<in> set (clean_attributes attrs) \<Longrightarrow> v \<noteq> PNone"
  by (auto simp: clean_attributes_def)

end
