(* ===== verification/PyText.thy ===== *)
theory PyText
  imports Exceptions "HOL-Library.Multiset"
begin

text \<open>
  The parts of Python's string library the program uses: UTF-8 encoding and its length,
  \<^verbatim>\<open>re.findall("[a-z0-9]+", text.lower())\<close>, slices from the front, and the stable descending
  sort of scored pairs.
\<close>

section \<open>UTF-8\<close>

text \<open>\<^verbatim>\<open>s.encode()\<close>: a surrogate code point cannot be encoded.\<close>

definition is_surrogate :: "nat \<Rightarrow> bool" where
  "is_surrogate c \<longleftrightarrow> 0xD800 \<le> c \<and> c \<le> 0xDFFF"

definition utf8_char :: "nat \<Rightarrow> nat list" where
  "utf8_char c =
     (if c < 0x80 then [c]
      else if c < 0x800 then [0xC0 + c div 64, 0x80 + c mod 64]
      else if c < 0x10000 then [0xE0 + c div 4096, 0x80 + c div 64 mod 64, 0x80 + c mod 64]
      else [0xF0 + c div 262144, 0x80 + c div 4096 mod 64, 0x80 + c div 64 mod 64, 0x80 + c mod 64])"

definition utf8_encode :: "pystr \<Rightarrow> nat list result" where
  "utf8_encode s =
     (if \<exists>c \<in> set s. is_surrogate c then Inl (raised UnicodeEncodeError [PStr s])
      else Inr (concat (map utf8_char s)))"

text \<open>\<^verbatim>\<open>len(s.encode())\<close>\<close>

definition utf8_len :: "pystr \<Rightarrow> nat result" where
  "utf8_len s = map_sum id length (utf8_encode s)"

lemma utf8_char_length: "1 \<le> length (utf8_char c)" "length (utf8_char c) \<le> 4"
  by (simp_all add: utf8_char_def)

lemma utf8_len_ok: "\<forall>c \<in> set s. \<not> is_surrogate c \<Longrightarrow> \<exists>n. utf8_len s = Inr n \<and> length s \<le> n"
proof -
  assume "\<forall>c \<in> set s. \<not> is_surrogate c"
  then have "utf8_len s = Inr (length (concat (map utf8_char s)))"
    by (auto simp: utf8_len_def utf8_encode_def)
  moreover have "length s \<le> length (concat (map utf8_char s))"
    by (induction s) (use utf8_char_length in \<open>auto simp: Suc_le_eq add_mono intro: add_le_mono [of 1, simplified]\<close>)
  ultimately show ?thesis by blast
qed

lemma utf8_len_surrogate:
  "c \<in> set s \<Longrightarrow> is_surrogate c \<Longrightarrow> utf8_len s = Inl (raised UnicodeEncodeError [PStr s])"
  by (auto simp: utf8_len_def utf8_encode_def)

section \<open>Tokens\<close>

text \<open>
  \<^verbatim>\<open>text.lower()\<close>, as far as \<^verbatim>\<open>[a-z0-9]\<close> can tell: the capitals A to Z, the Kelvin sign, and
  the capital I with a dot, whose lower case is an i and a combining dot. Every other character
  has a lower case outside the class.
\<close>

definition lower_char :: "nat \<Rightarrow> nat list" where
  "lower_char c =
     (if 65 \<le> c \<and> c \<le> 90 then [c + 32]
      else if c = 0x212A then [107]
      else if c = 0x130 then [105, 0x307]
      else [c])"

definition token_char :: "nat \<Rightarrow> bool" where
  "token_char c \<longleftrightarrow> (97 \<le> c \<and> c \<le> 122) \<or> (48 \<le> c \<and> c \<le> 57)"

text \<open>The maximal non-empty runs of a class of characters, from the left.\<close>

fun runs_of :: "(nat \<Rightarrow> bool) \<Rightarrow> pystr \<Rightarrow> pystr \<Rightarrow> pystr list" where
  "runs_of P acc [] = (if acc = [] then [] else [rev acc])"
| "runs_of P acc (c # cs) =
     (if P c then runs_of P (c # acc) cs
      else if acc = [] then runs_of P [] cs
      else rev acc # runs_of P [] cs)"

definition tokenize :: "pystr \<Rightarrow> pystr list" where
  "tokenize s = runs_of token_char [] (concat (map lower_char s))"

lemma runs_of_nonempty:
  "t \<in> set (runs_of P acc cs) \<Longrightarrow> set acc \<subseteq> Collect P \<Longrightarrow> t \<noteq> [] \<and> set t \<subseteq> Collect P"
proof (induction cs arbitrary: acc)
  case Nil
  then show ?case by (cases "acc = []") auto
next
  case (Cons c cs)
  show ?case
  proof (cases "P c")
    case True
    with Cons.prems have "t \<in> set (runs_of P (c # acc) cs)" "set (c # acc) \<subseteq> Collect P" by simp_all
    then show ?thesis by (rule Cons.IH)
  next
    case False
    with Cons.prems consider "acc \<noteq> []" "t = rev acc" | "t \<in> set (runs_of P [] cs)"
      by (cases "acc = []") auto
    then show ?thesis using Cons.prems(2) Cons.IH [of "[]"] by cases auto
  qed
qed

lemma tokenize_tokens: "t \<in> set (tokenize s) \<Longrightarrow> t \<noteq> [] \<and> set t \<subseteq> Collect token_char"
  unfolding tokenize_def by (rule runs_of_nonempty) auto

section \<open>Decimal numbers\<close>

text \<open>\<^verbatim>\<open>str(n)\<close>\<close>

fun dec :: "nat \<Rightarrow> pystr" where
  "dec n = (if n < 10 then [48 + n] else dec (n div 10) @ [48 + n mod 10])"

declare dec.simps [simp del]

definition str_int :: "int \<Rightarrow> pystr" where
  "str_int z = (if z < 0 then 45 # dec (nat (- z)) else dec (nat z))"

section \<open>White space and front matter\<close>

text \<open>\<^verbatim>\<open>\s\<close> and \<^verbatim>\<open>str.isspace\<close>\<close>

definition is_space :: "nat \<Rightarrow> bool" where
  "is_space c \<longleftrightarrow>
     (9 \<le> c \<and> c \<le> 13) \<or> (28 \<le> c \<and> c \<le> 32) \<or> c = 133 \<or> c = 160 \<or> c = 5760 \<or>
     (8192 \<le> c \<and> c \<le> 8202) \<or> c = 8232 \<or> c = 8233 \<or> c = 8239 \<or> c = 8287 \<or> c = 12288"

text \<open>The text before the first newline and three dashes, and the text after them.\<close>

fun split_close :: "pystr \<Rightarrow> (pystr \<times> pystr) option" where
  "split_close [] = None"
| "split_close (c # cs) =
     (if take 4 (c # cs) = [10, 45, 45, 45] then Some ([], drop 4 (c # cs))
      else map_option (\<lambda>(a, b). (c # a, b)) (split_close cs))"

fun first_some :: "'a option list \<Rightarrow> 'a option" where
  "first_some [] = None"
| "first_some (Some x # xs) = Some x"
| "first_some (None # xs) = first_some xs"

text \<open>
  \<^verbatim>\<open>re.compile(r"\A---\s*\n(.*?)\n---\s*\n?(.*)\Z", re.DOTALL).match(text)\<close>: both groups. The
  first white space is greedy, so the opening line ends at the last newline of the run from
  which the closing line can be reached; the closing line is the first one; the second white
  space swallows every leading blank of the body.
\<close>

definition frontmatter :: "pystr \<Rightarrow> (pystr \<times> pystr) option" where
  "frontmatter s =
     (if take 3 s \<noteq> [45, 45, 45] then None
      else let r = drop 3 s; n = length (takeWhile is_space r) in
        map_option (\<lambda>(a, b). (a, dropWhile is_space b))
          (first_some (map (\<lambda>i. if r ! i = 10 then split_close (drop (Suc i) r) else None) (rev [0..<n]))))"

lemma demo_frontmatter: "frontmatter [45, 45, 45, 10, 97, 10, 45, 45, 45, 10, 120] = Some ([97], [120])"
  by (simp add: frontmatter_def is_space_def Let_def)

section \<open>Slices and ranking\<close>

text \<open>\<^verbatim>\<open>xs[:n]\<close>: a negative bound counts from the end.\<close>

definition slice_to :: "int \<Rightarrow> 'a list \<Rightarrow> 'a list" where
  "slice_to n xs = take (nat (if n < 0 then int (length xs) + n else n)) xs"

lemma length_slice_to: "0 \<le> n \<Longrightarrow> length (slice_to n xs) \<le> nat n"
  by (simp add: slice_to_def)

lemma slice_to_prefix: "prefix (slice_to n xs) xs"
  by (simp add: slice_to_def take_is_prefix)

lemma set_slice_to: "set (slice_to n xs) \<subseteq> set xs"
  by (simp add: slice_to_def set_take_subset)

text \<open>\<^verbatim>\<open>sorted(zip(xs, scores, strict=True), key=..., reverse=True)\<close>: reversal keeps the order of
  equal elements.\<close>

definition ranked :: "'a list \<Rightarrow> real list \<Rightarrow> ('a \<times> real) list result" where
  "ranked xs scores =
     (if length xs \<noteq> length scores then Inl (raised ValueError [])
      else Inr (sort_key (\<lambda>p. - snd p) (zip xs scores)))"

lemma ranked_ok:
  assumes "ranked xs scores = Inr ps"
  shows "mset ps = mset (zip xs scores)" and "sorted_wrt (\<ge>) (map snd ps)" and "mset (map fst ps) = mset xs"
proof -
  from assms have len: "length xs = length scores" and ps: "ps = sort_key (\<lambda>p. - snd p) (zip xs scores)"
    by (auto simp: ranked_def split: if_splits)
  then show m: "mset ps = mset (zip xs scores)" by simp
  have "sorted (map (\<lambda>p. - snd p) ps)" using ps by simp
  then show "sorted_wrt (\<ge>) (map snd ps)" by (simp add: sorted_map sorted_wrt_map)
  from m have "image_mset fst (mset ps) = image_mset fst (mset (zip xs scores))" by simp
  then show "mset (map fst ps) = mset xs" using len by (simp flip: mset_map)
qed

lemma ranked_set: "ranked xs scores = Inr ps \<Longrightarrow> fst ` set ps = set xs"
  using ranked_ok(3) by (metis list.set_map set_mset_mset)

text \<open>\<^verbatim>\<open>enumerate(xs)\<close>, the index second.\<close>

definition with_rank :: "'a list \<Rightarrow> ('a \<times> nat) list" where
  "with_rank xs = zip xs [0..<length xs]"

lemma with_rank_simps [simp]: "map fst (with_rank xs) = xs" "map snd (with_rank xs) = [0..<length xs]"
  "length (with_rank xs) = length xs"
  by (simp_all add: with_rank_def)

end
