(* ===== verification/RetrieverModel.thy ===== *)
theory RetrieverModel
  imports Observability PyText
begin

text \<open>
  \<^verbatim>\<open>src/fabrica/retriever\<close>: the indexed items, the contract of a search backend, the keyword
  backend and the retriever, which writes to a primary and a fallback backend and searches the
  fallback when the primary fails or is too slow.

  \<^verbatim>\<open>rank_bm25\<close> is a parameter: a corpus and a query to one score per document, or an exception.
  A backend is a record of operations over a state of its own; its query also says how long it
  takes. \<open>retriever_backend\<close> is what the retriever relies on, \<open>steady_backend\<close> what it relies on in its
  fallback; the keyword backend interprets both.
\<close>

section \<open>Items and matches\<close>

datatype kind = Tool | Skill

record indexable =
  ix_id :: pystr
  ix_kind :: kind
  ix_name :: pystr
  ix_description :: pystr
  ix_eager :: bool

definition make_indexable :: "pystr \<Rightarrow> kind \<Rightarrow> pystr \<Rightarrow> pystr \<Rightarrow> bool \<Rightarrow> indexable result" where
  "make_indexable i k n d e =
     (if i = [] then Inl (raised ValueError [])
      else Inr \<lparr>ix_id = i, ix_kind = k, ix_name = n, ix_description = d, ix_eager = e\<rparr>)"

record ranked_match =
  rm_item :: indexable
  rm_rank :: nat

fun kind_val :: "kind \<Rightarrow> pyval" where
  "kind_val Tool = PStr (u ''tool'')"
| "kind_val Skill = PStr (u ''skill'')"

definition kind_option_val :: "kind option \<Rightarrow> pyval" where
  "kind_option_val k = (case k of None \<Rightarrow> PNone | Some k \<Rightarrow> kind_val k)"

definition indexable_val :: "indexable \<Rightarrow> pyval" where
  "indexable_val i =
     PList [PStr (ix_id i), kind_val (ix_kind i), PStr (ix_name i), PStr (ix_description i), PBool (ix_eager i)]"

definition of_kind :: "kind option \<Rightarrow> indexable \<Rightarrow> bool" where
  "of_kind k i \<longleftrightarrow> (case k of None \<Rightarrow> True | Some k' \<Rightarrow> ix_kind i = k')"

text \<open>Adding a batch to an index by id: a later item replaces an earlier one.\<close>

definition index_all :: "indexable list \<Rightarrow> (pystr \<rightharpoonup> indexable) \<Rightarrow> (pystr \<rightharpoonup> indexable)" where
  "index_all xs m = fold (\<lambda>i m. m(ix_id i \<mapsto> i)) xs m"

lemma index_all_simps [simp]: "index_all [] m = m" "index_all (x # xs) m = index_all xs (m(ix_id x \<mapsto> x))"
  by (simp_all add: index_all_def)

lemma index_all_append: "index_all (xs @ ys) m = index_all ys (index_all xs m)"
  by (simp add: index_all_def)

lemma index_all_out: "k \<notin> ix_id ` set xs \<Longrightarrow> index_all xs m k = m k"
  by (induction xs arbitrary: m) auto

lemma index_all_in: "k \<in> ix_id ` set xs \<Longrightarrow> \<exists>x \<in> set xs. index_all xs m k = Some x \<and> ix_id x = k"
proof (induction xs arbitrary: m)
  case (Cons x xs)
  then show ?case by (cases "k \<in> ix_id ` set xs") (force simp: index_all_out)+
qed simp

lemma index_all_mono: "m \<subseteq>\<^sub>m m' \<Longrightarrow> index_all xs m \<subseteq>\<^sub>m index_all xs m'"
  by (induction xs arbitrary: m m') (auto intro: map_le_upd)

definition drop_keys :: "'k list \<Rightarrow> ('k \<rightharpoonup> 'v) \<Rightarrow> ('k \<rightharpoonup> 'v)" where
  "drop_keys ks m = (\<lambda>k. if k \<in> set ks then None else m k)"

lemma drop_keys_simps [simp]: "drop_keys [] m = m" "drop_keys (k # ks) m = drop_keys ks (m(k := None))"
  by (auto simp: drop_keys_def)

section \<open>What a backend promises\<close>

record 'b backend =
  bk_add :: "indexable list \<Rightarrow> 'b \<Rightarrow> unit result \<times> 'b"
  bk_remove :: "pystr list \<Rightarrow> 'b \<Rightarrow> unit result \<times> 'b"
  bk_query :: "pystr \<Rightarrow> kind option \<Rightarrow> int \<Rightarrow> 'b \<Rightarrow> real \<times> (ranked_match list result \<times> 'b)"
  bk_health_check :: "'b \<Rightarrow> bool result \<times> 'b"

text \<open>An acceptable answer over an index: ranks from 0 in order, each item once, all of them in
  the index and of the asked kind, at most as many as asked for.\<close>

definition answer_ok :: "(pystr \<rightharpoonup> indexable) \<Rightarrow> kind option \<Rightarrow> int \<Rightarrow> ranked_match list \<Rightarrow> bool" where
  "answer_ok m k n ms \<longleftrightarrow>
     map rm_rank ms = [0..<length ms] \<and>
     distinct (map (ix_id \<circ> rm_item) ms) \<and>
     (\<forall>x \<in> set ms. m (ix_id (rm_item x)) = Some (rm_item x) \<and> of_kind k (rm_item x)) \<and>
     (0 \<le> n \<longrightarrow> length ms \<le> nat n)"

locale retriever_backend =
  fixes bk :: "'b backend"
    and inv :: "'b \<Rightarrow> bool"
    and items :: "'b \<Rightarrow> pystr \<Rightarrow> indexable option"
  assumes add_inv: "inv b \<Longrightarrow> bk_add bk xs b = (r, b') \<Longrightarrow> inv b'"
    and remove_inv: "inv b \<Longrightarrow> bk_remove bk ks b = (r, b') \<Longrightarrow> inv b'"
    and query_inv: "inv b \<Longrightarrow> bk_query bk q k n b = (t, (qr, b')) \<Longrightarrow> inv b' \<and> items b' = items b"
    and add_items: "inv b \<Longrightarrow> bk_add bk xs b = (Inr x, b') \<Longrightarrow> items b' = index_all xs (items b)"
    and remove_items: "inv b \<Longrightarrow> bk_remove bk ks b = (Inr x, b') \<Longrightarrow> items b' = drop_keys ks (items b)"
    and query_answer: "inv b \<Longrightarrow> bk_query bk q k n b = (t, (Inr ms, b')) \<Longrightarrow> answer_ok (items b) k n ms"

section \<open>The keyword backend\<close>

type_synonym keyword_state = "(pystr, indexable) dict"

definition kw_add :: "indexable list \<Rightarrow> keyword_state \<Rightarrow> unit result \<times> keyword_state" where
  "kw_add xs d = (Inr (), fold (\<lambda>i. dict_set (ix_id i) i) xs d)"

definition kw_remove :: "pystr list \<Rightarrow> keyword_state \<Rightarrow> unit result \<times> keyword_state" where
  "kw_remove ks d = (Inr (), fold dict_pop ks d)"

type_synonym bm25 = "pystr list list \<Rightarrow> pystr list \<Rightarrow> real list result"

definition kw_query ::
    "bm25 \<Rightarrow> pystr \<Rightarrow> kind option \<Rightarrow> int \<Rightarrow> keyword_state \<Rightarrow> ranked_match list result" where
  "kw_query bm25 q k n d =
     (let candidates = filter (of_kind k) (dict_values d)
      in if candidates = [] then Inr []
         else (case bm25 (map (tokenize \<circ> ix_description) candidates) (tokenize q) of
                 Inl e \<Rightarrow> Inl e
               | Inr scores \<Rightarrow>
                   (case ranked candidates scores of
                      Inl e \<Rightarrow> Inl e
                    | Inr ps \<Rightarrow>
                        Inr (map (\<lambda>((i, _), r). \<lparr>rm_item = i, rm_rank = r\<rparr>)
                               (with_rank (slice_to n ps))))))"

definition keyword_backend :: "bm25 \<Rightarrow> keyword_state backend" where
  "keyword_backend bm25 =
     \<lparr>bk_add = kw_add, bk_remove = kw_remove,
      bk_query = (\<lambda>q k n d. (0, (kw_query bm25 q k n d, d))),
      bk_health_check = (\<lambda>d. (Inr True, d))\<rparr>"

definition keyword_ok :: "keyword_state \<Rightarrow> bool" where
  "keyword_ok d \<longleftrightarrow> dict_ok d \<and> (\<forall>k i. dict_get d k = Some i \<longrightarrow> ix_id i = k)"

lemma keyword_ok_empty [simp]: "keyword_ok []"
  by (simp add: keyword_ok_def)

lemma kw_add_items:
  assumes "keyword_ok d"
  shows "keyword_ok (fold (\<lambda>i. dict_set (ix_id i) i) xs d)"
    and "dict_get (fold (\<lambda>i. dict_set (ix_id i) i) xs d) = index_all xs (dict_get d)"
  using assms
proof (induction xs arbitrary: d)
  case (Cons x xs)
  {
    case 1
    then have "keyword_ok (dict_set (ix_id x) x d)" by (auto simp: keyword_ok_def map_of_dict_set)
    then show ?case using Cons.IH(1) by simp
  next
    case 2
    then have "keyword_ok (dict_set (ix_id x) x d)" by (auto simp: keyword_ok_def map_of_dict_set)
    then show ?case using Cons.IH(2) by (simp add: map_of_dict_set fun_upd_def)
  }
qed simp_all

lemma kw_remove_items:
  assumes "keyword_ok d"
  shows "keyword_ok (fold dict_pop ks d)"
    and "dict_get (fold dict_pop ks d) = drop_keys ks (dict_get d)"
  using assms
proof (induction ks arbitrary: d)
  case (Cons k ks)
  {
    case 1
    then have "keyword_ok (dict_pop k d)" by (auto simp: keyword_ok_def map_of_dict_pop)
    then show ?case using Cons.IH(1) by simp
  next
    case 2
    then have "keyword_ok (dict_pop k d)" by (auto simp: keyword_ok_def map_of_dict_pop)
    then show ?case using Cons.IH(2) by (simp add: map_of_dict_pop fun_upd_def)
  }
qed simp_all

lemma keyword_ok_values:
  assumes "keyword_ok d"
  shows "distinct (map ix_id (dict_values d))"
    and "i \<in> set (dict_values d) \<Longrightarrow> dict_get d (ix_id i) = Some i"
proof -
  have "ix_id i = k" if "(k, i) \<in> set d" for k i
    using assms that by (auto simp: keyword_ok_def)
  then have "map ix_id (dict_values d) = dict_keys d" by auto
  then show "distinct (map ix_id (dict_values d))" using assms by (metis keyword_ok_def)
  show "i \<in> set (dict_values d) \<Longrightarrow> dict_get d (ix_id i) = Some i"
    using assms by (auto simp: keyword_ok_def)
qed

lemma keyword_ok_mem:
  "keyword_ok d \<Longrightarrow> i \<in> set (dict_values d) \<longleftrightarrow> dict_get d (ix_id i) = Some i"
  by (blast intro: keyword_ok_values(2) dict_getD)

text \<open>What a query that returns has done: the matches are the front of the scored candidates,
  sorted by falling score.\<close>

lemma kw_query_ranking:
  assumes "kw_query bm25 q k n d = Inr ms" and "filter (of_kind k) (dict_values d) \<noteq> []"
  obtains scores ps
  where "bm25 (map (tokenize \<circ> ix_description) (filter (of_kind k) (dict_values d))) (tokenize q) = Inr scores"
    and "ranked (filter (of_kind k) (dict_values d)) scores = Inr ps"
    and "map rm_item ms = map fst (slice_to n ps)" and "map rm_rank ms = [0..<length ms]"
proof -
  from assms obtain scores ps where *:
    "bm25 (map (tokenize \<circ> ix_description) (filter (of_kind k) (dict_values d))) (tokenize q) = Inr scores"
    "ranked (filter (of_kind k) (dict_values d)) scores = Inr ps"
    "ms = map (\<lambda>((i, _), r). \<lparr>rm_item = i, rm_rank = r\<rparr>) (with_rank (slice_to n ps))"
    by (auto simp: kw_query_def Let_def split: sum.splits)
  have rm: "map rm_item (map (\<lambda>((i, _ :: real), r). \<lparr>rm_item = i, rm_rank = r\<rparr>) xs) = map fst (map fst xs)"
    "map rm_rank (map (\<lambda>((i, _ :: real), r). \<lparr>rm_item = i, rm_rank = r\<rparr>) xs) = map snd xs" for xs
    by (induction xs) auto
  from *(3) have "map rm_item ms = map fst (slice_to n ps)" "map rm_rank ms = [0..<length ms]"
    by (simp_all only: rm with_rank_simps length_map)
  with *(1,2) that show ?thesis by blast
qed

lemma kw_query_answer:
  assumes "keyword_ok d" and "kw_query bm25 q k n d = Inr ms"
  shows "answer_ok (dict_get d) k n ms"
proof (cases "filter (of_kind k) (dict_values d) = []")
  case True
  with assms(2) have "ms = []" by (simp add: kw_query_def)
  then show ?thesis by (simp add: answer_ok_def)
next
  case False
  let ?cs = "filter (of_kind k) (dict_values d)"
  from kw_query_ranking [OF assms(2) False] obtain scores ps
    where ps: "ranked ?cs scores = Inr ps"
      and items: "map rm_item ms = map fst (slice_to n ps)" and ranks: "map rm_rank ms = [0..<length ms]"
    by metis
  have front: "prefix (map rm_item ms) (map fst ps)"
    unfolding items by (rule map_mono_prefix [OF slice_to_prefix])
  have "mset (map ix_id (map fst ps)) = mset (map ix_id ?cs)"
    using ranked_ok(3) [OF ps] by (metis mset_map)
  moreover have "distinct (map ix_id ?cs)"
    using keyword_ok_values(1) [OF assms(1)] by (rule distinct_map_filter)
  ultimately have "distinct (map ix_id (map fst ps))" by (metis mset_eq_imp_distinct_iff)
  with front have "distinct (map ix_id (map rm_item ms))"
    by (metis map_mono_prefix prefix_def distinct_append)
  moreover have sub: "rm_item ` set ms \<subseteq> set ?cs"
  proof -
    have "set (map rm_item ms) \<subseteq> set (map fst ps)" using front by (rule set_mono_prefix)
    then show ?thesis using ranked_set [OF ps] by simp
  qed
  moreover have "length ms \<le> nat n" if "0 \<le> n"
    using items length_slice_to [OF that, of ps] by (metis length_map)
  ultimately show ?thesis
    using ranks keyword_ok_values(2) [OF assms(1)] by (auto simp: answer_ok_def image_subset_iff)
qed

locale steady_backend = retriever_backend bk inv items
  for bk :: "'b backend" and inv and items +
  assumes add_total: "inv b \<Longrightarrow> \<exists>b'. bk_add bk xs b = (Inr (), b')"
    and remove_total: "inv b \<Longrightarrow> \<exists>b'. bk_remove bk ks b = (Inr (), b')"

interpretation keyword: steady_backend "keyword_backend bm25" keyword_ok map_of for bm25
proof unfold_locales
qed (auto simp: keyword_backend_def kw_add_def kw_remove_def kw_add_items kw_remove_items
    intro: kw_query_answer)

section \<open>The retriever\<close>

record ('p, 'f) retriever =
  rt_primary :: 'p
  rt_fallback :: 'f
  rt_registered :: "(pystr, indexable) dict"

definition new_retriever :: "'p \<Rightarrow> 'f \<Rightarrow> ('p, 'f) retriever" where
  "new_retriever p f = \<lparr>rt_primary = p, rt_fallback = f, rt_registered = []\<rparr>"

text \<open>The check over the whole batch: the first item whose id is registered with another kind,
  name or description.\<close>

definition conflicts :: "indexable \<Rightarrow> indexable \<Rightarrow> bool" where
  "conflicts old new \<longleftrightarrow>
     ix_kind old \<noteq> ix_kind new \<or> ix_name old \<noteq> ix_name new \<or> ix_description old \<noteq> ix_description new"

fun find_duplicate :: "(pystr, indexable) dict \<Rightarrow> indexable list \<Rightarrow> (indexable \<times> indexable) option" where
  "find_duplicate reg [] = None"
| "find_duplicate reg (i # is) =
     (case dict_get reg (ix_id i) of
        None \<Rightarrow> find_duplicate reg is
      | Some old \<Rightarrow> if conflicts old i then Some (old, i) else find_duplicate reg is)"

definition duplicate_error :: "indexable \<Rightarrow> indexable \<Rightarrow> exc" where
  "duplicate_error old new =
     raised (Retriever_exc DuplicateIndexableError)
       [PStr (ix_id new), indexable_val old, indexable_val new]"

definition unavailable :: exc where
  "unavailable = raised (Retriever_exc RetrieverUnavailableError) []"

text \<open>\<^verbatim>\<open>except Exception\<close> around a best-effort call: \<open>Inr ok\<close> says whether it succeeded, an
  exception that is not an \<^verbatim>\<open>Exception\<close> goes through.\<close>

fun best_effort :: "unit result \<Rightarrow> bool result" where
  "best_effort (Inr _) = Inr True"
| "best_effort (Inl e) = (if is_Exception e then Inr False else Inl e)"

definition rt_register ::
    "'p backend \<Rightarrow> 'f backend \<Rightarrow> indexable list \<Rightarrow> ('p, 'f) retriever \<Rightarrow> unit result \<times> ('p, 'f) retriever" where
  "rt_register bp bf is r =
     (case find_duplicate (rt_registered r) is of
        Some (old, new) \<Rightarrow> (Inl (duplicate_error old new), r)
      | None \<Rightarrow>
          (case bk_add bp is (rt_primary r) of (rp, p) \<Rightarrow>
             let r1 = r\<lparr>rt_primary := p\<rparr> in
             case best_effort rp of
               Inl e \<Rightarrow> (Inl e, r1)
             | Inr primary_ok \<Rightarrow>
                 (case bk_add bf is (rt_fallback r1) of (rf, f) \<Rightarrow>
                    let r2 = r1\<lparr>rt_fallback := f\<rparr> in
                    case best_effort rf of
                      Inl e \<Rightarrow> (Inl e, r2)
                    | Inr fallback_ok \<Rightarrow>
                        if \<not> primary_ok \<and> \<not> fallback_ok then (Inl unavailable, r2)
                        else (Inr (), r2\<lparr>rt_registered :=
                                fold (\<lambda>i. dict_set (ix_id i) i) is (rt_registered r2)\<rparr>))))"

definition rt_deregister ::
    "'p backend \<Rightarrow> 'f backend \<Rightarrow> pystr list \<Rightarrow> ('p, 'f) retriever \<Rightarrow> unit result \<times> ('p, 'f) retriever" where
  "rt_deregister bp bf ks r =
     (let r0 = r\<lparr>rt_registered := fold dict_pop ks (rt_registered r)\<rparr> in
      case bk_remove bp ks (rt_primary r0) of (rp, p) \<Rightarrow>
        let r1 = r0\<lparr>rt_primary := p\<rparr> in
        case best_effort rp of
          Inl e \<Rightarrow> (Inl e, r1)
        | Inr _ \<Rightarrow>
            (case bk_remove bf ks (rt_fallback r1) of (rf, f) \<Rightarrow>
               (map_sum id (\<lambda>_. ()) (best_effort rf), r1\<lparr>rt_fallback := f\<rparr>)))"

definition query_primary ::
    "'p backend \<Rightarrow> real \<Rightarrow> pystr \<Rightarrow> kind option \<Rightarrow> int \<Rightarrow> ('p, 'f) retriever
     \<Rightarrow> ranked_match list result \<times> ('p, 'f) retriever" where
  "query_primary bp tmo q k n r =
     (case wait_for tmo (bk_query bp q k n) (rt_primary r) of (a, p) \<Rightarrow> (a, r\<lparr>rt_primary := p\<rparr>))"

definition query_fallback ::
    "'f backend \<Rightarrow> real \<Rightarrow> pystr \<Rightarrow> kind option \<Rightarrow> int \<Rightarrow> ('p, 'f) retriever
     \<Rightarrow> ranked_match list result \<times> ('p, 'f) retriever" where
  "query_fallback bf tmo q k n r =
     (case wait_for tmo (bk_query bf q k n) (rt_fallback r) of (a, f) \<Rightarrow> (a, r\<lparr>rt_fallback := f\<rparr>))"

definition top_rank :: "ranked_match list \<Rightarrow> int" where
  "top_rank ms = (case ms of [] \<Rightarrow> -1 | m # _ \<Rightarrow> int (rm_rank m))"

definition rt_search ::
    "'p backend \<Rightarrow> 'f backend \<Rightarrow> pystr \<Rightarrow> kind option \<Rightarrow> int \<Rightarrow> real \<Rightarrow> pystr \<Rightarrow> pystr option
     \<Rightarrow> (('p, 'f) retriever, ranked_match list) io" where
  "rt_search bp bf q k n tmo tid parent =
     traced (u ''fabrica.retriever.search'') tid parent
       [(u ''query'', PStr q), (u ''kind'', kind_option_val k), (u ''limit'', PInt n)]
       (\<lambda>sp.
          io_bind
            (io_catch
              (io_bind (io_lift (query_primary bp tmo q k n)) (\<lambda>ms.
               io_bind (io_attr sp (u ''backend'') (PStr (u ''primary''))) (\<lambda>_. io_return ms)))
              (\<lambda>e. if \<not> is_Exception e then io_raise e else
                io_catch
                  (io_bind (io_lift (query_fallback bf tmo q k n)) (\<lambda>ms.
                   io_bind (io_attr sp (u ''backend'') (PStr (u ''fallback''))) (\<lambda>_. io_return ms)))
                  (\<lambda>e. if \<not> is_Exception e then io_raise e
                       else io_raise (raised_from (Retriever_exc RetrieverUnavailableError) [] e))))
            (\<lambda>ms. io_bind (io_attr sp (u ''top_rank'') (PInt (top_rank ms))) (\<lambda>_. io_return ms)))"

definition list_eager :: "kind option \<Rightarrow> ('p, 'f) retriever \<Rightarrow> indexable list" where
  "list_eager k r = filter (\<lambda>i. ix_eager i \<and> of_kind k i) (dict_values (rt_registered r))"

section \<open>Searching and writing over a lawful fallback\<close>

text \<open>What a search returns and leaves behind, without the tracing.\<close>

definition search_outcome ::
    "'p backend \<Rightarrow> 'f backend \<Rightarrow> pystr \<Rightarrow> kind option \<Rightarrow> int \<Rightarrow> real \<Rightarrow> ('p, 'f) retriever
     \<Rightarrow> ranked_match list result \<times> ('p, 'f) retriever" where
  "search_outcome bp bf q k n tmo r =
     (case query_primary bp tmo q k n r of
        (Inr ms, r1) \<Rightarrow> (Inr ms, r1)
      | (Inl e, r1) \<Rightarrow>
          if \<not> is_Exception e then (Inl e, r1)
          else (case query_fallback bf tmo q k n r1 of
                  (Inr ms, r2) \<Rightarrow> (Inr ms, r2)
                | (Inl e', r2) \<Rightarrow>
                    (Inl (if is_Exception e' then raised_from (Retriever_exc RetrieverUnavailableError) [] e'
                          else e'), r2)))"

lemma rt_search_outcome:
  assumes "rt_search bp bf q k n tmo tid parent (t, r) = (res, (t', r'))"
  shows "search_outcome bp bf q k n tmo r = (res, r')"
proof -
  from traced_result [OF assms [unfolded rt_search_def]] show ?thesis
    by (auto simp: io_defs search_outcome_def simp del: u_simps split: prod.splits sum.splits if_splits)
qed

lemma query_primary_fallback [simp]:
  "query_primary bp tmo q k n r = (a, r') \<Longrightarrow> rt_fallback r' = rt_fallback r \<and> rt_registered r' = rt_registered r"
  by (auto simp: query_primary_def split: prod.splits)

lemma map_of_batch: "dict_get (fold (\<lambda>i. dict_set (ix_id i) i) is reg) = index_all is (dict_get reg)"
  by (induction "is" arbitrary: reg) (simp_all add: map_of_dict_set fun_upd_def)

lemma map_of_batch_pop: "dict_get (fold dict_pop ks reg) = drop_keys ks (dict_get reg)"
  by (induction ks arbitrary: reg) (simp_all add: map_of_dict_pop fun_upd_def)

lemma drop_keys_mono: "m \<subseteq>\<^sub>m m' \<Longrightarrow> drop_keys ks m \<subseteq>\<^sub>m drop_keys ks m'"
  by (auto simp: drop_keys_def map_le_def dom_def)

lemma drop_keys_le: "drop_keys ks m \<subseteq>\<^sub>m m"
  by (auto simp: drop_keys_def map_le_def dom_def)

datatype rt_event =
    Register "indexable list"
  | Deregister "pystr list"
  | Search pystr "kind option" int real

definition rt_step :: "'p backend \<Rightarrow> 'f backend \<Rightarrow> rt_event \<Rightarrow> ('p, 'f) retriever \<Rightarrow> ('p, 'f) retriever" where
  "rt_step bp bf e r =
     (case e of
        Register is \<Rightarrow> snd (rt_register bp bf is r)
      | Deregister ks \<Rightarrow> snd (rt_deregister bp bf ks r)
      | Search q k n tmo \<Rightarrow> snd (search_outcome bp bf q k n tmo r))"

context retriever_backend
begin

lemma wait_for_query:
  assumes "inv b" and "wait_for tmo (bk_query bk q k n) b = (a, b')"
  shows "inv b' \<and> items b' = items b" and "a = Inr ms \<Longrightarrow> answer_ok (items b) k n ms"
  using assms query_inv query_answer
  by (auto simp: wait_for_def split: if_splits prod.splits)

lemma fallback_answer:
  assumes "inv (rt_fallback r)" and "query_fallback bk tmo q k n r = (a, r')"
  shows "inv (rt_fallback r') \<and> items (rt_fallback r') = items (rt_fallback r)"
    and "rt_registered r' = rt_registered r" and "rt_primary r' = rt_primary r"
    and "a = Inr ms \<Longrightarrow> answer_ok (items (rt_fallback r)) k n ms"
  using assms wait_for_query [of "rt_fallback r" tmo q k n]
  by (auto simp: query_fallback_def split: prod.splits)

lemma primary_answer:
  assumes "inv (rt_primary r)" and "query_primary bk tmo q k n r = (Inr ms, r')"
  shows "answer_ok (items (rt_primary r)) k n ms"
  using assms wait_for_query [of "rt_primary r" tmo q k n]
  by (auto simp: query_primary_def split: prod.splits)

end

context steady_backend
begin

text \<open>The fallback holds every registered item: \<open>in_sync\<close> survives every operation, whatever the
  primary does.\<close>

definition in_sync :: "('p, 'b) retriever \<Rightarrow> bool" where
  "in_sync r \<longleftrightarrow> inv (rt_fallback r) \<and> dict_get (rt_registered r) \<subseteq>\<^sub>m items (rt_fallback r)"

lemma register_in_sync:
  assumes "in_sync r"
  shows "in_sync (snd (rt_register bp bk is r))"
proof -
  from assms have inv: "inv (rt_fallback r)" by (simp add: in_sync_def)
  then obtain f where f: "bk_add bk is (rt_fallback r) = (Inr (), f)" using add_total by blast
  then have "inv f" "items f = index_all is (items (rt_fallback r))"
    using inv add_inv add_items by blast+
  then show ?thesis
    using assms f
    by (auto simp: rt_register_def in_sync_def Let_def map_of_batch index_all_mono
        split: option.split prod.split sum.split)
qed

lemma deregister_in_sync:
  assumes "in_sync r"
  shows "in_sync (snd (rt_deregister bp bk ks r))"
proof -
  from assms have inv: "inv (rt_fallback r)" by (simp add: in_sync_def)
  then obtain f where f: "bk_remove bk ks (rt_fallback r) = (Inr (), f)" using remove_total by blast
  then have "inv f" "items f = drop_keys ks (items (rt_fallback r))"
    using inv remove_inv remove_items by blast+
  then show ?thesis
    using assms f map_le_trans [OF drop_keys_le]
    by (auto simp: rt_deregister_def in_sync_def Let_def map_of_batch_pop drop_keys_mono
        split: option.split prod.split sum.split)
qed

lemma search_in_sync:
  assumes "in_sync r"
  shows "in_sync (snd (search_outcome bp bk q k n tmo r))"
proof -
  obtain a r1 where p: "query_primary bp tmo q k n r = (a, r1)" by (metis prod.exhaust)
  obtain a' r2 where f: "query_fallback bk tmo q k n r1 = (a', r2)" by (metis prod.exhaust)
  have r1: "rt_fallback r1 = rt_fallback r" "rt_registered r1 = rt_registered r"
    using query_primary_fallback [OF p] by simp_all
  then have "in_sync r1" using assms by (simp add: in_sync_def)
  moreover from this have "in_sync r2"
    using fallback_answer(1,2) [OF _ f] by (simp add: in_sync_def)
  ultimately show ?thesis
    using p f by (auto simp: search_outcome_def split: sum.split)
qed

lemma history_in_sync:
  assumes "in_sync r"
  shows "in_sync (fold (rt_step bp bk) es r)"
  using assms
proof (induction es arbitrary: r)
  case (Cons e es)
  have "in_sync (rt_step bp bk e r)"
    using Cons.prems register_in_sync deregister_in_sync search_in_sync
    by (cases e) (auto simp: rt_step_def)
  then show ?case using Cons.IH by simp
qed simp

end

lemma find_duplicate_Some:
  "find_duplicate reg is = Some (old, new) \<Longrightarrow> new \<in> set is \<and> dict_get reg (ix_id new) = Some old \<and> conflicts old new"
  by (induction reg "is" rule: find_duplicate.induct) (auto split: option.splits if_splits)

lemma find_duplicate_None:
  "find_duplicate reg is = None \<longleftrightarrow> (\<forall>i \<in> set is. \<forall>old. dict_get reg (ix_id i) = Some old \<longrightarrow> \<not> conflicts old i)"
  by (induction reg "is" rule: find_duplicate.induct) (auto split: option.splits)

lemma register_registered:
  assumes "rt_register bp bf is r = (x, r')"
  shows "rt_registered r' =
    (if x = Inr () then fold (\<lambda>i. dict_set (ix_id i) i) is (rt_registered r) else rt_registered r)"
  using assms
  by (auto simp: rt_register_def Let_def split: option.splits prod.splits sum.splits if_splits)

lemma slice_all: "int (length xs) \<le> n \<Longrightarrow> slice_to n xs = xs"
  by (simp add: slice_to_def)

lemma length_slice: "0 \<le> n \<Longrightarrow> length (slice_to n xs) = min (nat n) (length xs)"
  by (simp add: slice_to_def)

section \<open>Properties\<close>

lemma register_all_or_nothing_parts:
  shows "i \<in> set is \<Longrightarrow> dict_get (rt_registered r) (ix_id i) = Some old \<Longrightarrow> conflicts old i \<Longrightarrow>
      snd (rt_register bp bf is r) = r \<and>
      (\<exists>e. fst (rt_register bp bf is r) = Inl e \<and> exc_isa (Retriever_exc DuplicateIndexableError) e)"
    and "fst (rt_register bp bf is r) = Inr () \<Longrightarrow>
      dict_get (rt_registered (snd (rt_register bp bf is r))) = index_all is (dict_get (rt_registered r))"
    and "fst (rt_register bp bf is r) = Inl e \<Longrightarrow>
      rt_registered (snd (rt_register bp bf is r)) = rt_registered r"
proof -
  show "snd (rt_register bp bf is r) = r \<and>
      (\<exists>e. fst (rt_register bp bf is r) = Inl e \<and> exc_isa (Retriever_exc DuplicateIndexableError) e)"
    if "i \<in> set is" "dict_get (rt_registered r) (ix_id i) = Some old" "conflicts old i"
  proof -
    from that find_duplicate_None obtain d where "find_duplicate (rt_registered r) is = Some d"
      by (metis option.exhaust)
    then show ?thesis
      by (cases d) (simp add: rt_register_def duplicate_error_def exc_simps)
  qed
  obtain x r' where eq: "rt_register bp bf is r = (x, r')" by (metis prod.exhaust)
  note reg = register_registered [OF eq]
  show "dict_get (rt_registered (snd (rt_register bp bf is r))) = index_all is (dict_get (rt_registered r))"
    if "fst (rt_register bp bf is r) = Inr ()"
    using reg that by (simp add: eq map_of_batch)
  show "rt_registered (snd (rt_register bp bf is r)) = rt_registered r"
    if "fst (rt_register bp bf is r) = Inl e"
    using reg that by (simp add: eq)
qed

text \<open>registration is all or nothing. A batch with an item whose id is registered with another
  kind, name or description is refused before anything is touched; a batch that is accepted is
  registered whole, later items over earlier ones; any other failure registers nothing.\<close>

lemma register_all_or_nothing:
  "((\<exists>i \<in> set is. \<exists>old. dict_get (rt_registered r) (ix_id i) = Some old \<and> conflicts old i) \<longrightarrow>
      snd (rt_register bp bf is r) = r \<and>
      (\<exists>e. fst (rt_register bp bf is r) = Inl e \<and> exc_isa (Retriever_exc DuplicateIndexableError) e)) \<and>
    (fst (rt_register bp bf is r) = Inr () \<longrightarrow>
      dict_get (rt_registered (snd (rt_register bp bf is r))) = index_all is (dict_get (rt_registered r))) \<and>
    (\<forall>e. fst (rt_register bp bf is r) = Inl e \<longrightarrow>
      rt_registered (snd (rt_register bp bf is r)) = rt_registered r)"
  using register_all_or_nothing_parts(1) [of _ "is" r _ bp bf]
    register_all_or_nothing_parts(2,3) [of bp bf "is" r] by blast

definition demo_item :: "pystr \<Rightarrow> pystr \<Rightarrow> indexable" where
  "demo_item i d = \<lparr>ix_id = i, ix_kind = Tool, ix_name = i, ix_description = d, ix_eager = True\<rparr>"

definition demo_bm25 :: bm25 where
  "demo_bm25 corpus q = Inr (map (\<lambda>doc. real (length (filter (\<lambda>t. t \<in> set q) doc))) corpus)"

definition demo_retriever :: "(keyword_state, keyword_state) retriever" where
  "demo_retriever = new_retriever [] []"

lemma register_all_or_nothing_witness:
  "snd (rt_register (keyword_backend demo_bm25) (keyword_backend demo_bm25) [demo_item [98] [], demo_item [97] [122]]
     (demo_retriever\<lparr>rt_registered := [([97], demo_item [97] [])]\<rparr>)) =
   demo_retriever\<lparr>rt_registered := [([97], demo_item [97] [])]\<rparr>"
  using register_all_or_nothing [of "[demo_item [98] [], demo_item [97] [122]]"
      "demo_retriever\<lparr>rt_registered := [([97], demo_item [97] [])]\<rparr>"
      "keyword_backend demo_bm25" "keyword_backend demo_bm25"]
  by (simp add: demo_item_def conflicts_def)

text \<open>one working backend is enough to register. A batch without conflicts is refused as
  unavailable exactly when both backends raise an \<^verbatim>\<open>Exception\<close>, and accepted when only one does.\<close>

lemma register_needs_one_backend:
  assumes "\<forall>i \<in> set is. \<forall>old. dict_get (rt_registered r) (ix_id i) = Some old \<longrightarrow> \<not> conflicts old i"
    and "best_effort (fst (bk_add bp is (rt_primary r))) = Inr p_ok"
    and "best_effort (fst (bk_add bf is (rt_fallback r))) = Inr f_ok"
  shows "fst (rt_register bp bf is r) = (if p_ok \<or> f_ok then Inr () else Inl unavailable)"
  using assms
  by (auto simp: rt_register_def Let_def find_duplicate_None [symmetric] split: prod.splits)

definition failing_backend :: "unit backend" where
  "failing_backend = \<lparr>bk_add = (\<lambda>is b. (Inl (raised ConnectionError []), b)),
     bk_remove = (\<lambda>ks b. (Inl (raised ConnectionError []), b)),
     bk_query = (\<lambda>q k n b. (3, (Inl (raised ConnectionError []), b))),
     bk_health_check = (\<lambda>b. (Inr False, b))\<rparr>"

lemma register_needs_one_backend_witness:
  "fst (rt_register failing_backend (keyword_backend demo_bm25) [demo_item [97] []] (new_retriever () [])) = Inr ()"
  using register_needs_one_backend [of "[demo_item [97] []]" "new_retriever () []" failing_backend False
      "keyword_backend demo_bm25" True]
  by (simp add: new_retriever_def failing_backend_def keyword_backend_def kw_add_def exc_simps)

text \<open>the keyword fallback holds every registered item after any sequence of registrations,
  deregistrations and searches, whatever the primary backend does in each of them: the lookup of
  the registry is contained in the lookup of the fallback.\<close>

lemma fallback_complete:
  assumes "r = fold (rt_step bp (keyword_backend bm25)) es (new_retriever p [])"
    and "dict_get (rt_registered r) i = Some item"
  shows "dict_get (rt_fallback r) i = Some item"
proof -
  have "keyword.in_sync (new_retriever p [])"
    by (simp add: keyword.in_sync_def new_retriever_def)
  from keyword.history_in_sync [OF this] assms(1)
  have "dict_get (rt_registered r) \<subseteq>\<^sub>m dict_get (rt_fallback r)"
    by (auto simp: keyword.in_sync_def)
  with assms(2) show ?thesis by (metis domI map_le_def)
qed

lemma fallback_complete_witness:
  "dict_get (rt_fallback (fold (rt_step failing_backend (keyword_backend demo_bm25))
      [Register [demo_item [97] []]] (new_retriever () []))) [97] = Some (demo_item [97] [])"
  by (rule fallback_complete [OF refl])
    (simp add: rt_step_def rt_register_def new_retriever_def failing_backend_def keyword_backend_def
      kw_add_def exc_simps demo_item_def)

lemma search_primary_then_fallback_parts:
  assumes "rt_search bp (keyword_backend bm25) q k n tmo tid parent (t, r) = (res, (t', r'))"
    and "keyword_ok (rt_fallback r)" and "query_primary bp tmo q k n r = (a, r1)"
  shows "a = Inr ms \<Longrightarrow> res = Inr ms"
    and "a = Inl e \<Longrightarrow> is_Exception e \<Longrightarrow> res = Inr ms \<Longrightarrow> answer_ok (dict_get (rt_fallback r)) k n ms"
    and "res = Inl e \<Longrightarrow> \<exists>e'. a = Inl e'"
    and "calls_ok {} t t'"
proof -
  note out = rt_search_outcome [OF assms(1)]
  show "a = Inr ms \<Longrightarrow> res = Inr ms" "res = Inl e \<Longrightarrow> \<exists>e'. a = Inl e'"
    using out assms(3) by (auto simp: search_outcome_def split: sum.splits)
  show "answer_ok (dict_get (rt_fallback r)) k n ms" if "a = Inl e" "is_Exception e" "res = Inr ms"
  proof -
    obtain a' r2 where f: "query_fallback (keyword_backend bm25) tmo q k n r1 = (a', r2)"
      by (metis prod.exhaust)
    with out assms(3) that have "a' = Inr ms" by (auto simp: search_outcome_def split: sum.splits)
    moreover have "rt_fallback r1 = rt_fallback r" using query_primary_fallback [OF assms(3)] by simp
    ultimately show ?thesis using keyword.fallback_answer(4) [OF _ f] assms(2) by metis
  qed
  have "well_traced {} (rt_search bp (keyword_backend bm25) q k n tmo tid parent)"
    unfolding rt_search_def by (intro traced_intros) simp_all
  with assms(1) show "calls_ok {} t t'" by (metis fst_conv well_tracedD)
qed

text \<open>a search answers from the primary when it answers in time; otherwise from the fallback,
  with the items of its index, of the asked kind, each once, ranked from 0 and at most as many as
  asked for; it raises only when both fail. The tracer is told the outcome and changes nothing:
  the calls it receives are properly bracketed.\<close>

lemma search_primary_then_fallback:
  assumes "rt_search bp (keyword_backend bm25) q k n tmo tid parent (t, r) = (res, (t', r'))"
    and "keyword_ok (rt_fallback r)" and "query_primary bp tmo q k n r = (a, r1)"
  shows "(\<forall>ms. a = Inr ms \<longrightarrow> res = Inr ms) \<and>
    (\<forall>e ms. a = Inl e \<and> is_Exception e \<and> res = Inr ms \<longrightarrow> answer_ok (dict_get (rt_fallback r)) k n ms) \<and>
    (\<forall>e. res = Inl e \<longrightarrow> (\<exists>e'. a = Inl e')) \<and>
    calls_ok {} t t'"
  using search_primary_then_fallback_parts [OF assms] by blast

lemma demo_query:
  "kw_query demo_bm25 [90] None 5 [([97], demo_item [97] [122])] =
     Inr [\<lparr>rm_item = demo_item [97] [122], rm_rank = 0\<rparr>]"
  by (simp add: kw_query_def of_kind_def demo_bm25_def ranked_def slice_to_def with_rank_def)

lemma rt_search_runs:
  "\<exists>t' r'. rt_search bp bf q k n tmo tid parent (t, r) = (fst (search_outcome bp bf q k n tmo r), (t', r'))"
  using rt_search_outcome [of bp bf q k n tmo tid parent t r] by (metis fst_conv prod.exhaust)

lemma search_primary_then_fallback_witness:
  "answer_ok (dict_get [([97], demo_item [97] [122])]) None 5
     [\<lparr>rm_item = demo_item [97] [122], rm_rank = 0\<rparr>]"
proof -
  let ?r = "new_retriever () [([97], demo_item [97] [122])]"
  let ?ms = "[\<lparr>rm_item = demo_item [97] [122], rm_rank = 0\<rparr>]"
  have q: "query_primary failing_backend 2 [90] None 5 ?r = (Inl (raised TimeoutError []), ?r)"
    by (simp add: query_primary_def wait_for_def failing_backend_def new_retriever_def)
  have f: "query_fallback (keyword_backend demo_bm25) 2 [90] None 5 ?r = (Inr ?ms, ?r)"
    by (simp add: query_fallback_def wait_for_def keyword_backend_def new_retriever_def demo_query)
  have e: "is_Exception (raised TimeoutError [])" by (simp add: exc_simps)
  have "fst (search_outcome failing_backend (keyword_backend demo_bm25) [90] None 5 2 ?r) = Inr ?ms"
    by (simp add: search_outcome_def q f e)
  then obtain t' r' where m: "rt_search failing_backend (keyword_backend demo_bm25) [90] None 5 2 [] None
      (null_tracer, ?r) = (Inr ?ms, (t', r'))"
    using rt_search_runs by metis
  have ok: "keyword_ok (rt_fallback ?r)"
    by (simp add: keyword_ok_def new_retriever_def demo_item_def)
  from search_primary_then_fallback [OF m ok q] e show ?thesis
    by (simp add: new_retriever_def)
qed

lemma keyword_query_ranks_parts:
  assumes "kw_query bm25 q k n d = Inr ms" and "0 \<le> n"
    and "cs = filter (of_kind k) (dict_values d)"
  shows "length ms = min (nat n) (length cs)"
    and "cs \<noteq> [] \<Longrightarrow> \<exists>scores ps.
      bm25 (map (tokenize \<circ> ix_description) cs) (tokenize q) = Inr scores \<and>
      mset ps = mset (zip cs scores) \<and> sorted_wrt (\<ge>) (map snd ps) \<and>
      map rm_item ms = map fst (take (nat n) ps)"
proof -
  have *: "(\<exists>scores ps.
      bm25 (map (tokenize \<circ> ix_description) cs) (tokenize q) = Inr scores \<and>
      mset ps = mset (zip cs scores) \<and> sorted_wrt (\<ge>) (map snd ps) \<and>
      map rm_item ms = map fst (take (nat n) ps)) \<and> length ms = min (nat n) (length cs)"
    if ne: "cs \<noteq> []"
  proof -
    obtain scores ps where bm: "bm25 (map (tokenize \<circ> ix_description) cs) (tokenize q) = Inr scores"
      and ps: "ranked cs scores = Inr ps" and "map rm_item ms = map fst (slice_to n ps)"
      using kw_query_ranking [OF assms(1)] ne assms(3) by metis
    then have ms: "map rm_item ms = map fst (take (nat n) ps)" using assms(2) by (simp add: slice_to_def)
    have "length ps = length cs"
      using ranked_ok(3) [OF ps] by (metis length_map mset_eq_length)
    moreover from ms have "length (map rm_item ms) = min (nat n) (length ps)" by simp
    ultimately have "length ms = min (nat n) (length cs)" by simp
    with bm ranked_ok(1,2) [OF ps] ms show ?thesis by blast
  qed
  then show "cs \<noteq> [] \<Longrightarrow> \<exists>scores ps.
      bm25 (map (tokenize \<circ> ix_description) cs) (tokenize q) = Inr scores \<and>
      mset ps = mset (zip cs scores) \<and> sorted_wrt (\<ge>) (map snd ps) \<and>
      map rm_item ms = map fst (take (nat n) ps)"
    by blast
  show "length ms = min (nat n) (length cs)"
  proof (cases "cs = []")
    case True
    with assms(1,3) show ?thesis by (simp add: kw_query_def)
  qed (use * in blast)
qed

text \<open>a keyword search that returns ranks the items of the asked kind by their BM25 score: the
  matches are the first ones, as many as asked for and there are, of all candidates sorted by
  falling score; an index with no candidates is never scored.\<close>

lemma keyword_query_ranks:
  assumes "kw_query bm25 q k n d = Inr ms" and "0 \<le> n"
    and "cs = filter (of_kind k) (dict_values d)"
  shows "length ms = min (nat n) (length cs) \<and>
    (cs \<noteq> [] \<longrightarrow> (\<exists>scores ps.
      bm25 (map (tokenize \<circ> ix_description) cs) (tokenize q) = Inr scores \<and>
      mset ps = mset (zip cs scores) \<and> sorted_wrt (\<ge>) (map snd ps) \<and>
      map rm_item ms = map fst (take (nat n) ps)))"
  using keyword_query_ranks_parts [OF assms] by blast

lemma keyword_query_ranks_witness:
  "length [\<lparr>rm_item = demo_item [97] [122], rm_rank = 0\<rparr>] =
     min (nat 1) (length (filter (of_kind None) (dict_values
       [([98], demo_item [98] [121]), ([97], demo_item [97] [122])])))"
  by (rule keyword_query_ranks [of demo_bm25 "[90]" None 1
        "[([98], demo_item [98] [121]), ([97], demo_item [97] [122])]", THEN conjunct1])
    (simp_all add: kw_query_def of_kind_def demo_bm25_def demo_item_def ranked_def slice_to_def
      with_rank_def tokenize_def lower_char_def token_char_def numeral_nat)

text \<open>the eager list is served from the registry alone and is exact: the registered eager items
  of the asked kind. It is right at once, even when both backends fail: no deregistered id is in
  it.\<close>

lemma list_eager_exact:
  assumes "keyword_ok (rt_registered r)" and "rt_deregister bp bf ks r = (x, r')"
  shows "set (list_eager k r') =
    {i. dict_get (rt_registered r) (ix_id i) = Some i \<and> ix_id i \<notin> set ks \<and> ix_eager i \<and> of_kind k i}"
proof -
  have reg: "rt_registered r' = fold dict_pop ks (rt_registered r)"
    using assms(2) by (auto simp: rt_deregister_def Let_def split: prod.splits sum.splits)
  have ok: "keyword_ok (rt_registered r')" unfolding reg by (rule kw_remove_items(1)) (rule assms(1))
  have "dict_get (rt_registered r') = drop_keys ks (dict_get (rt_registered r))"
    unfolding reg by (rule map_of_batch_pop)
  then have "i \<in> set (dict_values (rt_registered r')) \<longleftrightarrow>
      dict_get (rt_registered r) (ix_id i) = Some i \<and> ix_id i \<notin> set ks" for i
    by (simp only: keyword_ok_mem [OF ok]) (simp add: drop_keys_def)
  then show ?thesis by (auto simp only: list_eager_def set_filter mem_Collect_eq)
qed

lemma list_eager_exact_witness:
  "set (list_eager None (snd (rt_deregister failing_backend failing_backend [[97]]
      ((new_retriever () ())\<lparr>rt_registered := [([98], demo_item [98] []), ([97], demo_item [97] [])]\<rparr>)))) =
   {i. dict_get [([98], demo_item [98] []), ([97], demo_item [97] [])] (ix_id i) = Some i \<and>
       ix_id i \<notin> set [[97]] \<and> ix_eager i \<and> of_kind None i}"
  by (subst list_eager_exact [OF _ prod.collapse [symmetric]])
    (simp_all add: keyword_ok_def demo_item_def)

text \<open>the duplicate check does not look inside the batch: two items of one batch with the same
  new id and different content are both accepted and the later one silently wins.\<close>

lemma in_batch_duplicates_accepted:
  assumes "dict_get (rt_registered r) i = None" and "ix_id a = i" and "ix_id b = i" and "conflicts a b"
    and "bk_add bp [a, b] (rt_primary r) = (Inr (), p)" and "bk_add bf [a, b] (rt_fallback r) = (Inr (), f)"
  shows "fst (rt_register bp bf [a, b] r) = Inr () \<and>
    dict_get (rt_registered (snd (rt_register bp bf [a, b] r))) i = Some b"
  using assms by (simp_all add: rt_register_def Let_def map_of_dict_set)

lemma in_batch_duplicates_accepted_witness:
  "dict_get (rt_registered (snd (rt_register (keyword_backend demo_bm25) (keyword_backend demo_bm25)
      [demo_item [97] [], demo_item [97] [122]] demo_retriever))) [97] = Some (demo_item [97] [122])"
  by (rule in_batch_duplicates_accepted [where a = "demo_item [97] []" and b = "demo_item [97] [122]"
        and p = "[([97], demo_item [97] [122])]" and f = "[([97], demo_item [97] [122])]", THEN conjunct2])
    (simp_all add: demo_retriever_def new_retriever_def demo_item_def conflicts_def keyword_backend_def
      kw_add_def)

end
