(* ===== verification/RetrieverOverlap.thy ===== *)
theory RetrieverOverlap
  imports RetrieverModel
begin

text \<open>
  \<^verbatim>\<open>retriever.py\<close> when operations overlap. \<^verbatim>\<open>register()\<close> and \<^verbatim>\<open>deregister()\<close> await the primary backend once, and
  other tasks run until it answers; the fallback answers at once, as the keyword backend does. An operation is cut
  in two there: what it does before the await, and what it does with the primary's answer, which may come at any time
  and in any order. Alone, the two parts are the code's operation.
\<close>

section \<open>The two parts of an operation\<close>

datatype flight = Registering "indexable list" | Deregistering "pystr list"

text \<open>After the primary's answer: \<open>ok\<close> says whether it succeeded.\<close>

definition finish_register ::
    "'f backend \<Rightarrow> indexable list \<Rightarrow> bool \<Rightarrow> ('p, 'f) retriever \<Rightarrow> unit result \<times> ('p, 'f) retriever" where
  "finish_register bf is primary_ok r =
     (case bk_add bf is (rt_fallback r) of (rf, f) \<Rightarrow>
        let r1 = r\<lparr>rt_fallback := f\<rparr> in
        case best_effort rf of
          Inl e \<Rightarrow> (Inl e, r1)
        | Inr fallback_ok \<Rightarrow>
            if \<not> primary_ok \<and> \<not> fallback_ok then (Inl unavailable, r1)
            else (Inr (), r1\<lparr>rt_registered := fold (\<lambda>i. dict_set (ix_id i) i) is (rt_registered r1)\<rparr>))"

definition finish_deregister ::
    "'f backend \<Rightarrow> pystr list \<Rightarrow> ('p, 'f) retriever \<Rightarrow> unit result \<times> ('p, 'f) retriever" where
  "finish_deregister bf ks r =
     (case bk_remove bf ks (rt_fallback r) of (rf, f) \<Rightarrow> (map_sum id (\<lambda>_. ()) (best_effort rf), r\<lparr>rt_fallback := f\<rparr>))"

definition finish_flight ::
    "'f backend \<Rightarrow> flight \<Rightarrow> unit result \<Rightarrow> ('p, 'f) retriever \<Rightarrow> unit result \<times> ('p, 'f) retriever" where
  "finish_flight bf fl answer r =
     (case best_effort answer of
        Inl e \<Rightarrow> (Inl e, r)
      | Inr ok \<Rightarrow> (case fl of Registering is \<Rightarrow> finish_register bf is ok r | Deregistering ks \<Rightarrow> finish_deregister bf ks r))"

section \<open>Overlapping operations\<close>

record ('p, 'f) rt_tasks =
  tk_retriever :: "('p, 'f) retriever"
  tk_flights :: "flight list"

text \<open>\<open>Answer i p answer\<close>: the primary, now in the state \<open>p\<close>, answers the operation number \<open>i\<close> of those that wait.\<close>

datatype 'p rt_move =
    BeginRegister "indexable list"
  | BeginDeregister "pystr list"
  | Answer nat 'p "unit result"

definition drop_flight :: "nat \<Rightarrow> flight list \<Rightarrow> flight list" where
  "drop_flight i fs = take i fs @ drop (Suc i) fs"

fun rt_do :: "'f backend \<Rightarrow> 'p rt_move \<Rightarrow> ('p, 'f) rt_tasks \<Rightarrow> unit result option \<times> ('p, 'f) rt_tasks" where
  "rt_do bf (BeginRegister is) s =
     (case find_duplicate (rt_registered (tk_retriever s)) is of
        Some (old, new) \<Rightarrow> (Some (Inl (duplicate_error old new)), s)
      | None \<Rightarrow> (None, s\<lparr>tk_flights := tk_flights s @ [Registering is]\<rparr>))"
| "rt_do bf (BeginDeregister ks) s =
     (None, s\<lparr>tk_retriever := (tk_retriever s)\<lparr>rt_registered := fold dict_pop ks (rt_registered (tk_retriever s))\<rparr>,
              tk_flights := tk_flights s @ [Deregistering ks]\<rparr>)"
| "rt_do bf (Answer i p answer) s =
     (if i < length (tk_flights s) then
        (case finish_flight bf (tk_flights s ! i) answer ((tk_retriever s)\<lparr>rt_primary := p\<rparr>) of
           (r, rt) \<Rightarrow> (Some r, \<lparr>tk_retriever = rt, tk_flights = drop_flight i (tk_flights s)\<rparr>))
      else (None, s))"

definition rt_moves :: "'f backend \<Rightarrow> 'p rt_move list \<Rightarrow> ('p, 'f) rt_tasks \<Rightarrow> ('p, 'f) rt_tasks" where
  "rt_moves bf ms s = fold (\<lambda>m s. snd (rt_do bf m s)) ms s"

definition idle :: "('p, 'f) retriever \<Rightarrow> ('p, 'f) rt_tasks" where
  "idle r = \<lparr>tk_retriever = r, tk_flights = []\<rparr>"

lemma idle_simps [simp]: "tk_retriever (idle r) = r" "tk_flights (idle r) = []"
  by (simp_all add: idle_def)

lemma rt_moves_simps [simp]: "rt_moves bf [] s = s" "rt_moves bf (m # ms) s = rt_moves bf ms (snd (rt_do bf m s))"
  by (simp_all add: rt_moves_def)

text \<open>An operation that no other one overlaps is the code's.\<close>

lemma register_alone:
  assumes "find_duplicate (rt_registered r) is = None" "bk_add bp is (rt_primary r) = (answer, p)"
  shows "rt_moves bf [BeginRegister is, Answer 0 p answer] (idle r) = idle (snd (rt_register bp bf is r))"
  using assms
  by (auto simp: rt_register_def finish_flight_def finish_register_def drop_flight_def idle_def Let_def
      split: sum.split prod.split)

lemma deregister_alone:
  assumes "bk_remove bp ks (rt_primary r) = (answer, p)"
  shows "rt_moves bf [BeginDeregister ks, Answer 0 p answer] (idle r) = idle (snd (rt_deregister bp bf ks r))"
  using assms
  by (auto simp: rt_deregister_def finish_flight_def finish_deregister_def drop_flight_def idle_def Let_def
      split: sum.split prod.split)

section \<open>What overlapping keeps\<close>

text \<open>The ids a pending deregistration will take out of the fallback; a move is unhurried when it completes no
  registration of such an id.\<close>

fun leaving :: "flight list \<Rightarrow> pystr set" where
  "leaving [] = {}"
| "leaving (Registering is # fs) = leaving fs"
| "leaving (Deregistering ks # fs) = set ks \<union> leaving fs"

fun unhurried :: "'p rt_move \<Rightarrow> ('p, 'f) rt_tasks \<Rightarrow> bool" where
  "unhurried (Answer i p answer) s \<longleftrightarrow>
     (i < length (tk_flights s) \<longrightarrow>
        (case tk_flights s ! i of Registering is \<Rightarrow> ix_id ` set is \<inter> leaving (tk_flights s) = {} | Deregistering ks \<Rightarrow> True))"
| "unhurried m s \<longleftrightarrow> True"

primrec all_unhurried :: "'f backend \<Rightarrow> 'p rt_move list \<Rightarrow> ('p, 'f) rt_tasks \<Rightarrow> bool" where
  "all_unhurried bf [] s \<longleftrightarrow> True"
| "all_unhurried bf (m # ms) s \<longleftrightarrow> unhurried m s \<and> all_unhurried bf ms (snd (rt_do bf m s))"

lemma leaving_append [simp]: "leaving (fs @ gs) = leaving fs \<union> leaving gs"
  by (induction fs rule: leaving.induct) auto

lemma leaving_drop: "leaving (drop_flight i fs) \<subseteq> leaving fs"
proof -
  have "leaving fs = leaving (take i fs) \<union> leaving (drop i fs)" by (metis append_take_drop_id leaving_append)
  moreover have "leaving (drop (Suc i) fs) \<subseteq> leaving (drop i fs)"
    by (metis Suc_eq_plus1 append_take_drop_id drop_drop leaving_append plus_1_eq_Suc sup.cobounded2)
  ultimately show ?thesis by (auto simp: drop_flight_def)
qed

lemma leaving_nth: "i < length fs \<Longrightarrow> fs ! i = Deregistering ks \<Longrightarrow> set ks \<subseteq> leaving fs"
proof (induction fs arbitrary: i)
  case (Cons f fs)
  then show ?case by (cases i; cases f) auto
qed simp

context steady_backend
begin

text \<open>What is registered is in the fallback, and is not about to leave it.\<close>

definition tasks_in_sync :: "('p, 'b) rt_tasks \<Rightarrow> bool" where
  "tasks_in_sync s \<longleftrightarrow> in_sync (tk_retriever s) \<and>
     (\<forall>k \<in> leaving (tk_flights s). dict_get (rt_registered (tk_retriever s)) k = None)"

lemma finish_register_sync:
  assumes "in_sync r" "finish_register bk is ok r = (x, r')"
  shows "in_sync r'" "k \<notin> ix_id ` set is \<Longrightarrow> dict_get (rt_registered r') k = dict_get (rt_registered r) k"
proof -
  from assms have inv: "inv (rt_fallback r)" by (simp add: in_sync_def)
  then obtain f where f: "bk_add bk is (rt_fallback r) = (Inr (), f)" using add_total by blast
  then have "inv f" "items f = index_all is (items (rt_fallback r))" using inv add_inv add_items by blast+
  then show "in_sync r'" "k \<notin> ix_id ` set is \<Longrightarrow> dict_get (rt_registered r') k = dict_get (rt_registered r) k"
    using assms f by (auto simp: finish_register_def in_sync_def Let_def map_of_batch index_all_mono index_all_out)
qed

lemma finish_deregister_sync:
  assumes "in_sync r" "finish_deregister bk ks r = (x, r')" "\<forall>k \<in> set ks. dict_get (rt_registered r) k = None"
  shows "in_sync r'" "rt_registered r' = rt_registered r"
proof -
  from assms have inv: "inv (rt_fallback r)" by (simp add: in_sync_def)
  then obtain f where f: "bk_remove bk ks (rt_fallback r) = (Inr (), f)" using remove_total by blast
  then have "inv f" "items f = drop_keys ks (items (rt_fallback r))" using inv remove_inv remove_items by blast+
  then show "in_sync r'" "rt_registered r' = rt_registered r"
    using assms f by (auto simp: finish_deregister_def in_sync_def drop_keys_def map_le_def dom_def)
qed

lemma move_in_sync:
  assumes "tasks_in_sync s" "unhurried m s"
  shows "tasks_in_sync (snd (rt_do bk m s))"
proof (cases m)
  case (BeginRegister "is")
  with assms show ?thesis by (auto simp: tasks_in_sync_def split: option.split)
next
  case (BeginDeregister ks)
  with assms show ?thesis
    by (auto simp: tasks_in_sync_def in_sync_def map_of_batch_pop drop_keys_def map_le_def dom_def)
next
  case (Answer i p answer)
  let ?r = "(tk_retriever s)\<lparr>rt_primary := p\<rparr>"
  have sync: "in_sync ?r" using assms(1) by (simp add: tasks_in_sync_def in_sync_def)
  show ?thesis
  proof (cases "i < length (tk_flights s)")
    case i: True
    obtain x r' where f: "finish_flight bk (tk_flights s ! i) answer ?r = (x, r')" by (metis prod.exhaust)
    have "in_sync r' \<and> (\<forall>k \<in> leaving (tk_flights s). dict_get (rt_registered r') k = dict_get (rt_registered ?r) k)"
    proof (cases "tk_flights s ! i")
      case (Registering "is")
      with assms(2) Answer i have away: "k \<notin> ix_id ` set is" if "k \<in> leaving (tk_flights s)" for k using that by auto
      show ?thesis
      proof (cases "best_effort answer")
        case (Inr ok)
        with f Registering have "finish_register bk is ok ?r = (x, r')" by (simp add: finish_flight_def)
        from finish_register_sync [OF sync this] away show ?thesis by blast
      qed (use f sync in \<open>simp add: finish_flight_def\<close>)
    next
      case (Deregistering ks)
      have "\<forall>k \<in> set ks. dict_get (rt_registered ?r) k = None"
        using leaving_nth [OF i Deregistering] assms(1) by (auto simp: tasks_in_sync_def)
      with f Deregistering finish_deregister_sync [OF sync] sync show ?thesis
        by (auto simp: finish_flight_def split: sum.splits)
    qed
    with f i Answer assms(1) leaving_drop [of i "tk_flights s"] show ?thesis by (auto simp: tasks_in_sync_def)
  next
    case False
    with Answer assms(1) show ?thesis by simp
  qed
qed

lemma moves_in_sync:
  "tasks_in_sync s \<Longrightarrow> all_unhurried bk ms s \<Longrightarrow> tasks_in_sync (rt_moves bk ms s)"
  by (induction ms arbitrary: s) (auto dest: move_in_sync)

end

section \<open>Properties\<close>

text \<open>C25: overlapping registrations, deregistrations and whatever the primary answers, late, in any order or with an
  exception, leave every registered item in the keyword fallback, as long as no registration of an id completes while a
  deregistration of the same id still waits for the primary.\<close>

theorem overlap_fallback_complete:
  assumes "all_unhurried (keyword_backend bm25) ms (idle (new_retriever p []))"
    and "s = rt_moves (keyword_backend bm25) ms (idle (new_retriever p []))"
    and "dict_get (rt_registered (tk_retriever s)) i = Some item"
  shows "dict_get (rt_fallback (tk_retriever s)) i = Some item"
proof -
  have "keyword.tasks_in_sync (idle (new_retriever p []))"
    by (simp add: keyword.tasks_in_sync_def keyword.in_sync_def new_retriever_def)
  from keyword.moves_in_sync [OF this assms(1)] assms(2)
  have "dict_get (rt_registered (tk_retriever s)) \<subseteq>\<^sub>m dict_get (rt_fallback (tk_retriever s))"
    by (auto simp: keyword.tasks_in_sync_def keyword.in_sync_def)
  with assms(3) show ?thesis by (metis domI map_le_def)
qed

definition slow_moves :: "unit rt_move list" where
  "slow_moves =
     [BeginRegister [demo_item [97] []], BeginDeregister [[98]], BeginRegister [demo_item [99] []],
      Answer 2 () (Inl (raised ConnectionError [])), Answer 1 () (Inr ()), Answer 0 () (Inr ())]"

lemma overlap_fallback_complete_witness:
  "dict_get (rt_fallback (tk_retriever (rt_moves (keyword_backend demo_bm25) slow_moves (idle (new_retriever () []))))) [99] =
   Some (demo_item [99] [])"
  by (rule overlap_fallback_complete [OF _ refl])
    (simp_all add: slow_moves_def new_retriever_def finish_flight_def finish_register_def finish_deregister_def
      keyword_backend_def kw_add_def kw_remove_def drop_flight_def demo_item_def exc_simps Let_def)

text \<open>C26: a deregistration whose primary is slow takes a registered item out of the index. If an id it was called for
  is registered again before the primary answers the deregistration, then \<^verbatim>\<open>register()\<close> returns, the item is
  registered and on the eager list, and when the deregistration goes on it removes the new item from the fallback: no
  search of the fallback finds it any more.\<close>

theorem late_deregister_hides_item:
  assumes "ix_id x \<in> set ks" and "bf = keyword_backend bm25"
    and "s1 = rt_moves bf [BeginDeregister ks, BeginRegister [x]] (idle r)"
    and "rt_do bf (Answer 1 p (Inr ())) s1 = (answer, s2)"
    and "s3 = snd (rt_do bf (Answer 0 p' (Inr ())) s2)"
  shows "answer = Some (Inr ()) \<and>
    dict_get (rt_registered (tk_retriever s3)) (ix_id x) = Some x \<and>
    (ix_eager x \<longrightarrow> x \<in> set (list_eager None (tk_retriever s3))) \<and>
    dict_get (rt_fallback (tk_retriever s3)) (ix_id x) = None"
proof -
  have "drop_keys ks (dict_get (rt_registered r)) (ix_id x) = None" using assms(1) by (simp add: drop_keys_def)
  then have new: "find_duplicate (fold dict_pop ks (rt_registered r)) [x] = None" by (simp add: map_of_batch_pop)
  let ?reg = "dict_set (ix_id x) x (fold dict_pop ks (rt_registered r))"
  have "answer = Some (Inr ()) \<and> rt_registered (tk_retriever s3) = ?reg \<and>
      rt_fallback (tk_retriever s3) = fold dict_pop ks (dict_set (ix_id x) x (rt_fallback r))"
    using assms(2-5) new
    by (auto simp: finish_flight_def finish_register_def finish_deregister_def keyword_backend_def kw_add_def kw_remove_def
        drop_flight_def Let_def split: option.splits)
  moreover have "dict_get (fold dict_pop ks d) (ix_id x) = None" for d :: keyword_state
    using assms(1) by (simp only: map_of_batch_pop drop_keys_def if_True)
  moreover have "dict_get ?reg (ix_id x) = Some x" by (simp add: map_of_dict_set)
  ultimately show ?thesis by (auto simp: list_eager_def of_kind_def dest: dict_getD)
qed

lemma late_deregister_hides_item_witness:
  "dict_get (rt_fallback (tk_retriever (rt_moves (keyword_backend demo_bm25)
      [BeginDeregister [[97]], BeginRegister [demo_item [97] []], Answer 1 () (Inr ()), Answer 0 () (Inr ())]
      (idle (new_retriever () []))))) [97] = None"
proof -
  let ?bf = "keyword_backend demo_bm25" and ?r = "new_retriever () []" and ?x = "demo_item [97] []"
  obtain answer s2 where a: "rt_do ?bf (Answer 1 () (Inr ())) (rt_moves ?bf [BeginDeregister [[97]], BeginRegister [?x]] (idle ?r)) =
      (answer, s2)" by (metis prod.exhaust)
  have id: "ix_id ?x = [97]" by (simp add: demo_item_def)
  have "ix_id ?x \<in> set [[97]]" by (simp add: id)
  from late_deregister_hides_item [OF this refl refl a refl] a show ?thesis by (simp add: id del: rt_do.simps)
qed

text \<open>Two registrations of one new id that overlap are both accepted, whatever their contents: the check for duplicates
  reads what is registered before the await, and the one whose primary answers last wins.\<close>

lemma overlapping_duplicates_accepted:
  assumes "dict_get (rt_registered r) (ix_id a) = None" "ix_id b = ix_id a" "conflicts a b" "bf = keyword_backend bm25"
    and "rt_do bf (BeginRegister [a]) (idle r) = (a0, s1)" "rt_do bf (BeginRegister [b]) s1 = (b0, s2)"
    and "rt_do bf (Answer 0 p (Inr ())) s2 = (a1, s3)" "rt_do bf (Answer 0 p' (Inr ())) s3 = (b1, s4)"
  shows "a1 = Some (Inr ()) \<and> b1 = Some (Inr ()) \<and> dict_get (rt_registered (tk_retriever s4)) (ix_id a) = Some b"
  using assms
  by (auto simp: finish_flight_def finish_register_def keyword_backend_def kw_add_def drop_flight_def Let_def map_of_dict_set)

end
