(* ===== verification/PyJson.thy ===== *)
theory PyJson
  imports PyText
begin

text \<open>
  \<^verbatim>\<open>json.dumps\<close> with its defaults, as the managers, the sandbox protocol and the settings files use
  it: ASCII output, \<^verbatim>\<open>", "\<close> and \<^verbatim>\<open>": "\<close> between the parts. How a float is spelled
  (\<^verbatim>\<open>float.__repr__\<close>) is an argument.
\<close>

definition hex_digit :: "nat \<Rightarrow> nat" where
  "hex_digit d = (if d < 10 then 48 + d else 87 + d)"

definition hex4 :: "nat \<Rightarrow> pystr" where
  "hex4 c = map (\<lambda>k. hex_digit (c div 16 ^ k mod 16)) [3, 2, 1, 0]"

definition escape_u :: "nat \<Rightarrow> pystr" where
  "escape_u c = [92, 117] @ hex4 c"

text \<open>One character of a string literal: the short escapes, then everything outside printable ASCII,
  beyond the basic plane as a surrogate pair.\<close>

definition json_char :: "nat \<Rightarrow> pystr" where
  "json_char c =
     (if c = 34 then [92, 34] else if c = 92 then [92, 92] else if c = 10 then [92, 110]
      else if c = 13 then [92, 114] else if c = 9 then [92, 116] else if c = 12 then [92, 102]
      else if c = 8 then [92, 98]
      else if 32 \<le> c \<and> c \<le> 126 then [c]
      else if c < 65536 then escape_u c
      else escape_u (55296 + (c - 65536) div 1024 mod 1024) @ escape_u (56320 + (c - 65536) mod 1024))"

definition json_str :: "pystr \<Rightarrow> pystr" where
  "json_str s = [34] @ concat (map json_char s) @ [34]"

fun join :: "pystr \<Rightarrow> pystr list \<Rightarrow> pystr" where
  "join sep [] = []"
| "join sep [x] = x"
| "join sep (x # y # xs) = x @ sep @ join sep (y # xs)"

function json_dumps :: "(real \<Rightarrow> pystr) \<Rightarrow> pyval \<Rightarrow> pystr" where
  "json_dumps fr PNone = u ''null''"
| "json_dumps fr (PBool b) = (if b then u ''true'' else u ''false'')"
| "json_dumps fr (PInt i) = str_int i"
| "json_dumps fr (PFloat r) = fr r"
| "json_dumps fr (PStr s) = json_str s"
| "json_dumps fr (PList vs) = u ''['' @ join (u '', '') (map (json_dumps fr) vs) @ u '']''"
| "json_dumps fr (PDict d) =
     u ''{'' @ join (u '', '') (map (\<lambda>(k, v). json_str k @ u '': '' @ json_dumps fr v) d) @ u ''}''"
  by pat_completeness auto
termination
  by (relation "measure (\<lambda>(fr, v). size v)")
    (auto simp: less_Suc_eq_le size_list_estimation' intro: size_pair_mem)

text \<open>A line protocol can carry every value: the text has no line break, whatever the strings hold.\<close>

definition plain :: "pystr \<Rightarrow> bool" where
  "plain s \<longleftrightarrow> (\<forall>c \<in> set s. 32 \<le> c \<and> c \<le> 126)"

lemma plain_simps [simp]: "plain []" "plain (c # s) \<longleftrightarrow> 32 \<le> c \<and> c \<le> 126 \<and> plain s"
  "plain (s @ t) \<longleftrightarrow> plain s \<and> plain t"
  by (auto simp: plain_def)

lemma hex_digit_plain: "d < 16 \<Longrightarrow> 32 \<le> hex_digit d \<and> hex_digit d \<le> 126"
  by (simp add: hex_digit_def)

lemma escape_u_plain: "plain (escape_u c)"
  by (simp add: escape_u_def hex4_def hex_digit_plain)

lemma json_char_plain: "plain (json_char c)"
  by (simp add: json_char_def escape_u_plain)

lemma json_str_plain: "plain (json_str s)"
  using json_char_plain by (auto simp: json_str_def plain_def)

lemma join_plain: "plain sep \<Longrightarrow> \<forall>x \<in> set xs. plain x \<Longrightarrow> plain (join sep xs)"
  by (induction sep xs rule: join.induct) auto

lemma dec_plain: "plain (dec n)"
proof (induction n rule: dec.induct)
  case (1 n)
  then show ?case by (cases "n < 10") (simp_all add: dec.simps [of n])
qed

lemma str_int_plain: "plain (str_int i)"
  by (simp add: str_int_def dec_plain)

lemma json_dumps_plain: "(\<And>r. plain (fr r)) \<Longrightarrow> plain (json_dumps fr v)"
proof (induction fr v rule: json_dumps.induct)
  case (6 fr vs)
  then show ?case by (auto intro!: join_plain)
next
  case (7 fr d)
  then show ?case by (fastforce intro!: join_plain simp: json_str_plain)
qed (auto simp: json_str_plain str_int_plain)

end
