(* ===== verification/Tools.thy ===== *)
theory Tools
  imports PyJson
begin

text \<open>
  \<^verbatim>\<open>src/fabrica/tools\<close>: schemas, results, the protocol a source of tools implements, and the
  namespace over a plain dictionary of functions. A tool function is a parameter: it takes the
  arguments and the state of whatever tools act on, and returns a value or raises. The contract
  \<open>tool_namespace\<close> is what code-mode relies on: a call answers, whatever the tool does.
\<close>

record tool_schema =
  ts_name :: pystr
  ts_description :: pystr
  ts_input_schema :: pydict
  ts_eager :: bool

record tool_result =
  tr_success :: bool
  tr_value :: pyval
  tr_error_message :: "pystr option"

definition failed_call :: "pystr \<Rightarrow> tool_result" where
  "failed_call msg = \<lparr>tr_success = False, tr_value = PNone, tr_error_message = Some msg\<rparr>"

record 't namespace =
  ns_stubs :: "'t \<Rightarrow> pystr"
  ns_open :: "pystr \<Rightarrow> 't \<Rightarrow> tool_schema result"
  ns_call :: "pystr \<Rightarrow> pydict \<Rightarrow> 't \<Rightarrow> tool_result result \<times> 't"
  ns_list_schemas :: "'t \<Rightarrow> tool_schema list"

text \<open>A call raises nothing an \<^verbatim>\<open>except Exception\<close> would catch.\<close>

locale tool_namespace =
  fixes ns :: "'t namespace"
  assumes call_answers: "ns_call ns name params t = (Inl e, t') \<Longrightarrow> \<not> is_Exception e"
begin

lemma call_cases:
  "(\<exists>r t'. ns_call ns name params t = (Inr r, t')) \<or>
   (\<exists>e t'. ns_call ns name params t = (Inl e, t') \<and> \<not> is_Exception e)"
  using call_answers [of name params t]
  by (cases "ns_call ns name params t"; cases "fst (ns_call ns name params t)") auto

end

section \<open>The dictionary of functions\<close>

type_synonym 't tool_fn = "pydict \<Rightarrow> 't \<Rightarrow> pyval result \<times> 't"

type_synonym 't tool_dict = "(pystr, tool_schema \<times> 't tool_fn) dict"

definition stub_lines :: "(pystr \<times> tool_schema) list \<Rightarrow> pystr" where
  "stub_lines d = join [10] (map (\<lambda>(name, s). name @ u '': '' @ ts_description s) d)"

definition dict_stubs :: "'t tool_dict \<Rightarrow> pystr" where
  "dict_stubs tools = stub_lines (map (\<lambda>(name, s, fn). (name, s)) tools)"

definition dict_open :: "'t tool_dict \<Rightarrow> pystr \<Rightarrow> tool_schema result" where
  "dict_open tools path =
     (case dict_get tools path of None \<Rightarrow> Inl (raised KeyError [PStr path]) | Some (s, fn) \<Rightarrow> Inr s)"

definition dict_list_schemas :: "'t tool_dict \<Rightarrow> tool_schema list" where
  "dict_list_schemas tools = map fst (dict_values tools)"

definition dict_call ::
    "(exc \<Rightarrow> pystr) \<Rightarrow> 't tool_dict \<Rightarrow> pystr \<Rightarrow> pydict \<Rightarrow> 't \<Rightarrow> tool_result result \<times> 't" where
  "dict_call str_exc tools name params t =
     (case dict_get tools name of
        None \<Rightarrow> (Inr (failed_call (u ''unknown tool: '' @ name)), t)
      | Some (s, fn) \<Rightarrow>
          (case fn params t of
             (Inr v, t') \<Rightarrow> (Inr \<lparr>tr_success = True, tr_value = v, tr_error_message = None\<rparr>, t')
           | (Inl e, t') \<Rightarrow> (if is_Exception e then Inr (failed_call (str_exc e)) else Inl e, t')))"

definition dict_namespace :: "(exc \<Rightarrow> pystr) \<Rightarrow> 't tool_dict \<Rightarrow> 't namespace" where
  "dict_namespace str_exc tools =
     \<lparr>ns_stubs = \<lambda>t. dict_stubs tools, ns_open = \<lambda>path t. dict_open tools path,
      ns_call = dict_call str_exc tools, ns_list_schemas = \<lambda>t. dict_list_schemas tools\<rparr>"

interpretation dict_tools: tool_namespace "dict_namespace str_exc tools"
  for str_exc :: "exc \<Rightarrow> pystr" and tools :: "'t tool_dict"
  by unfold_locales (auto simp: dict_namespace_def dict_call_def split: option.splits prod.splits sum.splits if_splits)

lemma dict_open_listed:
  "dict_open tools path = Inr s \<Longrightarrow> s \<in> set (dict_list_schemas tools)"
  by (force simp: dict_open_def dict_list_schemas_def split: option.splits prod.splits dest: dict_getD)

end
