(* ===== verification/McpClient.thy ===== *)
theory McpClient
  imports Tools Observability
begin

text \<open>
  \<^verbatim>\<open>src/fabrica/mcp\<close>, the client side: the isolation of a server's process (\<^verbatim>\<open>isolation.py\<close>), the
  connection (\<^verbatim>\<open>client.py\<close>), the namespace over it (\<^verbatim>\<open>namespace.py\<close>) and the one-tool adapter
  (\<^verbatim>\<open>tool.py\<close>). The MCP SDK, the host and the audit sink are the parameter \<open>mcp_env\<close>: operations on
  a world of their own, each of which may raise. The exit stack is part of that world: opening an
  endpoint enters the transport, the session and its initialisation, closing unwinds them.
\<close>

section \<open>Configuration\<close>

record mount =
  mo_path :: pystr
  mo_mode :: pystr

record sandbox_config =
  sx_enabled :: bool
  sx_network :: pystr
  sx_filesystem :: "mount list"
  sx_allow_unsandboxed :: bool

record mcp_config =
  mc_name :: pystr
  mc_transport :: pystr
  mc_command :: "pystr option"
  mc_args :: "pystr list"
  mc_env :: "pydict option"
  mc_url :: "pystr option"
  mc_sandbox :: "sandbox_config option"

datatype endpoint =
    StdioEndpoint pystr "pystr list" "pydict option"
  | HttpEndpoint pystr
  | SseEndpoint pystr

record raw_tool =
  rw_name :: pystr
  rw_description :: "pystr option"
  rw_input_schema :: "pydict option"

record content_item =
  ci_text :: "pystr option"
  ci_value :: pyval

record call_reply =
  cr_is_error :: bool
  cr_content :: "content_item list"

record audit_event =
  ae_event :: pystr
  ae_ts :: pystr
  ae_agent :: pystr
  ae_signer_id :: pystr
  ae_details :: pydict

record ('s, 'w) mcp_env =
  me_which :: "pystr \<Rightarrow> 'w \<Rightarrow> pystr option"
  me_temp_file :: "pystr \<Rightarrow> 'w \<Rightarrow> pystr result \<times> 'w"
  me_open :: "endpoint \<Rightarrow> 'w \<Rightarrow> 's result \<times> 'w"
  me_aclose :: "'w \<Rightarrow> unit result \<times> 'w"
  me_list_tools :: "'s \<Rightarrow> 'w \<Rightarrow> raw_tool list result \<times> 'w"
  me_call_tool :: "'s \<Rightarrow> pystr \<Rightarrow> pydict \<Rightarrow> 'w \<Rightarrow> call_reply result \<times> 'w"
  me_emit :: "(audit_event \<Rightarrow> 'w \<Rightarrow> unit result \<times> 'w) option"
  me_now :: "'w \<Rightarrow> pystr"

section \<open>Isolation\<close>

definition srt_available :: "('s, 'w) mcp_env \<Rightarrow> 'w \<Rightarrow> bool" where
  "srt_available env w \<longleftrightarrow> me_which env (u ''srt'') w \<noteq> None"

definition check_isolation :: "('s, 'w) mcp_env \<Rightarrow> sandbox_config \<Rightarrow> 'w \<Rightarrow> unit result" where
  "check_isolation env sx w =
     (if sx_network sx = u ''allow'' then Inl (raised (Mcp_exc UnsupportedSandboxConfigurationError) [])
      else if \<not> srt_available env w \<and> \<not> sx_allow_unsandboxed sx
      then Inl (raised (Mcp_exc IsolationUnavailableError) [])
      else Inr ())"

definition srt_settings :: "sandbox_config \<Rightarrow> pyval" where
  "srt_settings sx =
     PDict [(u ''network'', PDict [(u ''allowedDomains'', PList []), (u ''deniedDomains'', PList [])]),
            (u ''filesystem'', PDict [(u ''denyRead'', PList []),
               (u ''allowWrite'', PList (map (\<lambda>m. PStr (mo_path m)) (filter (\<lambda>m. mo_mode m = u ''rw'') (sx_filesystem sx)))),
               (u ''denyWrite'', PList [])])]"

text \<open>The settings hold no float. \<^verbatim>\<open>check_or_raise()\<close> and, right after it without an await, \<^verbatim>\<open>wrap()\<close> each look up \<^verbatim>\<open>srt\<close>; both lookups see the
  same state of the host here, so that the tool disappears between them is not modelled.\<close>

definition wrap_command ::
    "('s, 'w) mcp_env \<Rightarrow> sandbox_config \<Rightarrow> pystr \<Rightarrow> pystr list \<Rightarrow> 'w \<Rightarrow> (pystr \<times> pystr list) result \<times> 'w" where
  "wrap_command env sx cmd args w =
     (if \<not> srt_available env w then (Inr (cmd, args), w)
      else (case me_temp_file env (json_dumps (\<lambda>_. []) (srt_settings sx)) w of
              (Inl e, w') \<Rightarrow> (Inl e, w')
            | (Inr path, w') \<Rightarrow> (Inr (u ''srt'', [u ''-s'', path, u ''--'', cmd] @ args), w')))"

section \<open>The client\<close>

record 's mcp_client =
  cl_config :: mcp_config
  cl_session :: "'s option"
  cl_agent_name :: pystr

definition new_mcp_client :: "mcp_config \<Rightarrow> pystr \<Rightarrow> 's mcp_client" where
  "new_mcp_client cfg agent = \<lparr>cl_config = cfg, cl_session = None, cl_agent_name = agent\<rparr>"

definition stdio_params :: "('s, 'w) mcp_env \<Rightarrow> mcp_config \<Rightarrow> 'w \<Rightarrow> endpoint result \<times> 'w" where
  "stdio_params env cfg w =
     (case mc_command cfg of
        None \<Rightarrow> (Inl (raised AssertionError []), w)
      | Some cmd \<Rightarrow>
          (case mc_sandbox cfg of
             None \<Rightarrow> (Inr (StdioEndpoint cmd (mc_args cfg) (mc_env cfg)), w)
           | Some sx \<Rightarrow>
               if \<not> sx_enabled sx then (Inr (StdioEndpoint cmd (mc_args cfg) (mc_env cfg)), w)
               else (case check_isolation env sx w of
                       Inl e \<Rightarrow> (Inl e, w)
                     | Inr _ \<Rightarrow>
                         (case wrap_command env sx cmd (mc_args cfg) w of
                            (Inl e, w') \<Rightarrow> (Inl e, w')
                          | (Inr (c, as), w') \<Rightarrow> (Inr (StdioEndpoint c as (mc_env cfg)), w')))))"

definition mcp_endpoint :: "('s, 'w) mcp_env \<Rightarrow> mcp_config \<Rightarrow> 'w \<Rightarrow> endpoint result \<times> 'w" where
  "mcp_endpoint env cfg w =
     (if mc_transport cfg = u ''stdio'' then stdio_params env cfg w
      else (case mc_url cfg of
              None \<Rightarrow> (Inl (raised AssertionError []), w)
            | Some url \<Rightarrow>
                (Inr (if mc_transport cfg = u ''streamable_http'' then HttpEndpoint url else SseEndpoint url), w)))"

definition connection_error :: "mcp_config \<Rightarrow> exc \<Rightarrow> exc" where
  "connection_error cfg e = raised_from (Mcp_exc MCPConnectionError) [PStr (mc_name cfg)] e"

text \<open>The three \<^verbatim>\<open>except\<close> clauses of \<^verbatim>\<open>connect\<close>. A cancellation is unwound and becomes a connection error
  like the others; only its unwinding may fail without showing.\<close>

definition connect_failed :: "('s, 'w) mcp_env \<Rightarrow> mcp_config \<Rightarrow> exc \<Rightarrow> 'w \<Rightarrow> exc \<times> 'w" where
  "connect_failed env cfg e w =
     (if exc_isa (Mcp_exc MCPConnectionError) e then (e, w)
      else if exc_isa CancelledError e then
        (case me_aclose env w of
           (Inl e', w') \<Rightarrow> (if is_Exception e' then connection_error cfg e' else e', w')
         | (Inr _, w') \<Rightarrow> (connection_error cfg e, w'))
      else if is_Exception e then
        (case me_aclose env w of
           (Inl e', w') \<Rightarrow> (e', w')
         | (Inr _, w') \<Rightarrow> (connection_error cfg e, w'))
      else (e, w))"

definition audited :: "('s, 'w) mcp_env \<Rightarrow> pystr \<Rightarrow> pystr \<Rightarrow> pydict \<Rightarrow> 'w \<Rightarrow> unit result \<times> 'w" where
  "audited env event agent details w =
     (case me_emit env of
        None \<Rightarrow> (Inr (), w)
      | Some emit \<Rightarrow>
          emit \<lparr>ae_event = event, ae_ts = me_now env w, ae_agent = agent, ae_signer_id = [], ae_details = details\<rparr> w)"

definition connect_attempt :: "('s, 'w) mcp_env \<Rightarrow> mcp_config \<Rightarrow> 'w \<Rightarrow> 's result \<times> 'w" where
  "connect_attempt env cfg w =
     (case mcp_endpoint env cfg w of
        (Inl e, w1) \<Rightarrow> (Inl e, w1)
      | (Inr ep, w1) \<Rightarrow> me_open env ep w1)"

definition mcp_connect :: "('s, 'w) mcp_env \<Rightarrow> 's mcp_client \<times> 'w \<Rightarrow> unit result \<times> ('s mcp_client \<times> 'w)" where
  "mcp_connect env = (\<lambda>(c, w).
     if cl_session c \<noteq> None then (Inr (), (c, w))
     else
       (case connect_attempt env (cl_config c) w of
          (Inl e, w2) \<Rightarrow> (case connect_failed env (cl_config c) e w2 of (e', w3) \<Rightarrow> (Inl e', (c, w3)))
        | (Inr s, w2) \<Rightarrow>
            (case audited env (u ''mcp.connect'') (cl_agent_name c)
                    [(u ''server'', PStr (mc_name (cl_config c))), (u ''transport'', PStr (mc_transport (cl_config c)))] w2 of
               (r, w3) \<Rightarrow> (r, (c\<lparr>cl_session := Some s\<rparr>, w3)))))"

definition mcp_disconnect :: "('s, 'w) mcp_env \<Rightarrow> 's mcp_client \<times> 'w \<Rightarrow> unit result \<times> ('s mcp_client \<times> 'w)" where
  "mcp_disconnect env = (\<lambda>(c, w).
     case me_aclose env w of
       (Inl e, w') \<Rightarrow> (Inl e, (c, w'))
     | (Inr _, w') \<Rightarrow> (Inr (), (c\<lparr>cl_session := None\<rparr>, w')))"

definition require_connected :: "bool \<Rightarrow> 's mcp_client \<Rightarrow> 's result" where
  "require_connected as_unavailable c =
     (case cl_session c of
        None \<Rightarrow> Inl (raised (Mcp_exc (if as_unavailable then MCPServerUnavailableError else MCPConnectionError))
                      [PStr (mc_name (cl_config c))])
      | Some s \<Rightarrow> Inr s)"

definition listed_schema :: "raw_tool \<Rightarrow> tool_schema" where
  "listed_schema t =
     \<lparr>ts_name = rw_name t, ts_description = (case rw_description t of None \<Rightarrow> [] | Some d \<Rightarrow> d),
      ts_input_schema = (case rw_input_schema t of None \<Rightarrow> [] | Some d \<Rightarrow> d), ts_eager = False\<rparr>"

definition mcp_list_tools :: "('s, 'w) mcp_env \<Rightarrow> 's mcp_client \<times> 'w \<Rightarrow> tool_schema list result \<times> ('s mcp_client \<times> 'w)" where
  "mcp_list_tools env = (\<lambda>(c, w).
     case require_connected False c of
       Inl e \<Rightarrow> (Inl e, (c, w))
     | Inr s \<Rightarrow>
         (case me_list_tools env s w of
            (Inl e, w') \<Rightarrow> (Inl (if is_Exception e then connection_error (cl_config c) e else e), (c, w'))
          | (Inr ts, w') \<Rightarrow> (Inr (map listed_schema ts), (c, w'))))"

text \<open>What a reply is worth: an error with its texts, the joined texts when every item has one, or the items.\<close>

definition reply_texts :: "call_reply \<Rightarrow> pystr list" where
  "reply_texts r = List.map_filter ci_text (cr_content r)"

definition reply_value :: "(content_item list \<Rightarrow> pystr) \<Rightarrow> pystr \<Rightarrow> call_reply \<Rightarrow> pyval result" where
  "reply_value str_content name r =
     (if cr_is_error r then
        Inl (raised (Mcp_exc MCPToolError)
               [PStr name, PStr (if reply_texts r \<noteq> [] then join (u '' '') (reply_texts r) else str_content (cr_content r))])
      else if reply_texts r \<noteq> [] \<and> length (reply_texts r) = length (cr_content r)
      then Inr (PStr (join [10] (reply_texts r)))
      else Inr (PList (map ci_value (cr_content r))))"

definition mcp_call_tool ::
    "('s, 'w) mcp_env \<Rightarrow> (content_item list \<Rightarrow> pystr) \<Rightarrow> pystr \<Rightarrow> pydict \<Rightarrow> 's mcp_client \<times> 'w
     \<Rightarrow> pyval result \<times> ('s mcp_client \<times> 'w)" where
  "mcp_call_tool env str_content name args = (\<lambda>(c, w).
     case require_connected True c of
       Inl e \<Rightarrow> (Inl e, (c, w))
     | Inr s \<Rightarrow>
         (case me_call_tool env s name args w of
            (Inl e, w') \<Rightarrow>
              (Inl (if is_Exception e
                    then raised_from (Mcp_exc MCPServerUnavailableError) [PStr (mc_name (cl_config c)), PStr name] e
                    else e), (c, w'))
          | (Inr r, w') \<Rightarrow> (reply_value str_content name r, (c, w'))))"

section \<open>The namespace\<close>

definition schema_dict :: "tool_schema list \<Rightarrow> (pystr, tool_schema) dict" where
  "schema_dict ss = fold (\<lambda>s. dict_set (ts_name s) s) ss []"

definition mcp_ns_call ::
    "('s, 'w) mcp_env \<Rightarrow> (exc \<Rightarrow> pystr) \<Rightarrow> (content_item list \<Rightarrow> pystr) \<Rightarrow> pystr \<Rightarrow> pydict \<Rightarrow> 's mcp_client \<times> 'w
     \<Rightarrow> tool_result result \<times> ('s mcp_client \<times> 'w)" where
  "mcp_ns_call env str_exc str_content name params x =
     (case mcp_call_tool env str_content name params x of
        (Inr v, x') \<Rightarrow> (Inr \<lparr>tr_success = True, tr_value = v, tr_error_message = None\<rparr>, x')
      | (Inl e, x') \<Rightarrow>
          (if exc_isa (Mcp_exc MCPToolError) e \<or> exc_isa (Mcp_exc MCPServerUnavailableError) e
           then Inr (failed_call (str_exc e)) else Inl e, x'))"

definition mcp_namespace ::
    "('s, 'w) mcp_env \<Rightarrow> (exc \<Rightarrow> pystr) \<Rightarrow> (content_item list \<Rightarrow> pystr) \<Rightarrow> (pystr, tool_schema) dict
     \<Rightarrow> ('s mcp_client \<times> 'w) namespace" where
  "mcp_namespace env str_exc str_content schemas =
     \<lparr>ns_stubs = \<lambda>x. stub_lines schemas,
      ns_open = \<lambda>path x. (case dict_get schemas path of None \<Rightarrow> Inl (raised KeyError [PStr path]) | Some s \<Rightarrow> Inr s),
      ns_call = mcp_ns_call env str_exc str_content,
      ns_list_schemas = \<lambda>x. dict_values schemas\<rparr>"

definition mcp_ns_create ::
    "('s, 'w) mcp_env \<Rightarrow> 's mcp_client \<times> 'w \<Rightarrow> (pystr, tool_schema) dict result \<times> ('s mcp_client \<times> 'w)" where
  "mcp_ns_create env x =
     (case mcp_connect env x of
        (Inl e, x1) \<Rightarrow> (Inl e, x1)
      | (Inr _, x1) \<Rightarrow>
          (case mcp_list_tools env x1 of
             (Inl e, x2) \<Rightarrow> (Inl e, x2)
           | (Inr ss, x2) \<Rightarrow> (Inr (schema_dict ss), x2)))"

section \<open>One tool\<close>

record mcp_tool =
  mt_schema :: tool_schema
  mt_traced :: bool
  mt_agent_name :: pystr

definition mcp_tool_name :: "'s mcp_client \<Rightarrow> mcp_tool \<Rightarrow> pystr" where
  "mcp_tool_name c tool = u ''mcp://'' @ mc_name (cl_config c) @ u ''/'' @ ts_name (mt_schema tool)"

text \<open>\<^verbatim>\<open>execute\<close>: only an \<^verbatim>\<open>Exception\<close> is recorded as the error; the audit event is emitted on every exit, and
  what emitting raises replaces the outcome.\<close>

definition recorded_error :: "'a result \<Rightarrow> exc option" where
  "recorded_error r = (case r of Inl e \<Rightarrow> (if is_Exception e then Some e else None) | Inr _ \<Rightarrow> None)"

definition mcp_tool_execute ::
    "('s, 'w) mcp_env \<Rightarrow> (content_item list \<Rightarrow> pystr) \<Rightarrow> mcp_tool \<Rightarrow> pydict \<Rightarrow> ('s mcp_client \<times> 'w, pyval) io" where
  "mcp_tool_execute env str_content tool kwargs = (\<lambda>(t, (c, w)).
     let name = ts_name (mt_schema tool); server = mc_name (cl_config c);
         (sp, t1) = start_span (u ''civitas.mcp.call'') [] None
                      [(u ''civitas.mcp.server'', PStr server), (u ''civitas.mcp.tool'', PStr name),
                       (u ''civitas.agent.name'', PStr (mt_agent_name tool))] t;
         (r, (c', w')) = mcp_call_tool env str_content name kwargs (c, w);
         t2 = (case recorded_error r of None \<Rightarrow> t1 | Some e \<Rightarrow> set_error sp e t1);
         t3 = (if mt_traced tool then end_span sp t2 else t)
     in case audited env (u ''mcp.tool.call'') (mt_agent_name tool)
               [(u ''server'', PStr server), (u ''tool'', PStr name), (u ''success'', PBool (recorded_error r = None))] w' of
          (Inl e, w2) \<Rightarrow> (Inl e, (t3, (c', w2)))
        | (Inr _, w2) \<Rightarrow> (r, (t3, (c', w2))))"

section \<open>Lemmas\<close>

lemma mcp_isa [simp]:
  "exc_isa (Mcp_exc MCPToolError) (Exc (Mcp_exc MCPToolError) vs c)"
  "exc_isa (Mcp_exc MCPServerUnavailableError) (Exc (Mcp_exc MCPServerUnavailableError) vs c)"
  "exc_isa (Mcp_exc MCPConnectionError) (Exc (Mcp_exc MCPConnectionError) vs c)"
  by (simp_all add: exc_simps)

lemma reply_value_raises:
  "reply_value str_content name r = Inl e \<Longrightarrow> exc_isa (Mcp_exc MCPToolError) e"
  by (auto simp: reply_value_def split: if_splits)

lemma mcp_call_tool_raises:
  assumes "mcp_call_tool env str_content name args x = (Inl e, x')"
  shows "exc_isa (Mcp_exc MCPToolError) e \<or> exc_isa (Mcp_exc MCPServerUnavailableError) e \<or> \<not> is_Exception e"
proof -
  obtain c w where x: "x = (c, w)" by (cases x)
  show ?thesis
  proof (cases "cl_session c")
    case None
    with assms x show ?thesis by (auto simp: mcp_call_tool_def require_connected_def)
  next
    case (Some s)
    obtain r w' where "me_call_tool env s name args w = (r, w')" by (metis prod.exhaust)
    with assms x Some reply_value_raises show ?thesis
      by (cases r) (auto simp: mcp_call_tool_def require_connected_def split: if_splits)
  qed
qed

interpretation mcp_tools: tool_namespace "mcp_namespace env str_exc str_content schemas"
  for env :: "('s, 'w) mcp_env" and str_exc str_content schemas
proof
  fix name params x e and x' :: "'s mcp_client \<times> 'w"
  assume "ns_call (mcp_namespace env str_exc str_content schemas) name params x = (Inl e, x')"
  then obtain "mcp_call_tool env str_content name params x = (Inl e, x')"
    "\<not> exc_isa (Mcp_exc MCPToolError) e" "\<not> exc_isa (Mcp_exc MCPServerUnavailableError) e"
    by (auto simp: mcp_namespace_def mcp_ns_call_def split: prod.splits sum.splits if_splits)
  then show "\<not> is_Exception e" using mcp_call_tool_raises by blast
qed

lemma connect_failed_raises:
  "connect_failed env cfg e w = (e', w') \<Longrightarrow>
   exc_isa (Mcp_exc MCPConnectionError) e' \<or> \<not> is_Exception e' \<or> fst (me_aclose env w) = Inl e'"
  by (auto simp: connect_failed_def connection_error_def split: if_splits prod.splits sum.splits)

lemma endpoint_isolated:
  assumes "stdio_params env cfg w = (Inr ep, w')" "mc_sandbox cfg = Some sx" "sx_enabled sx"
  shows "sx_network sx \<noteq> u ''allow''"
    and "\<not> sx_allow_unsandboxed sx \<Longrightarrow> \<exists>cmd path. mc_command cfg = Some cmd \<and>
           me_temp_file env (json_dumps (\<lambda>_. []) (srt_settings sx)) w = (Inr path, w') \<and>
           ep = StdioEndpoint (u ''srt'') ([u ''-s'', path, u ''--'', cmd] @ mc_args cfg) (mc_env cfg)"
proof -
  obtain cmd where cmd: "mc_command cfg = Some cmd"
    using assms(1) by (cases "mc_command cfg") (auto simp: stdio_params_def)
  have chk: "check_isolation env sx w = Inr ()"
    using assms cmd by (cases "check_isolation env sx w") (auto simp: stdio_params_def)
  then show "sx_network sx \<noteq> u ''allow''"
    by (auto simp: check_isolation_def simp del: u_simps split: if_splits)
  assume "\<not> sx_allow_unsandboxed sx"
  with chk have av: "srt_available env w" by (auto simp: check_isolation_def simp del: u_simps split: if_splits)
  show "\<exists>cmd path. mc_command cfg = Some cmd \<and>
      me_temp_file env (json_dumps (\<lambda>_. []) (srt_settings sx)) w = (Inr path, w') \<and>
      ep = StdioEndpoint (u ''srt'') ([u ''-s'', path, u ''--'', cmd] @ mc_args cfg) (mc_env cfg)"
    using assms cmd chk av
    by (auto simp: stdio_params_def wrap_command_def simp del: u_simps json_dumps.simps split: prod.splits sum.splits)
qed

lemma schema_dict_step:
  "\<forall>(k, s) \<in> set d. ts_name s = k \<Longrightarrow> dict_ok d \<Longrightarrow>
   (\<forall>(k, s) \<in> set (fold (\<lambda>s. dict_set (ts_name s) s) ss d). ts_name s = k) \<and>
   dict_ok (fold (\<lambda>s. dict_set (ts_name s) s) ss d)"
proof (induction ss arbitrary: d)
  case (Cons s ss)
  have "\<forall>(k, x) \<in> set (dict_set (ts_name s) s d). ts_name x = k"
    using Cons.prems(1) set_dict_set [of "ts_name s" s d] by auto
  with Cons.IH [of "dict_set (ts_name s) s d"] Cons.prems(2) show ?case by simp
qed simp

lemma schema_dict_names: "\<forall>(k, s) \<in> set (schema_dict ss). ts_name s = k" "dict_ok (schema_dict ss)"
  using schema_dict_step [of "[]" ss] by (auto simp: schema_dict_def)

lemma schema_dict_keys: "set (dict_keys (schema_dict ss)) = ts_name ` set ss"
proof -
  have "set (dict_keys (fold (\<lambda>s. dict_set (ts_name s) s) ss d)) = ts_name ` set ss \<union> set (dict_keys d)" for d
  proof (induction ss arbitrary: d)
    case (Cons s ss)
    from Cons.IH [of "dict_set (ts_name s) s d"] keys_dict_set [of "ts_name s" s d] show ?case by simp
  qed simp
  from this [of "[]"] show ?thesis by (simp add: schema_dict_def)
qed

section \<open>Properties\<close>

text \<open>A connection attempt leaves a session exactly when it got one. When it returns the client is
  connected and connecting again does nothing; what it raises is a connection error, or no
  \<^verbatim>\<open>Exception\<close> at all, or what unwinding or the audit sink raised, and only in the last case is the
  client connected although the attempt raised.\<close>

lemma mcp_connect_outcome:
  assumes "mcp_connect env (c, w) = (r, (c', w'))" "cl_session c = None"
  shows "(r = Inr () \<longrightarrow> cl_session c' \<noteq> None \<and> mcp_connect env (c', w') = (Inr (), (c', w'))) \<and>
         (\<forall>e. r = Inl e \<longrightarrow>
            (cl_session c' = None \<and>
              (exc_isa (Mcp_exc MCPConnectionError) e \<or> \<not> is_Exception e \<or> (\<exists>w1. fst (me_aclose env w1) = Inl e))) \<or>
            (cl_session c' \<noteq> None \<and> (\<exists>emit ev w1. me_emit env = Some emit \<and> fst (emit ev w1) = Inl e)))"
proof -
  obtain ra w2 where a: "connect_attempt env (cl_config c) w = (ra, w2)" by (metis prod.exhaust)
  show ?thesis
  proof (cases ra)
    case (Inl e0)
    obtain e1 w3 where f: "connect_failed env (cl_config c) e0 w2 = (e1, w3)" by (metis prod.exhaust)
    with assms a Inl have "r = Inl e1" "c' = c" by (auto simp: mcp_connect_def simp del: u_simps)
    with connect_failed_raises [OF f] assms(2) show ?thesis by auto
  next
    case (Inr s)
    define details where "details = [(u ''server'', PStr (mc_name (cl_config c))), (u ''transport'', PStr (mc_transport (cl_config c)))]"
    obtain rr w3 where au: "audited env (u ''mcp.connect'') (cl_agent_name c) details w2 = (rr, w3)"
      by (metis prod.exhaust)
    with assms a Inr have r: "r = rr" "c' = c\<lparr>cl_session := Some s\<rparr>"
      by (auto simp: mcp_connect_def details_def simp del: u_simps)
    then have again: "mcp_connect env (c', w') = (Inr (), (c', w'))" "cl_session c' \<noteq> None"
      by (simp_all add: mcp_connect_def)
    show ?thesis
    proof (cases rr)
      case (Inl e)
      then obtain emit where "me_emit env = Some emit" using au by (cases "me_emit env") (auto simp: audited_def)
      moreover from this au Inl have "\<exists>ev. fst (emit ev w2) = Inl e" by (simp add: audited_def del: u_simps) (metis fst_conv)
      ultimately show ?thesis using r(1) Inl again by blast
    next
      case (Inr z)
      with r(1) again show ?thesis by simp
    qed
  qed
qed

definition demo_mcp :: "(unit, nat) mcp_env" where
  "demo_mcp =
     \<lparr>me_which = (\<lambda>p n. Some [115]), me_temp_file = (\<lambda>txt n. (Inr [116], Suc n)), me_open = (\<lambda>ep n. (Inr (), Suc n)),
      me_aclose = (\<lambda>n. (Inr (), n)), me_list_tools = (\<lambda>s n. (Inr [], n)),
      me_call_tool = (\<lambda>s name ps n. (Inl (raised CancelledError []), Suc n)),
      me_emit = Some (\<lambda>ev n. (Inr (), if dict_get (ae_details ev) (u ''success'') = Some (PBool True) then 100 else n)),
      me_now = (\<lambda>n. [])\<rparr>"

definition demo_sandbox_config :: sandbox_config where
  "demo_sandbox_config = \<lparr>sx_enabled = True, sx_network = [100], sx_filesystem = [], sx_allow_unsandboxed = False\<rparr>"

definition demo_mcp_config :: mcp_config where
  "demo_mcp_config =
     \<lparr>mc_name = [109], mc_transport = u ''stdio'', mc_command = Some [99], mc_args = [[97]], mc_env = None,
      mc_url = None, mc_sandbox = Some demo_sandbox_config\<rparr>"

definition demo_client :: "unit mcp_client" where
  "demo_client = new_mcp_client demo_mcp_config [97]"

lemma demo_endpoint:
  "mcp_endpoint demo_mcp demo_mcp_config 0 = (Inr (StdioEndpoint (u ''srt'') ([u ''-s'', [116], u ''--'', [99]] @ [[97]]) None), 1)"
  by (simp add: mcp_endpoint_def demo_mcp_config_def stdio_params_def demo_sandbox_config_def check_isolation_def
      srt_available_def demo_mcp_def wrap_command_def srt_settings_def)

lemma mcp_connect_outcome_witness:
  "\<exists>c' w'. mcp_connect demo_mcp (demo_client, 0) = (Inr (), (c', w')) \<and>
           mcp_connect demo_mcp (c', w') = (Inr (), (c', w'))"
proof -
  obtain c' w' where run: "mcp_connect demo_mcp (demo_client, 0) = (Inr (), (c', w'))"
    using demo_endpoint by (auto simp: mcp_connect_def connect_attempt_def demo_client_def new_mcp_client_def audited_def demo_mcp_def simp del: u_simps)
  from mcp_connect_outcome [OF run] run show ?thesis by (simp add: demo_client_def new_mcp_client_def)
qed

text \<open>C30: Isolation is never dropped silently. When a server's sandbox is enabled and running without it was
  not allowed, whatever its process is started with is \<^verbatim>\<open>srt\<close> with a settings file made for this
  configuration around the configured command, and a configuration that asks for the whole network
  is never started.\<close>

theorem isolation_enforced:
  assumes "mcp_endpoint env cfg w = (Inr ep, w')" "mc_transport cfg = u ''stdio''"
    and "mc_sandbox cfg = Some sx" "sx_enabled sx" "\<not> sx_allow_unsandboxed sx"
  shows "sx_network sx \<noteq> u ''allow'' \<and>
         (\<exists>cmd path. mc_command cfg = Some cmd \<and>
            me_temp_file env (json_dumps (\<lambda>_. []) (srt_settings sx)) w = (Inr path, w') \<and>
            ep = StdioEndpoint (u ''srt'') ([u ''-s'', path, u ''--'', cmd] @ mc_args cfg) (mc_env cfg))"
proof -
  have s: "stdio_params env cfg w = (Inr ep, w')" using assms(1,2) by (simp add: mcp_endpoint_def del: u_simps)
  show ?thesis using endpoint_isolated [OF s assms(3,4)] assms(5) by blast
qed

lemma isolation_enforced_witness:
  "sx_network demo_sandbox_config \<noteq> u ''allow''"
  using isolation_enforced [OF demo_endpoint, of demo_sandbox_config]
  by (simp add: demo_mcp_config_def demo_sandbox_config_def)

text \<open>A call of an MCP tool through the namespace always answers, and answers success exactly when the
  client was connected and the server replied without an error; a dead connection and a tool's own
  failure are answers. Only a cancellation goes through.\<close>

lemma mcp_call_answers:
  "(\<exists>a. fst (ns_call (mcp_namespace env str_exc str_content schemas) name params (c, w)) = Inr a \<and>
        (tr_success a \<longleftrightarrow> (\<exists>s reply w'. cl_session c = Some s \<and>
           me_call_tool env s name params w = (Inr reply, w') \<and> \<not> cr_is_error reply))) \<or>
   (\<exists>e. fst (ns_call (mcp_namespace env str_exc str_content schemas) name params (c, w)) = Inl e \<and> \<not> is_Exception e)"
proof (cases "cl_session c")
  case None
  then show ?thesis
    by (simp add: mcp_namespace_def mcp_ns_call_def mcp_call_tool_def require_connected_def failed_call_def)
next
  case (Some s)
  obtain r w' where call: "me_call_tool env s name params w = (r, w')" by (metis prod.exhaust)
  show ?thesis
  proof (cases r)
    case (Inl e)
    with Some call show ?thesis
      by (cases "is_Exception e")
         (auto simp: mcp_namespace_def mcp_ns_call_def mcp_call_tool_def require_connected_def failed_call_def exc_simps)
  next
    case (Inr reply)
    obtain v where v: "reply_value str_content name reply = v" by simp
    have err: "cr_is_error reply \<longleftrightarrow> (\<exists>e. v = Inl e)" using v by (auto simp: reply_value_def split: if_splits)
    with Some call Inr v show ?thesis
      by (cases v) (auto simp: mcp_namespace_def mcp_ns_call_def mcp_call_tool_def require_connected_def failed_call_def
          dest: reply_value_raises)
  qed
qed

text \<open>A namespace made from a server is consistent: it lists each name the server lists once, and opening
  a listed tool gives the schema that was listed under that name.\<close>

lemma mcp_namespace_consistent:
  assumes "mcp_ns_create env (c, w) = (Inr d, x)"
  shows "\<exists>s ts w1 w2. me_list_tools env s w1 = (Inr ts, w2) \<and>
           ts_name ` set (ns_list_schemas (mcp_namespace env str_exc str_content d) y) = rw_name ` set ts \<and>
           distinct (map ts_name (ns_list_schemas (mcp_namespace env str_exc str_content d) y)) \<and>
           (\<forall>t \<in> set (ns_list_schemas (mcp_namespace env str_exc str_content d) y).
              ns_open (mcp_namespace env str_exc str_content d) (ts_name t) y = Inr t)"
proof -
  obtain c1 w1 where c1: "mcp_connect env (c, w) = (Inr (), (c1, w1))"
    using assms by (auto simp: mcp_ns_create_def split: prod.splits sum.splits)
  with assms obtain ss where ss: "mcp_list_tools env (c1, w1) = (Inr ss, x)" "d = schema_dict ss"
    by (auto simp: mcp_ns_create_def split: prod.splits sum.splits)
  then obtain s ts w2 where l: "me_list_tools env s w1 = (Inr ts, w2)" "ss = map listed_schema ts"
    by (auto simp: mcp_list_tools_def require_connected_def split: option.splits prod.splits sum.splits)
  note n = schema_dict_names [of ss]
  have keys: "map ts_name (dict_values d) = dict_keys d" using n(1) ss(2) by auto
  have "ts_name ` set (dict_values d) = rw_name ` set ts"
  proof -
    have "ts_name ` set (dict_values d) = set (map ts_name (dict_values d))" by (simp only: set_map)
    also have "\<dots> = ts_name ` set ss" using keys schema_dict_keys [of ss] ss(2) by metis
    finally show ?thesis using l(2) by (simp add: image_image listed_schema_def)
  qed
  moreover have "distinct (map ts_name (dict_values d))" unfolding keys using n(2) ss(2) by simp
  moreover have "\<forall>t \<in> set (dict_values d). ns_open (mcp_namespace env str_exc str_content d) (ts_name t) y = Inr t"
  proof
    fix t assume "t \<in> set (dict_values d)"
    then have "(ts_name t, t) \<in> set d" using n(1) ss(2) by force
    then have "dict_get d (ts_name t) = Some t" using n(2) ss(2) by simp
    then show "ns_open (mcp_namespace env str_exc str_content d) (ts_name t) y = Inr t"
      by (simp add: mcp_namespace_def)
  qed
  moreover have "ns_list_schemas (mcp_namespace env str_exc str_content d) y = dict_values d"
    by (simp add: mcp_namespace_def)
  ultimately show ?thesis using l(1) by metis
qed

lemma mcp_namespace_consistent_witness:
  "\<exists>d x. mcp_ns_create demo_mcp (demo_client, 0) = (Inr d, x) \<and>
     distinct (map ts_name (ns_list_schemas (mcp_namespace demo_mcp (\<lambda>e. []) (\<lambda>c. []) d) x))"
proof -
  obtain d x where run: "mcp_ns_create demo_mcp (demo_client, 0) = (Inr d, x)"
    using demo_endpoint
    by (auto simp: mcp_ns_create_def mcp_list_tools_def require_connected_def mcp_connect_def connect_attempt_def demo_client_def
        new_mcp_client_def audited_def demo_mcp_def simp del: u_simps)
  from mcp_namespace_consistent [OF run, of "\<lambda>e. []" "\<lambda>c. []" x] run show ?thesis by blast
qed

text \<open>A cancelled call is audited as a success: only an \<^verbatim>\<open>Exception\<close> is recorded as the error, so the
  event emitted while the cancellation passes says \<^verbatim>\<open>success\<close> true, and the span records no error.\<close>

lemma cancelled_call_audited_success:
  assumes "cl_session c = Some s" "me_call_tool env s (ts_name (mt_schema tool)) kwargs w = (Inl e, w1)"
    and "\<not> is_Exception e" "me_emit env = Some emit"
  shows "\<exists>ev. dict_get (ae_details ev) (u ''success'') = Some (PBool True) \<and>
           snd (snd (snd (mcp_tool_execute env str_content tool kwargs (t, (c, w))))) = snd (emit ev w1)"
proof -
  define details where "details = [(u ''server'', PStr (mc_name (cl_config c))), (u ''tool'', PStr (ts_name (mt_schema tool))),
     (u ''success'', PBool True)]"
  have call: "mcp_call_tool env str_content (ts_name (mt_schema tool)) kwargs (c, w) = (Inl e, (c, w1))"
    using assms(1-3) by (simp add: mcp_call_tool_def require_connected_def)
  have aud: "audited env (u ''mcp.tool.call'') (mt_agent_name tool) details w1 =
      emit \<lparr>ae_event = u ''mcp.tool.call'', ae_ts = me_now env w1, ae_agent = mt_agent_name tool, ae_signer_id = [],
            ae_details = details\<rparr> w1"
    using assms(4) by (simp add: audited_def)
  have "snd (snd (snd (mcp_tool_execute env str_content tool kwargs (t, (c, w))))) =
      snd (audited env (u ''mcp.tool.call'') (mt_agent_name tool) details w1)"
    using call assms(3)
    by (simp add: mcp_tool_execute_def recorded_error_def Let_def details_def split_def del: u_simps split: prod.split sum.split)
  with aud show ?thesis
    by (intro exI [of _ "\<lparr>ae_event = u ''mcp.tool.call'', ae_ts = me_now env w1, ae_agent = mt_agent_name tool, ae_signer_id = [], ae_details = details\<rparr>"])
       (simp add: details_def)
qed

lemma cancelled_call_audited_success_witness:
  "\<exists>ev. dict_get (ae_details ev) (u ''success'') = Some (PBool True) \<and>
     snd (snd (snd (mcp_tool_execute demo_mcp (\<lambda>c. []) \<lparr>mt_schema = listed_schema \<lparr>rw_name = [116], rw_description = None,
       rw_input_schema = None\<rparr>, mt_traced = True, mt_agent_name = [97]\<rparr> [] (null_tracer, (demo_client\<lparr>cl_session := Some ()\<rparr>, 0)))))
     = snd (the (me_emit demo_mcp) ev 1)"
  by (rule cancelled_call_audited_success [where e = "raised CancelledError []"]) (simp_all add: demo_mcp_def)

end
