(* ===== verification/SandboxPool.thy ===== *)
theory SandboxPool
  imports Observability
begin

text \<open>
  \<^verbatim>\<open>src/fabrica/sandbox/types.py\<close>, \<^verbatim>\<open>backend.py\<close> and \<^verbatim>\<open>pool.py\<close>: the pool of sandboxes.

  The operations (\<open>pl_acquire\<close> and the others) are the code's, over a backend whose calls may
  raise and take time. What other tasks do while \<^verbatim>\<open>acquire\<close> waits is its argument \<open>waits\<close>: the wait for the
  condition's lock, if another task holds it, and each notification that reaches it, with the time that passed and
  what the pool had become by then; when there is none left the timeout ends the wait. A scheduled refill is a task of its own,
  run by \<open>run_refill\<close> at any later time.
\<close>

section \<open>Handles, results and backends\<close>

record handle =
  h_id :: pystr
  h_tier :: nat

record run_result =
  rr_success :: bool
  rr_stdout :: pystr
  rr_stdout_truncated :: bool
  rr_error_message :: "pystr option"
  rr_cpu_seconds :: real
  rr_duration_ms :: real
  rr_tool_call_count :: int

definition max_stdout_bytes :: int where "max_stdout_bytes = 65536"

text \<open>The answer of a tool call crosses the boundary as a dictionary; the callback runs on a state of
  its own, which the backend threads through the calls the code makes.\<close>

type_synonym 't tool_callback = "pystr \<Rightarrow> pydict \<Rightarrow> 't \<Rightarrow> pydict result \<times> 't"

record ('b, 't) sandbox =
  sb_tier :: nat
  sb_boot_clean :: "'b \<Rightarrow> real \<times> (handle result \<times> 'b)"
  sb_execute :: "handle \<Rightarrow> pystr \<Rightarrow> 't tool_callback \<Rightarrow> real \<Rightarrow> real option \<Rightarrow> 'b \<times> 't
                 \<Rightarrow> run_result result \<times> ('b \<times> 't)"
  sb_terminate :: "handle \<Rightarrow> 'b \<Rightarrow> unit result \<times> 'b"
  sb_health_check :: "'b \<Rightarrow> bool result \<times> 'b"
  sb_close :: "'b \<Rightarrow> unit result \<times> 'b"

section \<open>The pool's own bookkeeping\<close>

record pool =
  pl_warm_size :: int
  pl_max_concurrent :: int
  pl_acquire_timeout :: real
  pl_warm :: "handle list"
  pl_concurrent_count :: int

definition new_pool :: "int \<Rightarrow> int \<Rightarrow> real \<Rightarrow> pool" where
  "new_pool warm_size max_concurrent tmo =
     \<lparr>pl_warm_size = warm_size, pl_max_concurrent = max_concurrent, pl_acquire_timeout = tmo,
      pl_warm = [], pl_concurrent_count = 0\<rparr>"

definition default_acquire_timeout :: real where "default_acquire_timeout = 5"

definition warm_count :: "pool \<Rightarrow> nat" where "warm_count p = length (pl_warm p)"

text \<open>One pass of the loop of \<^verbatim>\<open>acquire\<close> up to its next await.\<close>

datatype attempt = WarmHit handle | ColdStart | MustWait

definition try_acquire :: "pool \<Rightarrow> attempt \<times> pool" where
  "try_acquire p =
     (if pl_warm p \<noteq> [] then
        (WarmHit (last (pl_warm p)),
         p\<lparr>pl_warm := butlast (pl_warm p), pl_concurrent_count := pl_concurrent_count p + 1\<rparr>)
      else if pl_concurrent_count p < pl_max_concurrent p then
        (ColdStart, p\<lparr>pl_concurrent_count := pl_concurrent_count p + 1\<rparr>)
      else (MustWait, p))"

text \<open>The locked section of \<^verbatim>\<open>release\<close>: whether a refill is to be scheduled.\<close>

definition finish_release :: "pool \<Rightarrow> bool \<times> pool" where
  "finish_release p =
     (int (length (pl_warm p)) < pl_warm_size p, p\<lparr>pl_concurrent_count := pl_concurrent_count p - 1\<rparr>)"

text \<open>The locked section of \<^verbatim>\<open>_refill_one\<close>: whether the fresh instance is surplus.\<close>

definition put_fresh :: "handle \<Rightarrow> pool \<Rightarrow> bool \<times> pool" where
  "put_fresh h p =
     (if int (length (pl_warm p)) < pl_warm_size p then (False, p\<lparr>pl_warm := pl_warm p @ [h]\<rparr>)
      else (True, p))"

section \<open>The operations\<close>

record 'b pool_world =
  pw_pool :: pool
  pw_backend :: 'b
  pw_refills :: nat

definition on_backend :: "('b \<Rightarrow> 'a \<times> 'b) \<Rightarrow> 'b pool_world \<Rightarrow> 'a \<times> 'b pool_world" where
  "on_backend f w = (case f (pw_backend w) of (r, b) \<Rightarrow> (r, w\<lparr>pw_backend := b\<rparr>))"

text \<open>\<^verbatim>\<open>prewarm\<close>: the argument is how many instances are missing when it starts.\<close>

primrec boot_missing :: "('b, 't) sandbox \<Rightarrow> nat \<Rightarrow> 'b pool_world \<Rightarrow> unit result \<times> 'b pool_world" where
  "boot_missing sb 0 w = (Inr (), w)"
| "boot_missing sb (Suc n) w =
     (case on_backend (\<lambda>b. snd (sb_boot_clean sb b)) w of
        (Inl e, w') \<Rightarrow> (Inl e, w')
      | (Inr h, w') \<Rightarrow> boot_missing sb n (w'\<lparr>pw_pool := (pw_pool w')\<lparr>pl_warm := pl_warm (pw_pool w') @ [h]\<rparr>\<rparr>))"

definition pl_prewarm :: "('b, 't) sandbox \<Rightarrow> 'b pool_world \<Rightarrow> unit result \<times> 'b pool_world" where
  "pl_prewarm sb w =
     boot_missing sb (nat (pl_warm_size (pw_pool w) - int (length (pl_warm (pw_pool w))))) w"

definition round_half_even :: "real \<Rightarrow> int" where
  "round_half_even x =
     (let f = \<lfloor>x\<rfloor>; d = x - of_int f
      in if d < 1 / 2 then f else if d > 1 / 2 then f + 1 else if even f then f else f + 1)"

text \<open>\<^verbatim>\<open>round(seconds * 1000, 2)\<close>\<close>

definition round_ms :: "real \<Rightarrow> real" where
  "round_ms t = of_int (round_half_even (t * 1000 * 100)) / 100"

definition exhausted_error :: "pool \<Rightarrow> exc" where
  "exhausted_error p =
     raised (Sandbox_exc SandboxPoolExhaustedError)
       [PFloat (pl_acquire_timeout p), PInt (int (length (pl_warm p))), PInt (pl_concurrent_count p),
        PInt (pl_max_concurrent p)]"

text \<open>
  The loop, with the time spent so far: which handle, whether it was warm and after how long. A
  cold start that takes longer than what is left of the timeout is cancelled, with the lock and
  without its slot being given back; a timeout of the boot itself is taken for the pool's own.
\<close>

definition cold_start ::
    "('b, 't) sandbox \<Rightarrow> real \<Rightarrow> 'b pool_world \<Rightarrow> (handle \<times> bool \<times> real) result \<times> 'b pool_world" where
  "cold_start sb spent w =
     (case on_backend (\<lambda>b. case sb_boot_clean sb b of (d, (r, b')) \<Rightarrow> ((d, r), b')) w of
        ((d, r), w') \<Rightarrow>
          if 0 < d \<and> d > pl_acquire_timeout (pw_pool w') - spent then (Inl (exhausted_error (pw_pool w')), w')
          else (case r of
                  Inl e \<Rightarrow> (Inl (if exc_isa TimeoutError e then exhausted_error (pw_pool w') else e), w')
                | Inr h \<Rightarrow> (Inr (h, False, spent + d), w')))"

fun acquire_loop ::
    "('b, 't) sandbox \<Rightarrow> (real \<times> ('b pool_world \<Rightarrow> 'b pool_world)) list \<Rightarrow> real \<Rightarrow> 'b pool_world
     \<Rightarrow> (handle \<times> bool \<times> real) result \<times> 'b pool_world" where
  "acquire_loop sb wakes spent w =
     (case try_acquire (pw_pool w) of
        (WarmHit h, p) \<Rightarrow> (Inr (h, True, spent), w\<lparr>pw_pool := p\<rparr>)
      | (ColdStart, p) \<Rightarrow> cold_start sb spent (w\<lparr>pw_pool := p\<rparr>)
      | (MustWait, p) \<Rightarrow>
          (case wakes of
             [] \<Rightarrow> (Inl (exhausted_error p), w)
           | (d, others) # rest \<Rightarrow>
               if spent + d > pl_acquire_timeout p then (Inl (exhausted_error (pw_pool (others w))), others w)
               else acquire_loop sb rest (spent + d) (others w)))"

declare acquire_loop.simps [simp del]

text \<open>The condition is locked first. Another task may hold its lock, across a cold start or the end of a surplus
  instance: then this one waits for it, inside the timeout.\<close>

type_synonym 'b waits =
  "(real \<times> ('b pool_world \<Rightarrow> 'b pool_world)) option \<times> (real \<times> ('b pool_world \<Rightarrow> 'b pool_world)) list"

definition acquire_handle ::
    "('b, 't) sandbox \<Rightarrow> 'b waits \<Rightarrow> 'b pool_world \<Rightarrow> (handle \<times> bool \<times> real) result \<times> 'b pool_world" where
  "acquire_handle sb waits w =
     (case fst waits of
        None \<Rightarrow> acquire_loop sb (snd waits) 0 w
      | Some (d, others) \<Rightarrow>
          if d > pl_acquire_timeout (pw_pool w) then (Inl (exhausted_error (pw_pool (others w))), others w)
          else acquire_loop sb (snd waits) d (others w))"

abbreviation no_waits :: "'b waits" where "no_waits \<equiv> (None, [])"

lemma acquire_at_once [simp]: "acquire_handle sb (None, wakes) w = acquire_loop sb wakes 0 w"
  by (simp add: acquire_handle_def)

definition pl_acquire ::
    "('b, 't) sandbox \<Rightarrow> 'b waits \<Rightarrow> pystr \<Rightarrow> pystr option
     \<Rightarrow> ('b pool_world, handle) io" where
  "pl_acquire sb waits tid parent =
     traced (u ''fabrica.sandbox.acquire'') tid parent [(u ''tier'', PInt (int (sb_tier sb)))]
       (\<lambda>sp.
          io_bind (io_lift (acquire_handle sb waits)) (\<lambda>(h, warm, spent).
          io_bind (io_attr sp (u ''warm_hit'') (PBool warm)) (\<lambda>_.
          io_bind (io_attr sp (u ''wait_ms'') (PFloat (round_ms spent))) (\<lambda>_. io_return h))))"

definition pl_run ::
    "('b, 't) sandbox \<Rightarrow> handle \<Rightarrow> pystr \<Rightarrow> 't tool_callback \<Rightarrow> real \<Rightarrow> real option \<Rightarrow> pystr \<Rightarrow> pystr option
     \<Rightarrow> ('b pool_world \<times> 't, run_result) io" where
  "pl_run sb h code cb tmo call_tmo tid parent =
     traced (u ''fabrica.sandbox.run'') tid parent [(u ''tier'', PInt (int (sb_tier sb)))]
       (\<lambda>sp.
          io_bind
            (io_lift (\<lambda>(w, t). case sb_execute sb h code cb tmo call_tmo (pw_backend w, t) of
                                (r, (b, t')) \<Rightarrow> (r, (w\<lparr>pw_backend := b\<rparr>, t')))) (\<lambda>res.
          io_bind (io_attr sp (u ''duration_ms'') (PFloat (rr_duration_ms res))) (\<lambda>_.
          io_bind (io_attr sp (u ''cpu_seconds'') (PFloat (rr_cpu_seconds res))) (\<lambda>_.
          io_bind (io_attr sp (u ''exit_status'') (PStr (if rr_success res then u ''ok'' else u ''error''))) (\<lambda>_.
          io_return res)))))"

definition pl_release :: "('b, 't) sandbox \<Rightarrow> handle \<Rightarrow> 'b pool_world \<Rightarrow> unit result \<times> 'b pool_world" where
  "pl_release sb h w =
     (case on_backend (sb_terminate sb h) w of
        (Inl e, w') \<Rightarrow> (Inl e, w')
      | (Inr _, w') \<Rightarrow>
          (case finish_release (pw_pool w') of
             (needs_refill, p) \<Rightarrow>
               (Inr (), w'\<lparr>pw_pool := p,
                           pw_refills := pw_refills w' + (if needs_refill then 1 else 0)\<rparr>)))"

text \<open>One scheduled refill, whatever it raises.\<close>

definition run_refill :: "('b, 't) sandbox \<Rightarrow> 'b pool_world \<Rightarrow> 'b pool_world" where
  "run_refill sb w =
     (case on_backend (\<lambda>b. snd (sb_boot_clean sb b)) (w\<lparr>pw_refills := pw_refills w - 1\<rparr>) of
        (Inl e, w') \<Rightarrow> w'
      | (Inr h, w') \<Rightarrow>
          (case put_fresh h (pw_pool w') of
             (False, p) \<Rightarrow> w'\<lparr>pw_pool := p\<rparr>
           | (True, p) \<Rightarrow> snd (on_backend (sb_terminate sb h) w')))"

fun terminate_all :: "('b, 't) sandbox \<Rightarrow> handle list \<Rightarrow> 'b \<Rightarrow> unit result \<times> 'b" where
  "terminate_all sb [] b = (Inr (), b)"
| "terminate_all sb (h # hs) b =
     (case sb_terminate sb h b of
        (Inl e, b') \<Rightarrow> (Inl e, b')
      | (Inr _, b') \<Rightarrow> terminate_all sb hs b')"

definition pl_close :: "('b, 't) sandbox \<Rightarrow> 'b pool_world \<Rightarrow> unit result \<times> 'b pool_world" where
  "pl_close sb w =
     (let w1 = (run_refill sb ^^ pw_refills w) w;
          handles = pl_warm (pw_pool w1);
          w2 = w1\<lparr>pw_pool := (pw_pool w1)\<lparr>pl_warm := []\<rparr>\<rparr>
      in case on_backend (terminate_all sb handles) w2 of
           (Inl e, w3) \<Rightarrow> (Inl e, w3)
         | (Inr _, w3) \<Rightarrow> on_backend (sb_close sb) w3)"

end
