(* ===== verification/GuestProtocol.thy ===== *)
theory GuestProtocol
  imports SandboxPool PyJson
begin

text \<open>
  What the sandbox backends share: bytes as text (\<^verbatim>\<open>bytes.decode(errors="replace")\<close>,
  \<^verbatim>\<open>str.splitlines\<close>), the program a guest runs, and the guest shims' way of running it. A program is
  a tree: it works for some time and then calls a tool and goes on with the answer, finishes, aborts
  (an exit that is not an \<^verbatim>\<open>Exception\<close>) or never ends. JSON is written by \<open>json_dumps\<close>; reading it is
  the parameter \<open>loads\<close>.
\<close>

section \<open>Bytes as text\<close>

text \<open>How many continuation bytes a lead byte announces, the range of the first, and its own bits.\<close>

definition utf8_lead :: "nat \<Rightarrow> (nat \<times> nat \<times> nat \<times> nat) option" where
  "utf8_lead b =
     (if 0xC2 \<le> b \<and> b \<le> 0xDF then Some (1, 0x80, 0xBF, b - 0xC0)
      else if b = 0xE0 then Some (2, 0xA0, 0xBF, 0)
      else if b = 0xED then Some (2, 0x80, 0x9F, 0xD)
      else if 0xE1 \<le> b \<and> b \<le> 0xEF then Some (2, 0x80, 0xBF, b - 0xE0)
      else if b = 0xF0 then Some (3, 0x90, 0xBF, 0)
      else if b = 0xF4 then Some (3, 0x80, 0x8F, 4)
      else if 0xF1 \<le> b \<and> b \<le> 0xF3 then Some (3, 0x80, 0xBF, b - 0xF0)
      else None)"

fun utf8_conts :: "nat \<Rightarrow> nat \<Rightarrow> nat \<Rightarrow> nat \<Rightarrow> nat list \<Rightarrow> nat option \<times> nat list" where
  "utf8_conts 0 lo hi acc bs = (Some acc, bs)"
| "utf8_conts (Suc n) lo hi acc [] = (None, [])"
| "utf8_conts (Suc n) lo hi acc (b # bs) =
     (if lo \<le> b \<and> b \<le> hi then utf8_conts n 0x80 0xBF (acc * 64 + (b - 0x80)) bs else (None, b # bs))"

lemma utf8_conts_length: "length (snd (utf8_conts n lo hi acc bs)) \<le> length bs"
  by (induction n lo hi acc bs rule: utf8_conts.induct) auto

text \<open>A sequence that breaks off is replaced as far as it went.\<close>

function utf8_decode :: "nat list \<Rightarrow> pystr" where
  "utf8_decode [] = []"
| "utf8_decode (b # bs) =
     (if b < 0x80 then b # utf8_decode bs
      else (case utf8_lead b of
              None \<Rightarrow> 0xFFFD # utf8_decode bs
            | Some (n, lo, hi, bits) \<Rightarrow>
                (case fst (utf8_conts n lo hi bits bs) of
                   None \<Rightarrow> 0xFFFD
                 | Some c \<Rightarrow> c) # utf8_decode (snd (utf8_conts n lo hi bits bs))))"
  by pat_completeness auto
termination
  by (relation "measure length") (auto simp: less_Suc_eq_le utf8_conts_length)

declare utf8_decode.simps(2) [simp del]

definition is_char :: "nat \<Rightarrow> bool" where
  "is_char c \<longleftrightarrow> c \<le> 0x10FFFF \<and> \<not> is_surrogate c"

lemma utf8_decode_ascii: "b < 0x80 \<Longrightarrow> utf8_decode (b # bs) = b # utf8_decode bs"
  by (simp add: utf8_decode.simps)

lemma utf8_decode_lead:
  "utf8_lead b = Some (n, lo, hi, bits) \<Longrightarrow> utf8_conts n lo hi bits bs = (Some c, rest) \<Longrightarrow> 0x80 \<le> b \<Longrightarrow>
   utf8_decode (b # bs) = c # utf8_decode rest"
  by (simp add: utf8_decode.simps)

lemma div64: "c div 4096 = c div 64 div (64 :: nat)" "c div 262144 = c div 64 div 64 div (64 :: nat)"
  using div_mult2_eq [of c 64 64] div_mult2_eq [of c 4096 64] by simp_all

lemma join64: "c div 64 * 64 + c mod 64 = (c :: nat)"
  by (rule div_mult_mod_eq)

lemma decode_two:
  assumes "0x80 \<le> c" "c < 0x800"
  shows "utf8_decode ((0xC0 + c div 64) # (0x80 + c mod 64) # bs) = c # utf8_decode bs"
proof (rule utf8_decode_lead)
  have "2 \<le> c div 64" "c div 64 < 32" using assms by auto
  then show "utf8_lead (0xC0 + c div 64) = Some (Suc 0, 0x80, 0xBF, c div 64)" by (auto simp: utf8_lead_def)
  have "c mod 64 < 64" by simp
  then show "utf8_conts (Suc 0) 0x80 0xBF (c div 64) ((0x80 + c mod 64) # bs) = (Some c, bs)"
    using join64 [of c] by simp
qed simp

lemma decode_three:
  assumes "32 \<le> d" "d < 1024" "d div 64 = 13 \<longrightarrow> d mod 64 \<le> 31" "m < 64"
  shows "utf8_decode ((0xE0 + d div 64) # (0x80 + d mod 64) # (0x80 + m) # bs) = (d * 64 + m) # utf8_decode bs"
proof -
  have q: "d div 64 < 16" "d mod 64 < 64" using assms(2) by auto
  have z: "d div 64 = 0 \<Longrightarrow> 32 \<le> d mod 64" using assms(1) join64 [of d] by simp
  have "\<exists>lo hi. utf8_lead (0xE0 + d div 64) = Some (Suc (Suc 0), lo, hi, d div 64) \<and>
      lo \<le> 0x80 + d mod 64 \<and> 0x80 + d mod 64 \<le> hi"
    using q z assms(3) by (cases "d div 64 = 0"; cases "d div 64 = 13") (auto simp: utf8_lead_def)
  then obtain lo hi where l: "utf8_lead (0xE0 + d div 64) = Some (Suc (Suc 0), lo, hi, d div 64)"
    "lo \<le> 0x80 + d mod 64" "0x80 + d mod 64 \<le> hi" by blast
  have "utf8_conts (Suc (Suc 0)) lo hi (d div 64) ((0x80 + d mod 64) # (0x80 + m) # bs) = (Some (d * 64 + m), bs)"
    using l(2,3) assms(4) join64 [of d] by simp
  from utf8_decode_lead [OF l(1) this] show ?thesis by simp
qed

lemma decode_four:
  assumes "16 \<le> d" "d < 272" "n < 64" "m < 64"
  shows "utf8_decode ((0xF0 + d div 64) # (0x80 + d mod 64) # (0x80 + n) # (0x80 + m) # bs)
    = ((d * 64 + n) * 64 + m) # utf8_decode bs"
proof -
  have q: "d div 64 < 5" "d mod 64 < 64" using assms(2) by auto
  have z: "d div 64 = 0 \<Longrightarrow> 16 \<le> d mod 64" "d div 64 = 4 \<Longrightarrow> d mod 64 \<le> 15"
    using assms(1,2) join64 [of d] by simp_all
  have "\<exists>lo hi. utf8_lead (0xF0 + d div 64) = Some (Suc (Suc (Suc 0)), lo, hi, d div 64) \<and>
      lo \<le> 0x80 + d mod 64 \<and> 0x80 + d mod 64 \<le> hi"
    using q z by (cases "d div 64 = 0"; cases "d div 64 = 4") (auto simp: utf8_lead_def)
  then obtain lo hi where l: "utf8_lead (0xF0 + d div 64) = Some (Suc (Suc (Suc 0)), lo, hi, d div 64)"
    "lo \<le> 0x80 + d mod 64" "0x80 + d mod 64 \<le> hi" by blast
  have "utf8_conts (Suc (Suc (Suc 0))) lo hi (d div 64) ((0x80 + d mod 64) # (0x80 + n) # (0x80 + m) # bs)
      = (Some ((d * 64 + n) * 64 + m), bs)"
    using l(2,3) assms(3,4) join64 [of d] by simp
  from utf8_decode_lead [OF l(1) this] show ?thesis by simp
qed

lemma utf8_decode_char:
  assumes "is_char c"
  shows "utf8_decode (utf8_char c @ bs) = c # utf8_decode bs"
proof -
  consider "c < 0x80" | "0x80 \<le> c" "c < 0x800" | "0x800 \<le> c" "c < 0x10000" | "0x10000 \<le> c" by linarith
  then show ?thesis
  proof cases
    case 1
    then show ?thesis by (simp add: utf8_char_def utf8_decode_ascii)
  next
    case 2
    with decode_two [OF 2, of bs] show ?thesis by (simp add: utf8_char_def)
  next
    case 3
    have d: "32 \<le> c div 64" "c div 64 < 1024" using 3 by auto
    have "c div 64 mod 64 \<le> 31" if q: "c div 64 div 64 = 13"
    proof -
      have "c div 64 < 896" using join64 [of "c div 64"] q mod_less_divisor [of 64 "c div 64"] by linarith
      then have "c \<le> 0xDFFF" by auto
      then have "c < 0xD800" using assms by (auto simp: is_char_def is_surrogate_def)
      then have "c div 64 < 864" by auto
      with join64 [of "c div 64"] q show ?thesis by linarith
    qed
    with decode_three [OF d, of "c mod 64" bs] 3 join64 [of c] show ?thesis by (simp add: utf8_char_def div64)
  next
    case 4
    have "1024 \<le> c div 64" "c div 64 < 17408" using 4 assms by (auto simp: is_char_def)
    then have d: "16 \<le> c div 64 div 64" "c div 64 div 64 < 272" by auto
    from decode_four [OF d, of "c div 64 mod 64" "c mod 64" bs] 4 join64 [of c] join64 [of "c div 64"]
    show ?thesis by (simp add: utf8_char_def div64)
  qed
qed

lemma utf8_decode_encode:
  assumes "utf8_encode s = Inr bs" "\<forall>c \<in> set s. c \<le> 0x10FFFF"
  shows "utf8_decode bs = s"
proof -
  have "\<forall>c \<in> set s. is_char c" and bs: "bs = concat (map utf8_char s)"
    using assms by (auto simp: utf8_encode_def is_char_def split: if_splits)
  from this(1) have "utf8_decode (concat (map utf8_char s)) = s"
    by (induction s) (auto simp: utf8_decode_char)
  with bs show ?thesis by simp
qed

text \<open>An ASCII byte ends whatever sequence is open.\<close>

definition ascii_start :: "nat list \<Rightarrow> bool" where
  "ascii_start bs \<longleftrightarrow> bs = [] \<or> hd bs < 0x80"

lemma utf8_conts_append:
  assumes "ascii_start cs" "0x80 \<le> lo"
  shows "utf8_conts n lo hi acc (bs @ cs) =
    (fst (utf8_conts n lo hi acc bs), snd (utf8_conts n lo hi acc bs) @ cs)"
  using assms(2)
proof (induction n lo hi acc bs rule: utf8_conts.induct)
  case (2 n lo hi acc)
  then show ?case using assms(1) by (cases cs) (auto simp: ascii_start_def)
qed auto

lemma utf8_lead_lo: "utf8_lead b = Some (n, lo, hi, bits) \<Longrightarrow> 0x80 \<le> lo"
  by (auto simp: utf8_lead_def split: if_splits)

lemma utf8_decode_append: "ascii_start cs \<Longrightarrow> utf8_decode (bs @ cs) = utf8_decode bs @ utf8_decode cs"
proof (induction bs rule: utf8_decode.induct)
  case (2 b bs)
  show ?case
  proof (cases "b < 0x80")
    case True
    with 2 show ?thesis by (simp add: utf8_decode_ascii)
  next
    case False
    show ?thesis
    proof (cases "utf8_lead b")
      case None
      with 2 False show ?thesis by (simp add: utf8_decode.simps(2))
    next
      case (Some q)
      obtain n lo hi bits where q: "q = (n, lo, hi, bits)" by (cases q)
      have l: "utf8_lead b = Some (n, lo, hi, bits)" using Some q by simp
      from 2(3) [OF False l refl refl refl 2(4)]
      have "utf8_decode (snd (utf8_conts n lo hi bits bs) @ cs) = utf8_decode (snd (utf8_conts n lo hi bits bs)) @ utf8_decode cs" .
      with False l utf8_conts_append [OF 2(4) utf8_lead_lo [OF l], of n hi bits bs] show ?thesis
        by (simp add: utf8_decode.simps(2))
    qed
  qed
qed simp

lemma utf8_decode_plain: "plain s \<Longrightarrow> utf8_decode s = s"
  by (induction s) (auto simp: utf8_decode_ascii)

section \<open>Lines\<close>

definition line_break :: "nat \<Rightarrow> bool" where
  "line_break c \<longleftrightarrow> c \<in> {10, 11, 12, 13, 28, 29, 30, 0x85, 0x2028, 0x2029}"

text \<open>\<^verbatim>\<open>str.splitlines\<close>, with the reversed beginning of the current line.\<close>

function split_lines :: "pystr \<Rightarrow> pystr \<Rightarrow> pystr list" where
  "split_lines acc [] = (if acc = [] then [] else [rev acc])"
| "split_lines acc (c # cs) =
     (if c = 13 \<and> cs \<noteq> [] \<and> hd cs = 10 then rev acc # split_lines [] (tl cs)
      else if line_break c then rev acc # split_lines [] cs
      else split_lines (c # acc) cs)"
  by pat_completeness auto
termination by (relation "measure (\<lambda>(acc, cs). length cs)") (auto simp: neq_Nil_conv)

fun unfinished :: "pystr \<Rightarrow> pystr \<Rightarrow> pystr" where
  "unfinished acc [] = acc"
| "unfinished acc (c # cs) = (if line_break c then unfinished [] cs else unfinished (c # acc) cs)"

lemma split_lines_append:
  assumes "rest \<noteq> []" "hd rest \<noteq> 10"
  shows "\<exists>ls. split_lines acc (pre @ rest) = ls @ split_lines (unfinished acc pre) rest"
proof (induction acc pre rule: split_lines.induct)
  case (2 acc c cs)
  show ?case
  proof (cases "c = 13 \<and> cs \<noteq> [] \<and> hd cs = 10")
    case True
    then obtain cs' where cs: "cs = 10 # cs'" by (cases cs) auto
    from 2(1) [OF True] obtain ls where "split_lines [] (cs' @ rest) = ls @ split_lines (unfinished [] cs') rest"
      using cs by auto
    with True cs show ?thesis by (auto simp: line_break_def)
  next
    case False
    then have nb: "\<not> (c = 13 \<and> cs @ rest \<noteq> [] \<and> hd (cs @ rest) = 10)" using assms(2) by (cases cs) auto
    show ?thesis
    proof (cases "line_break c")
      case True
      from 2(2) [OF False True] obtain ls where "split_lines [] (cs @ rest) = ls @ split_lines (unfinished [] cs) rest" by auto
      with nb True show ?thesis by (intro exI [of _ "rev acc # ls"]) auto
    next
      case nl: False
      from 2(3) [OF False nl] obtain ls
        where "split_lines (c # acc) (cs @ rest) = ls @ split_lines (unfinished (c # acc) cs) rest" by auto
      moreover have "c \<noteq> 13" using nl by (auto simp: line_break_def)
      ultimately show ?thesis using nl by auto
    qed
  qed
qed auto

lemma plain_no_break: "plain s \<Longrightarrow> \<forall>c \<in> set s. \<not> line_break c"
  by (force simp: plain_def line_break_def)

lemma split_lines_plain: "plain s \<Longrightarrow> split_lines acc (s @ [10]) = [rev acc @ s]"
proof (induction s arbitrary: acc)
  case Nil
  then show ?case by (simp add: line_break_def)
next
  case (Cons c s)
  have "\<not> line_break c" "c \<noteq> 13" using Cons.prems plain_no_break [of "c # s"] by (auto simp: line_break_def)
  with Cons show ?case by simp
qed

definition blank :: "pystr \<Rightarrow> bool" where
  "blank s \<longleftrightarrow> list_all is_space s"

text \<open>Whatever a program left on its error stream, the last line is what was unfinished, and the trailer.\<close>

lemma last_line:
  assumes "plain j" "j \<noteq> []" "\<not> blank j"
  shows "last (filter (\<lambda>l. \<not> blank l) (split_lines [] (utf8_decode (err @ j @ [10])))) =
           rev (unfinished [] (utf8_decode err)) @ j"
    and "filter (\<lambda>l. \<not> blank l) (split_lines [] (utf8_decode (err @ j @ [10]))) \<noteq> []"
proof -
  have j: "ascii_start (j @ [10])" "hd (j @ [10]) \<noteq> 10" using assms(1,2) by (cases j; simp add: ascii_start_def)+
  have "utf8_decode (j @ [10]) = j @ [10]"
    using utf8_decode_append [of "[10]" j] assms(1) by (simp add: utf8_decode_plain ascii_start_def utf8_decode_ascii)
  then have d: "utf8_decode (err @ j @ [10]) = utf8_decode err @ j @ [10]" using utf8_decode_append [OF j(1), of err] by simp
  obtain ls where ls: "split_lines [] (utf8_decode err @ j @ [10]) = ls @ [rev (unfinished [] (utf8_decode err)) @ j]"
    using split_lines_append [of "j @ [10]" "[]" "utf8_decode err"] j(2) split_lines_plain [OF assms(1)] assms(2) by auto
  have nb: "\<not> blank (rev (unfinished [] (utf8_decode err)) @ j)" using assms(3) by (simp add: blank_def)
  with d ls show "last (filter (\<lambda>l. \<not> blank l) (split_lines [] (utf8_decode (err @ j @ [10])))) =
           rev (unfinished [] (utf8_decode err)) @ j"
    and "filter (\<lambda>l. \<not> blank l) (split_lines [] (utf8_decode (err @ j @ [10]))) \<noteq> []" by simp_all
qed

section \<open>Programs\<close>

text \<open>\<open>Finish\<close> and \<open>Abort\<close> carry what the program printed and left on the error stream; the time before each
  step is the program's own.\<close>

datatype prog =
    Finish real pystr "nat list" "pystr option"
  | Abort real "nat list"
  | CallTool real pystr pydict "pyval \<Rightarrow> prog"
  | Forever

text \<open>What the program does when every call is answered: its output and error, how many calls it made, and
  the state the tools end in. A call that raises ends it.\<close>

datatype ending = Ended pystr "pystr option" nat | Aborted | ToolRaised exc | Endless

primrec run_prog :: "prog \<Rightarrow> 't tool_callback \<Rightarrow> nat \<Rightarrow> 't \<Rightarrow> ending \<times> 't" where
  "run_prog (Finish d out err msg) cb n t = (Ended out msg n, t)"
| "run_prog (Abort d err) cb n t = (Aborted, t)"
| "run_prog (CallTool d tool params k) cb n t =
     (case cb tool params t of
        (Inl e, t') \<Rightarrow> (ToolRaised e, t')
      | (Inr reply, t') \<Rightarrow> run_prog (k (PDict reply)) cb (Suc n) t')"
| "run_prog Forever cb n t = (Endless, t)"

end
