(* ===== verification/Tunnel.thy ===== *)
theory Tunnel
  imports GuestProtocol
begin

text \<open>
  The tunnel providers (\<^verbatim>\<open>tunnel/cloudflare_provider.py\<close>, \<^verbatim>\<open>tailscale_provider.py\<close>) and the choice between them
  (\<^verbatim>\<open>dispatch.py\<close>). What the command-line tools do is the argument of each operation: whether they can be started at
  all, a list of events for the output of \<^verbatim>\<open>cloudflared\<close>, the status codes \<^verbatim>\<open>curl\<close> reports until the time is over, the
  end of \<^verbatim>\<open>tailscale funnel\<close>.
\<close>

section \<open>Finding the URL\<close>

text \<open>A pattern \<^verbatim>\<open>https://\S+\<close> with what has to follow: the leftmost start, then the longest run of characters
  that are no space for which \<open>tail_of\<close> finds an end.\<close>

fun search_url :: "(pystr \<Rightarrow> pystr option) \<Rightarrow> pystr \<Rightarrow> pystr option" where
  "search_url tail_of [] = None"
| "search_url tail_of (c # cs) =
     (if take 8 (c # cs) = u ''https://''
      then (case tail_of (takeWhile (\<lambda>x. \<not> is_space x) (drop 8 (c # cs))) of
              Some r \<Rightarrow> Some (u ''https://'' @ r)
            | None \<Rightarrow> search_url tail_of cs)
      else search_url tail_of cs)"

text \<open>The longest part of the run, not empty, that is followed by the suffix.\<close>

fun longest_before :: "pystr \<Rightarrow> nat \<Rightarrow> pystr \<Rightarrow> pystr option" where
  "longest_before suf 0 run = None"
| "longest_before suf (Suc n) run =
     (if take (length suf) (drop (Suc n) run) = suf then Some (take (Suc n) run @ suf) else longest_before suf n run)"

definition cloudflare_domain :: pystr where "cloudflare_domain = u ''.trycloudflare.com''"

definition cloudflare_url :: "pystr \<Rightarrow> pystr option" where
  "cloudflare_url line = search_url (\<lambda>run. longest_before cloudflare_domain (length run) run) line"

definition tailscale_url :: "pystr \<Rightarrow> pystr option" where
  "tailscale_url output = search_url (\<lambda>run. if run = [] then None else Some run) output"

lemma longest_before_run:
  assumes "longest_before suf n run = Some r"
  shows "(\<exists>p. r = p @ suf) \<and> (\<exists>q. run = r @ q)"
  using assms
proof (induction n)
  case (Suc n)
  show ?case
  proof (cases "take (length suf) (drop (Suc n) run) = suf")
    case True
    then have "drop (Suc n) run = suf @ drop (length suf) (drop (Suc n) run)" by (metis append_take_drop_id)
    then have "run = (take (Suc n) run @ suf) @ drop (length suf) (drop (Suc n) run)"
      by (metis append.assoc append_take_drop_id)
    with True Suc.prems show ?thesis by auto
  qed (use Suc in simp)
qed simp

lemma search_url_sound:
  assumes "search_url tail_of s = Some url"
  shows "\<exists>pre run r. s = pre @ u ''https://'' @ run \<and> url = u ''https://'' @ r \<and>
    tail_of (takeWhile (\<lambda>x. \<not> is_space x) run) = Some r"
  using assms
proof (induction s)
  case (Cons c cs)
  show ?case
  proof (cases "take 8 (c # cs) = u ''https://'' \<and> tail_of (takeWhile (\<lambda>x. \<not> is_space x) (drop 8 (c # cs))) \<noteq> None")
    case True
    then obtain r where "tail_of (takeWhile (\<lambda>x. \<not> is_space x) (drop 8 (c # cs))) = Some r" by blast
    moreover have "c # cs = [] @ u ''https://'' @ drop 8 (c # cs)" using True by (metis append_Nil append_take_drop_id)
    ultimately show ?thesis using True Cons.prems by (metis option.inject option.simps(5) search_url.simps(2))
  next
    case False
    then have "search_url tail_of cs = Some url" using Cons.prems by (auto split: if_splits)
    from Cons.IH [OF this] obtain pre run r where
      "cs = pre @ u ''https://'' @ run" "url = u ''https://'' @ r" "tail_of (takeWhile (\<lambda>x. \<not> is_space x) run) = Some r" by blast
    then have "c # cs = (c # pre) @ u ''https://'' @ run" "url = u ''https://'' @ r"
      "tail_of (takeWhile (\<lambda>x. \<not> is_space x) run) = Some r" by (simp_all del: u_simps)
    then show ?thesis by blast
  qed
qed simp

section \<open>Cloudflare\<close>

text \<open>One attempt: whether \<^verbatim>\<open>cloudflared\<close> can be started. What the wait for the URL then sees of the process: a line,
  a line that cannot be read, the end of its output, its exit, or nothing more in time. What each \<^verbatim>\<open>curl\<close> comes to in
  time: it cannot be started, or the code it printed. And whether the process is still there at the end.\<close>

datatype cf_event = Printed "nat list" | Unreadable exc | Closed | ExitedWith int

record cf_attempt =
  ca_spawn :: "exc option"
  ca_events :: "cf_event list"
  ca_curls :: "(exc + pystr) list"
  ca_alive :: bool

text \<open>The provider's own reference, and the processes that run, numbered by their start.\<close>

record cf_world =
  cw_process :: "nat option"
  cw_running :: "nat set"
  cw_next :: nat

definition tunnel_start_error :: exc where
  "tunnel_start_error = raised (Tunnel_exc TunnelStartError) []"

datatype url_wait = Found pystr | Broken | Unread exc | Slow

fun await_url :: "cf_event list \<Rightarrow> url_wait" where
  "await_url [] = Slow"
| "await_url (Printed bytes # es) =
     (case cloudflare_url (utf8_decode bytes) of Some url \<Rightarrow> Found url | None \<Rightarrow> await_url es)"
| "await_url (Unreadable e # es) = Unread e"
| "await_url (Closed # es) = Broken"
| "await_url (ExitedWith n # es) = Broken"

definition strip_text :: "pystr \<Rightarrow> pystr" where
  "strip_text s = rev (dropWhile is_space (rev (dropWhile is_space s)))"

text \<open>\<^verbatim>\<open>code.isdigit() and 200 <= int(code) < 400\<close>, for the ASCII text \<^verbatim>\<open>curl\<close> prints.\<close>

definition good_code :: "pystr \<Rightarrow> bool" where
  "good_code s =
     (let code = strip_text s; n = foldl (\<lambda>k c. k * 10 + (c - 48)) 0 code in
      code \<noteq> [] \<and> list_all (\<lambda>c. 48 \<le> c \<and> c \<le> 57) code \<and> 200 \<le> n \<and> n < 400)"

text \<open>\<^verbatim>\<open>_wait_until_reachable\<close>, until the time of its caller is over; a \<^verbatim>\<open>curl\<close> that is missing raises.\<close>

fun await_reachable :: "(exc + pystr) list \<Rightarrow> unit result option" where
  "await_reachable [] = None"
| "await_reachable (Inl e # cs) = Some (Inl e)"
| "await_reachable (Inr code # cs) = (if good_code code then Some (Inr ()) else await_reachable cs)"

text \<open>\<^verbatim>\<open>_kill_process\<close>: the kill itself is not inside the \<^verbatim>\<open>suppress\<close>.\<close>

definition cf_kill :: "bool \<Rightarrow> nat \<Rightarrow> cf_world \<Rightarrow> unit result \<times> cf_world" where
  "cf_kill alive p w =
     (if alive
      then (Inr (), w\<lparr>cw_running := cw_running w - {p},
                      cw_process := (if cw_process w = Some p then None else cw_process w)\<rparr>)
      else (Inl (raised ProcessLookupError []), w\<lparr>cw_running := cw_running w - {p}\<rparr>))"

text \<open>Only a timeout makes an attempt kill its process: not the end of its output, its exit before a URL, nor an
  exception of its reader or of starting \<^verbatim>\<open>curl\<close>.\<close>

definition attempt_tunnel :: "cf_attempt \<Rightarrow> cf_world \<Rightarrow> pystr result \<times> cf_world" where
  "attempt_tunnel a w =
     (case ca_spawn a of
        Some e \<Rightarrow> (Inl e, w)
      | None \<Rightarrow>
          let p = cw_next w;
              w1 = \<lparr>cw_process = Some p, cw_running = insert p (cw_running w), cw_next = Suc p\<rparr>;
              left = (if ca_alive a then w1 else w1\<lparr>cw_running := cw_running w1 - {p}\<rparr>);
              fail = (case cf_kill (ca_alive a) p w1 of
                        (Inl e, v) \<Rightarrow> (Inl e, v)
                      | (Inr _, v) \<Rightarrow> (Inl tunnel_start_error, v))
          in case await_url (ca_events a) of
               Slow \<Rightarrow> fail
             | Broken \<Rightarrow> (Inl tunnel_start_error, left)
             | Unread e \<Rightarrow> if exc_isa TimeoutError e then fail else (Inl e, left)
             | Found url \<Rightarrow>
                 (case await_reachable (ca_curls a) of
                    None \<Rightarrow> fail
                  | Some (Inr _) \<Rightarrow> (Inr url, left)
                  | Some (Inl e) \<Rightarrow> if exc_isa TimeoutError e then fail else (Inl e, left)))"

definition max_tunnel_attempts :: nat where "max_tunnel_attempts = 3"

text \<open>The loop of \<^verbatim>\<open>start()\<close>; \<open>tries\<close> is how many attempts are left.\<close>

fun cf_start_loop :: "nat \<Rightarrow> exc option \<Rightarrow> (nat \<Rightarrow> cf_attempt) \<Rightarrow> cf_world \<Rightarrow> pystr result \<times> cf_world" where
  "cf_start_loop 0 last_error att w =
     (case last_error of None \<Rightarrow> (Inl (raised AssertionError []), w) | Some e \<Rightarrow> (Inl e, w))"
| "cf_start_loop (Suc n) last_error att w =
     (case attempt_tunnel (att (cw_next w)) w of
        (Inr url, w1) \<Rightarrow> (Inr url, w1)
      | (Inl e, w1) \<Rightarrow>
          if exc_isa (Tunnel_exc TunnelStartError) e then cf_start_loop n (Some tunnel_start_error) att w1
          else (Inl e, w1))"

definition cf_start :: "(nat \<Rightarrow> cf_attempt) \<Rightarrow> cf_world \<Rightarrow> pystr result \<times> cf_world" where
  "cf_start att w = cf_start_loop max_tunnel_attempts None att w"

definition cf_stop :: "cf_world \<Rightarrow> cf_world" where
  "cf_stop w =
     (case cw_process w of
        None \<Rightarrow> w
      | Some p \<Rightarrow> w\<lparr>cw_process := None, cw_running := cw_running w - {p}\<rparr>)"

definition new_cf_world :: cf_world where
  "new_cf_world = \<lparr>cw_process = None, cw_running = {}, cw_next = 0\<rparr>"

section \<open>Tailscale\<close>

text \<open>How \<^verbatim>\<open>tailscale funnel\<close> ends: it cannot be started, it is not done in time (and still there to be killed or
  not), or with a status and an output. The funnel itself lives in the daemon: \<open>tw_funnel\<close> is whether one is
  configured. The end of \<^verbatim>\<open>tailscale funnel reset\<close> is not looked at.\<close>

datatype funnel_end = FunnelNotRun exc | FunnelSlow bool | FunnelEnded int "nat list"

record ts_world =
  tw_started :: bool
  tw_funnel :: bool

definition ts_start :: "funnel_end \<Rightarrow> bool \<Rightarrow> ts_world \<Rightarrow> pystr result \<times> ts_world" where
  "ts_start ends configured w =
     (let w1 = w\<lparr>tw_funnel := tw_funnel w \<or> configured\<rparr> in
      case ends of
        FunnelNotRun e \<Rightarrow> (Inl e, w)
      | FunnelSlow alive \<Rightarrow> (Inl (if alive then tunnel_start_error else raised ProcessLookupError []), w1)
      | FunnelEnded status output \<Rightarrow>
          if status \<noteq> 0 then (Inl tunnel_start_error, w1)
          else (case tailscale_url (utf8_decode output) of
                  None \<Rightarrow> (Inl tunnel_start_error, w1)
                | Some url \<Rightarrow> (Inr url, w1\<lparr>tw_started := True\<rparr>)))"

definition ts_stop :: "exc option \<Rightarrow> bool \<Rightarrow> ts_world \<Rightarrow> unit result \<times> ts_world" where
  "ts_stop spawn worked w =
     (if \<not> tw_started w then (Inr (), w)
      else (case spawn of
              Some e \<Rightarrow> (Inl e, w)
            | None \<Rightarrow> (Inr (), w\<lparr>tw_started := False, tw_funnel := tw_funnel w \<and> \<not> worked\<rparr>)))"

section \<open>The choice\<close>

datatype tunnel_provider = Tailscale | Cloudflare

definition ts_available :: "(pystr \<Rightarrow> bool) \<Rightarrow> int result \<Rightarrow> bool result" where
  "ts_available on_path status = (if on_path (u ''tailscale'') then map_sum id (\<lambda>n. n = 0) status else Inr False)"

definition cf_available :: "(pystr \<Rightarrow> bool) \<Rightarrow> bool" where
  "cf_available on_path \<longleftrightarrow> on_path (u ''cloudflared'')"

definition select_tunnel_provider :: "(pystr \<Rightarrow> bool) \<Rightarrow> int result \<Rightarrow> tunnel_provider result" where
  "select_tunnel_provider on_path status =
     (case ts_available on_path status of
        Inl e \<Rightarrow> Inl e
      | Inr available \<Rightarrow>
          if available then Inr Tailscale
          else if cf_available on_path then Inr Cloudflare
          else Inl (raised (Tunnel_exc TunnelNotAvailableError) []))"

section \<open>What a start comes to\<close>

lemma await_url_found:
  assumes "await_url es = Found url"
  shows "\<exists>bytes. Printed bytes \<in> set es \<and> cloudflare_url (utf8_decode bytes) = Some url"
  using assms by (induction es rule: await_url.induct) (auto split: option.splits)

lemma cloudflare_url_shape:
  assumes "cloudflare_url line = Some url"
  shows "\<exists>host. url = u ''https://'' @ host @ cloudflare_domain \<and> (\<forall>c \<in> set host. \<not> is_space c)"
proof -
  from search_url_sound [OF assms [unfolded cloudflare_url_def]] obtain run r where
    url: "url = u ''https://'' @ r" and r: "\<exists>n. longest_before cloudflare_domain n (takeWhile (\<lambda>x. \<not> is_space x) run) = Some r"
    by blast
  from r obtain host q where "r = host @ cloudflare_domain" "takeWhile (\<lambda>x. \<not> is_space x) run = (host @ cloudflare_domain) @ q"
    using longest_before_run by metis
  moreover have "\<forall>c \<in> set (takeWhile (\<lambda>x. \<not> is_space x) run). \<not> is_space c" by (auto dest: set_takeWhileD)
  ultimately show ?thesis using url by auto
qed

text \<open>What is left behind by an attempt that closed its output and lived on, if another follows.\<close>

definition left_running :: "cf_attempt \<Rightarrow> bool" where
  "left_running a \<longleftrightarrow> ca_spawn a = None \<and> await_url (ca_events a) = Broken \<and> ca_alive a"

text \<open>The exceptions of starting a program and of reading its output are none of the provider's own.\<close>

definition foreign_errors :: "cf_attempt \<Rightarrow> bool" where
  "foreign_errors a \<longleftrightarrow>
     (\<forall>e. ca_spawn a = Some e \<or> Inl e \<in> set (ca_curls a) \<or> Unreadable e \<in> set (ca_events a)
        \<longrightarrow> \<not> exc_isa (Tunnel_exc TunnelStartError) e)"

lemma await_url_unread: "await_url es = Unread e \<Longrightarrow> Unreadable e \<in> set es"
  by (induction es rule: await_url.induct) (auto split: option.splits)

lemma await_reachable_Some:
  "await_reachable cs = Some r \<Longrightarrow> case r of Inl e \<Rightarrow> Inl e \<in> set cs | Inr x \<Rightarrow> \<exists>code. Inr code \<in> set cs \<and> good_code code"
  by (induction cs rule: await_reachable.induct) (auto split: if_splits sum.splits)

text \<open>The errors an attempt can end in beside \<^verbatim>\<open>TunnelStartError\<close>, once its process was started.\<close>

definition attempt_error :: "cf_attempt \<Rightarrow> exc \<Rightarrow> bool" where
  "attempt_error a e \<longleftrightarrow> Inl e \<in> set (ca_curls a) \<or> Unreadable e \<in> set (ca_events a) \<or> e = raised ProcessLookupError [] \<and> \<not> ca_alive a"

lemma attempt_cases:
  assumes "attempt_tunnel a w = (r, w')" "foreign_errors a" "\<forall>q \<in> cw_running w. q < cw_next w"
  obtains (unspawned) e where "ca_spawn a = Some e" "r = Inl e" "w' = w" "\<not> exc_isa (Tunnel_exc TunnelStartError) e"
  | (up) url where "ca_spawn a = None" "r = Inr url" "await_url (ca_events a) = Found url" "await_reachable (ca_curls a) = Some (Inr ())"
      "w' = \<lparr>cw_process = Some (cw_next w), cw_running = cw_running w \<union> (if ca_alive a then {cw_next w} else {}),
             cw_next = Suc (cw_next w)\<rparr>"
  | (retried) q where "ca_spawn a = None" "r = Inl tunnel_start_error" "q \<in> {None, Some (cw_next w)}" "left_running a \<longrightarrow> q = Some (cw_next w)"
      "w' = \<lparr>cw_process = q, cw_running = cw_running w \<union> (if left_running a then {cw_next w} else {}), cw_next = Suc (cw_next w)\<rparr>"
  | (failed) e where "ca_spawn a = None" "r = Inl e" "attempt_error a e" "\<not> exc_isa (Tunnel_exc TunnelStartError) e"
      "w' = \<lparr>cw_process = Some (cw_next w), cw_running = cw_running w \<union> (if ca_alive a then {cw_next w} else {}),
             cw_next = Suc (cw_next w)\<rparr>"
proof (cases "ca_spawn a")
  case (Some e)
  with assms(1,2) show ?thesis by (intro unspawned) (auto simp: attempt_tunnel_def foreign_errors_def)
next
  case None
  let ?p = "cw_next w" and ?aw = "await_url (ca_events a)"
  let ?left = "\<lparr>cw_process = Some ?p, cw_running = cw_running w \<union> (if ca_alive a then {?p} else {}), cw_next = Suc ?p\<rparr>"
  have p: "?p \<notin> cw_running w" using assms(3) by blast
  define fail where "fail = (case cf_kill (ca_alive a) ?p
      \<lparr>cw_process = Some ?p, cw_running = insert ?p (cw_running w), cw_next = Suc ?p\<rparr> of
      (Inl e, v) \<Rightarrow> (Inl e, v) | (Inr (_ :: unit), v) \<Rightarrow> (Inl tunnel_start_error :: pystr result, v))"
  let ?W = "\<lparr>cw_process = Some ?p, cw_running = insert ?p (cw_running w), cw_next = Suc ?p\<rparr>"
  have left: "(if ca_alive a then ?W else ?W\<lparr>cw_running := cw_running ?W - {?p}\<rparr>) = ?left"
    using p by auto
  have body: "attempt_tunnel a w =
      (case ?aw of
         Slow \<Rightarrow> fail
       | Broken \<Rightarrow> (Inl tunnel_start_error, ?left)
       | Unread e \<Rightarrow> if exc_isa TimeoutError e then fail else (Inl e, ?left)
       | Found url \<Rightarrow>
           (case await_reachable (ca_curls a) of
              None \<Rightarrow> fail
            | Some (Inr _) \<Rightarrow> (Inr url, ?left)
            | Some (Inl e) \<Rightarrow> if exc_isa TimeoutError e then fail else (Inl e, ?left)))"
    unfolding attempt_tunnel_def None Let_def option.case fail_def left ..
  consider (kill) "attempt_tunnel a w = fail" "\<not> left_running a"
    | (broken) "attempt_tunnel a w = (Inl tunnel_start_error, ?left)" "?aw = Broken"
    | (other) e where "attempt_tunnel a w = (Inl e, ?left)" "Inl e \<in> set (ca_curls a) \<or> Unreadable e \<in> set (ca_events a)"
    | (ok) url where "attempt_tunnel a w = (Inr url, ?left)" "?aw = Found url" "await_reachable (ca_curls a) = Some (Inr ())"
  proof (cases ?aw)
    case (Found url)
    show ?thesis
    proof (cases "await_reachable (ca_curls a)")
      case None
      with Found body kill show ?thesis by (simp add: left_running_def)
    next
      case (Some rr)
      show ?thesis
      proof (cases rr)
        case (Inl e)
        with Found Some body kill other [of e] await_reachable_Some [OF Some] show ?thesis
          by (simp add: left_running_def split: if_splits)
      next
        case (Inr x)
        with Found Some body ok show ?thesis by simp
      qed
    qed
  next
    case (Unread e)
    with body kill other [of e] await_url_unread [OF Unread] show ?thesis by (simp add: left_running_def split: if_splits)
  qed (use body kill broken in \<open>simp_all add: left_running_def\<close>)
  then show ?thesis
  proof cases
    case kill
    show ?thesis
    proof (cases "ca_alive a")
      case True
      with kill assms(1) None p show ?thesis by (intro retried [of None]) (auto simp: cf_kill_def fail_def)
    next
      case False
      with kill assms(1) None p show ?thesis
        by (intro failed [of "raised ProcessLookupError []"]) (auto simp: cf_kill_def fail_def attempt_error_def exc_simps)
    qed
  next
    case broken
    with assms(1) None show ?thesis by (intro retried [of "Some ?p"]) (auto simp: left_running_def)
  next
    case (other e)
    with assms(1,2) None show ?thesis by (intro failed [of e]) (auto simp: attempt_error_def foreign_errors_def)
  next
    case (ok url)
    with assms(1) None show ?thesis by (intro up [of url]) auto
  qed
qed

text \<open>Between two attempts: the processes that run are those of before and those that were left, and the provider
  refers to the last one or to none.\<close>

definition between :: "(nat \<Rightarrow> cf_attempt) \<Rightarrow> cf_world \<Rightarrow> cf_world \<Rightarrow> bool" where
  "between att w0 w \<longleftrightarrow>
     cw_next w0 \<le> cw_next w \<and>
     cw_running w = cw_running w0 \<union> {k. cw_next w0 \<le> k \<and> k < cw_next w \<and> left_running (att k)} \<and>
     (case cw_process w of
        None \<Rightarrow> \<forall>k. Suc k = cw_next w \<longrightarrow> cw_next w0 \<le> k \<longrightarrow> \<not> left_running (att k)
      | Some q \<Rightarrow> cw_next w0 \<le> q \<and> Suc q = cw_next w)"

definition lost_processes :: "(nat \<Rightarrow> cf_attempt) \<Rightarrow> cf_world \<Rightarrow> cf_world \<Rightarrow> nat set" where
  "lost_processes att w0 w = {k. cw_next w0 \<le> k \<and> Suc k < cw_next w \<and> left_running (att k)}"

lemma between_stop:
  assumes "between att w0 w" "\<forall>q \<in> cw_running w0. q < cw_next w0"
  shows "cw_running (cf_stop w) = cw_running w0 \<union> lost_processes att w0 w"
proof (cases "cw_process w")
  case None
  with assms(1) show ?thesis
    by (auto simp: between_def cf_stop_def lost_processes_def) (metis Suc_lessI)
next
  case (Some q)
  with assms have q: "cw_next w0 \<le> q" "Suc q = cw_next w" "q \<notin> cw_running w0" by (auto simp: between_def)
  have "k < Suc q \<and> k \<noteq> q \<longleftrightarrow> Suc k < Suc q" for k by auto
  with Some q assms(1) show ?thesis by (auto simp: between_def cf_stop_def lost_processes_def)
qed

lemma last_stop:
  assumes "between att w0 w" "\<forall>q \<in> cw_running w0. q < cw_next w0"
    and "w' = \<lparr>cw_process = Some (cw_next w), cw_running = cw_running w \<union> (if alive then {cw_next w} else {}), cw_next = Suc (cw_next w)\<rparr>"
  shows "cw_running (cf_stop w') = cw_running w0 \<union> lost_processes att w0 w'"
  using assms by (auto simp: between_def cf_stop_def lost_processes_def)

lemma cf_start_loop_ok:
  assumes att: "\<forall>k. foreign_errors (att k)" and w0: "\<forall>q \<in> cw_running w0. q < cw_next w0"
    and "between att w0 w" "cf_start_loop n err att w = (r, w')" "err = None \<or> err = Some tunnel_start_error" "err = None \<Longrightarrow> 0 < n"
  shows "cw_next w' \<le> cw_next w + n \<and> cw_running (cf_stop w') = cw_running w0 \<union> lost_processes att w0 w' \<and>
    (case r of
       Inr url \<Rightarrow> \<exists>p. cw_process w' = Some p \<and> (p \<in> cw_running w' \<longleftrightarrow> ca_alive (att p)) \<and>
         await_url (ca_events (att p)) = Found url \<and> await_reachable (ca_curls (att p)) = Some (Inr ())
     | Inl e \<Rightarrow>
         e = tunnel_start_error \<and> cw_next w' = cw_next w + n \<or>
         ca_spawn (att (cw_next w')) = Some e \<or>
         (\<exists>p. cw_process w' = Some p \<and> attempt_error (att p) e))"
  using assms(3-6)
proof (induction n arbitrary: err w)
  case 0
  then have "err = Some tunnel_start_error" by blast
  with 0 show ?case using between_stop [OF _ w0, of att w] by auto
next
  case (Suc n)
  let ?k = "cw_next w"
  have below: "\<forall>q \<in> cw_running w. q < ?k" using Suc.prems(1) w0 by (fastforce simp: between_def)
  obtain ra wa where a: "attempt_tunnel (att ?k) w = (ra, wa)" by (metis prod.exhaust)
  have "foreign_errors (att ?k)" using att by blast
  from a this below show ?case
  proof (cases rule: attempt_cases)
    case (unspawned e)
    with a Suc.prems(2) have "r = Inl e" "w' = w" by auto
    with unspawned(1) between_stop [OF Suc.prems(1) w0] show ?thesis by auto
  next
    case (up url)
    with a Suc.prems(2) have r: "r = Inr url" "w' = wa" by auto
    from last_stop [OF Suc.prems(1) w0 up(5)] r up below show ?thesis by auto
  next
    case (failed e)
    with a Suc.prems(2) have r: "r = Inl e" "w' = wa" by auto
    from last_stop [OF Suc.prems(1) w0 failed(5)] r failed show ?thesis by auto
  next
    case (retried q)
    have isa: "exc_isa (Tunnel_exc TunnelStartError) tunnel_start_error" by (simp add: tunnel_start_error_def exc_simps)
    have step: "cf_start_loop n (Some tunnel_start_error) att wa = (r, w')"
      using a retried(2) Suc.prems(2) isa by simp
    have b: "between att w0 wa"
      using Suc.prems(1) retried(3-5) by (auto simp: between_def less_Suc_eq split: option.splits)
    from Suc.IH [OF b step] retried(5) show ?thesis by (auto split: sum.splits)
  qed
qed

text \<open>C40: what a tunnel that starts, or does not, comes to, whatever the command-line tools do. \<^verbatim>\<open>start()\<close> starts at
  most three processes. It returns a URL only if the process it keeps printed it, of the provider's domain and without
  spaces, and a \<^verbatim>\<open>curl\<close> of it answered with a success or a redirection in time. It raises \<^verbatim>\<open>TunnelStartError\<close> after three
  attempts that failed, no fewer; otherwise it raises, without another attempt, what the operating system
  raised when \<^verbatim>\<open>cloudflared\<close> or \<^verbatim>\<open>curl\<close> was to be started or a line to be read, or \<^verbatim>\<open>ProcessLookupError\<close> for a
  process that had ended when it was to be killed. After any of these, \<^verbatim>\<open>stop()\<close> leaves running exactly the processes
  of the attempts but the last that closed their output and lived on: none, if a process ends when its output ends.\<close>

theorem cloudflare_start_stop:
  assumes "cf_start att w = (r, w')" "\<forall>k. foreign_errors (att k)" "cw_process w = None" "\<forall>q \<in> cw_running w. q < cw_next w"
  shows "cw_next w' \<le> cw_next w + 3 \<and>
    cw_running (cf_stop w') = cw_running w \<union>
      {k. cw_next w \<le> k \<and> Suc k < cw_next w' \<and> ca_spawn (att k) = None \<and> await_url (ca_events (att k)) = Broken \<and> ca_alive (att k)} \<and>
    (case r of
       Inl e \<Rightarrow>
         e = tunnel_start_error \<and> cw_next w' = cw_next w + 3 \<or>
         ca_spawn (att (cw_next w')) = Some e \<or>
         (\<exists>p. cw_process w' = Some p \<and>
           (Inl e \<in> set (ca_curls (att p)) \<or> Unreadable e \<in> set (ca_events (att p)) \<or> e = raised ProcessLookupError [] \<and> \<not> ca_alive (att p)))
     | Inr url \<Rightarrow> \<exists>p host. cw_process w' = Some p \<and> (p \<in> cw_running w' \<longleftrightarrow> ca_alive (att p)) \<and>
         (\<exists>bytes. Printed bytes \<in> set (ca_events (att p)) \<and> cloudflare_url (utf8_decode bytes) = Some url) \<and>
         (\<exists>code. Inr code \<in> set (ca_curls (att p)) \<and> good_code code) \<and>
         url = u ''https://'' @ host @ cloudflare_domain \<and> (\<forall>c \<in> set host. \<not> is_space c))"
proof -
  have "between att w w" using assms(3) by (auto simp: between_def)
  from cf_start_loop_ok [OF assms(2,4) this assms(1) [unfolded cf_start_def max_tunnel_attempts_def]]
  have n: "cw_next w' \<le> cw_next w + 3" and stop: "cw_running (cf_stop w') = cw_running w \<union> lost_processes att w w'"
    and out: "case r of
       Inr url \<Rightarrow> \<exists>p. cw_process w' = Some p \<and> (p \<in> cw_running w' \<longleftrightarrow> ca_alive (att p)) \<and>
         await_url (ca_events (att p)) = Found url \<and> await_reachable (ca_curls (att p)) = Some (Inr ())
     | Inl e \<Rightarrow>
         e = tunnel_start_error \<and> cw_next w' = cw_next w + 3 \<or> ca_spawn (att (cw_next w')) = Some e \<or>
         (\<exists>p. cw_process w' = Some p \<and> attempt_error (att p) e)"
    by simp_all
  show ?thesis
  proof (cases r)
    case (Inl e)
    with n stop out show ?thesis by (auto simp: lost_processes_def left_running_def attempt_error_def)
  next
    case (Inr url)
    with out obtain p where p: "cw_process w' = Some p" "p \<in> cw_running w' \<longleftrightarrow> ca_alive (att p)"
      "await_url (ca_events (att p)) = Found url" "await_reachable (ca_curls (att p)) = Some (Inr ())" by auto
    from await_url_found [OF p(3)] obtain bytes where b: "Printed bytes \<in> set (ca_events (att p))"
      "cloudflare_url (utf8_decode bytes) = Some url" by blast
    from cloudflare_url_shape [OF b(2)] obtain host
      where h: "url = u ''https://'' @ host @ cloudflare_domain" "\<forall>c \<in> set host. \<not> is_space c" by blast
    from await_reachable_Some [OF p(4)] obtain code where c: "Inr code \<in> set (ca_curls (att p))" "good_code code" by auto
    show ?thesis unfolding Inr sum.case stop lost_processes_def left_running_def
      using n p(1,2) b c h by blast
  qed
qed

text \<open>To try it on: \<^verbatim>\<open>cloudflared\<close> prints a URL, and \<^verbatim>\<open>curl\<close> is not installed.\<close>

definition no_curl_attempt :: cf_attempt where
  "no_curl_attempt =
     \<lparr>ca_spawn = None, ca_events = [Printed (u ''https://a.trycloudflare.com'')],
      ca_curls = [Inl (raised FileNotFoundError [])], ca_alive = True\<rparr>"

theorem cloudflare_start_stop_witness:
  "\<exists>r w'. cf_start (\<lambda>k. no_curl_attempt) new_cf_world = (r, w') \<and> cw_next w' \<le> 3 \<and> cw_running (cf_stop w') = {}"
proof -
  obtain r w' where s: "cf_start (\<lambda>k. no_curl_attempt) new_cf_world = (r, w')" by fastforce
  have f: "\<forall>k :: nat. foreign_errors no_curl_attempt"
    by (auto simp: foreign_errors_def no_curl_attempt_def exc_simps)
  have "await_url (ca_events no_curl_attempt) \<noteq> Broken" by (auto simp: no_curl_attempt_def split: option.split)
  with cloudflare_start_stop [OF s f] s show ?thesis by (simp add: new_cf_world_def)
qed

text \<open>A missing tool is not the documented \<^verbatim>\<open>TunnelStartError\<close>: without \<^verbatim>\<open>cloudflared\<close> nothing was started, and without
  \<^verbatim>\<open>curl\<close> the tunnel is up and stays up until somebody calls \<^verbatim>\<open>stop()\<close>.\<close>

lemma missing_tools:
  assumes "ca_spawn (att (cw_next w)) = Some (raised FileNotFoundError [])"
  shows "cf_start att w = (Inl (raised FileNotFoundError []), w)"
  using assms by (simp add: cf_start_def max_tunnel_attempts_def attempt_tunnel_def numeral_3_eq_3 exc_simps)

lemma missing_curl:
  assumes "att (cw_next w) = a" "ca_spawn a = None" "await_url (ca_events a) = Found url" "ca_alive a"
    and "ca_curls a = [Inl (raised FileNotFoundError [])]"
  shows "\<exists>w'. cf_start att w = (Inl (raised FileNotFoundError []), w') \<and> cw_next w \<in> cw_running w' \<and>
    cw_process w' = Some (cw_next w)"
  using assms by (simp add: cf_start_def max_tunnel_attempts_def attempt_tunnel_def Let_def numeral_3_eq_3 exc_simps)

text \<open>A process that closes its output and lives on is never killed, the next attempt
  replaces the reference to it, and no \<^verbatim>\<open>stop()\<close> reaches it.\<close>

lemma closed_output_leaks:
  assumes "\<forall>k. att k = \<lparr>ca_spawn = None, ca_events = [Closed], ca_curls = [], ca_alive = True\<rparr>"
  shows "fst (cf_start att new_cf_world) = Inl tunnel_start_error \<and> cw_running (cf_stop (snd (cf_start att new_cf_world))) = {0, 1}"
  using assms
  by (auto simp: cf_start_def max_tunnel_attempts_def attempt_tunnel_def Let_def numeral_3_eq_3 tunnel_start_error_def exc_simps
      new_cf_world_def cf_stop_def)

text \<open>And a process that has ended by the time it should be killed turns the failed attempt into a
  \<^verbatim>\<open>ProcessLookupError\<close>, which is not retried.\<close>

lemma dead_tunnel_not_retried:
  assumes "att (cw_next w) = \<lparr>ca_spawn = None, ca_events = [], ca_curls = [], ca_alive = False\<rparr>"
  shows "fst (cf_start att w) = Inl (raised ProcessLookupError [])"
  using assms by (simp add: cf_start_def max_tunnel_attempts_def attempt_tunnel_def Let_def cf_kill_def numeral_3_eq_3 exc_simps)

text \<open>A funnel that was configured without a URL that can be read stays: \<^verbatim>\<open>stop()\<close> does nothing unless
  \<^verbatim>\<open>start()\<close> returned.\<close>

lemma unread_funnel_stays:
  assumes "tailscale_url (utf8_decode output) = None" "\<not> tw_started w"
  shows "fst (ts_start (FunnelEnded 0 output) True w) = Inl tunnel_start_error \<and>
    tw_funnel (snd (ts_stop None True (snd (ts_start (FunnelEnded 0 output) True w))))"
  using assms by (simp add: ts_start_def ts_stop_def Let_def)

end
