(* ===== verification/ScopeModel.thy ===== *)
theory ScopeModel
  imports Exceptions "HOL-Library.List_Lexorder"
begin

text \<open>
  \<^verbatim>\<open>src/fabrica/scope.py\<close>, the scope keys of the memory stores, and the two functions that
  flatten a scope into the parameters a policy sees (\<^verbatim>\<open>presidium/rest_client.py\<close> and
  \<^verbatim>\<open>presidium/in_process_client.py\<close>). A constructed scope satisfies \<open>scope_ok\<close>: \<^verbatim>\<open>extra\<close> has
  distinct keys (it is a dict) and none of them is reserved (\<^verbatim>\<open>__post_init__\<close>).
\<close>

record scope =
  sc_user_id :: "pystr option"
  sc_session_id :: "pystr option"
  sc_agent_id :: "pystr option"
  sc_team_id :: "pystr option"
  sc_extra :: "(pystr, pystr) dict"

definition reserved_field_names :: "pystr list" where
  "reserved_field_names = [u ''user_id'', u ''session_id'', u ''agent_id'', u ''team_id'']"

text \<open>The constructor with its \<^verbatim>\<open>__post_init__\<close>.\<close>

definition make_scope ::
    "pystr option \<Rightarrow> pystr option \<Rightarrow> pystr option \<Rightarrow> pystr option \<Rightarrow> (pystr, pystr) dict
     \<Rightarrow> scope result" where
  "make_scope uid sid aid tid ex =
     (let collisions = sort (filter (\<lambda>k. k \<in> set (dict_keys ex)) reserved_field_names)
      in if collisions \<noteq> [] then Inl (raised ValueError (map PStr collisions))
         else Inr \<lparr>sc_user_id = uid, sc_session_id = sid, sc_agent_id = aid, sc_team_id = tid,
                   sc_extra = ex\<rparr>)"

definition scope_ok :: "scope \<Rightarrow> bool" where
  "scope_ok s \<longleftrightarrow> dict_ok (sc_extra s) \<and> (\<forall>k \<in> set (dict_keys (sc_extra s)). k \<notin> set reserved_field_names)"

text \<open>\<^verbatim>\<open>Scope(agent_id=...)\<close> as the MCP server builds it.\<close>

definition agent_scope :: "pystr \<Rightarrow> scope" where
  "agent_scope a = \<lparr>sc_user_id = None, sc_session_id = None, sc_agent_id = Some a, sc_team_id = None,
     sc_extra = []\<rparr>"

type_synonym scope_key = "pystr option \<times> pystr option \<times> pystr option \<times> pystr option"

definition scope_key :: "scope \<Rightarrow> scope_key" where
  "scope_key s = (sc_user_id s, sc_session_id s, sc_agent_id s, sc_team_id s)"

text \<open>Two scopes are the same holder of data when they agree in the four fields; the extra ones do not count.\<close>

definition same_holder :: "scope \<Rightarrow> scope \<Rightarrow> bool" where
  "same_holder a b \<longleftrightarrow> sc_user_id a = sc_user_id b \<and> sc_session_id a = sc_session_id b \<and>
     sc_agent_id a = sc_agent_id b \<and> sc_team_id a = sc_team_id b"

lemma scope_key_eq: "scope_key a = scope_key b \<longleftrightarrow> same_holder a b"
  by (auto simp: scope_key_def same_holder_def)

section \<open>Flattening into policy parameters\<close>

text \<open>The four fixed fields in declaration order, as \<^verbatim>\<open>dataclasses.asdict\<close> lists them.\<close>

definition fixed_fields :: "scope \<Rightarrow> (pystr \<times> pystr option) list" where
  "fixed_fields s = zip reserved_field_names [sc_user_id s, sc_session_id s, sc_agent_id s, sc_team_id s]"

definition scope_to_dict :: "scope \<Rightarrow> (pystr, pystr) dict" where
  "scope_to_dict s =
     (let payload = List.map_filter (\<lambda>(k, v). map_option (Pair k) v) (fixed_fields s)
      in dict_update (sc_extra s) payload)"

definition scope_to_parameters :: "scope \<Rightarrow> (pystr, pystr) dict" where
  "scope_to_parameters s =
     (let fixed = [(k, v). (k, Some v) \<leftarrow>
                     [(u ''user_id'', sc_user_id s), (u ''session_id'', sc_session_id s),
                      (u ''agent_id'', sc_agent_id s), (u ''team_id'', sc_team_id s)]]
      in dict_update (sc_extra s) fixed)"

lemma make_scope_ok:
  assumes "make_scope uid sid aid tid ex = Inr s" and "dict_ok ex"
  shows "scope_ok s"
proof -
  from assms(1) have "filter (\<lambda>k. k \<in> set (dict_keys ex)) reserved_field_names = []"
    and s: "s = \<lparr>sc_user_id = uid, sc_session_id = sid, sc_agent_id = aid, sc_team_id = tid, sc_extra = ex\<rparr>"
    by (simp_all add: make_scope_def Let_def split: if_splits)
      (metis length_0_conv length_sort)
  then show ?thesis using assms(2) by (auto simp: scope_ok_def filter_empty_conv)
qed

lemma agent_scope_ok [simp]: "scope_ok (agent_scope a)"
  by (simp add: scope_ok_def agent_scope_def)

definition scope_field :: "scope \<Rightarrow> pystr \<Rightarrow> pystr option" where
  "scope_field s k =
     (if k = u ''user_id'' then sc_user_id s else if k = u ''session_id'' then sc_session_id s
      else if k = u ''agent_id'' then sc_agent_id s else if k = u ''team_id'' then sc_team_id s
      else map_of (sc_extra s) k)"

lemma scope_to_dict_eq: "scope_to_dict s = scope_to_parameters s"
  by (cases "sc_user_id s"; cases "sc_session_id s"; cases "sc_agent_id s"; cases "sc_team_id s")
    (simp_all add: scope_to_dict_def scope_to_parameters_def fixed_fields_def
      reserved_field_names_def List.map_filter_simps)

lemma map_of_fixed:
  "map_of [(k, v). (k, Some v) \<leftarrow>
      [(u ''user_id'', a), (u ''session_id'', b), (u ''agent_id'', c), (u ''team_id'', d)]] k =
     (if k = u ''user_id'' then a else if k = u ''session_id'' then b
      else if k = u ''agent_id'' then c else if k = u ''team_id'' then d else None)"
  by (cases a; cases b; cases c; cases d) auto

text \<open>What a policy reads under a name is that field of the scope, and nothing else is there.\<close>

lemma scope_to_parameters_lookup:
  assumes "scope_ok s"
  shows "dict_get (scope_to_parameters s) k = scope_field s k"
proof -
  have res: "map_of (sc_extra s) k = None" if "k \<in> set reserved_field_names"
    using assms that by (auto simp: scope_ok_def map_of_eq_None_iff)
  have "dict_get (scope_to_parameters s) k =
      (case map_of (sc_extra s) k of Some v \<Rightarrow> Some v
       | None \<Rightarrow> if k = u ''user_id'' then sc_user_id s else if k = u ''session_id'' then sc_session_id s
                 else if k = u ''agent_id'' then sc_agent_id s else if k = u ''team_id'' then sc_team_id s
                 else None)"
    unfolding scope_to_parameters_def Let_def
    using assms by (simp only: scope_ok_def map_of_dict_update map_add_def map_of_fixed)
  note lookup = this
  show ?thesis
  proof (cases "map_of (sc_extra s) k")
    case None
    with lookup show ?thesis by (simp add: scope_field_def del: u_simps)
  next
    case (Some v)
    with res have "k \<notin> set reserved_field_names" by auto
    with Some lookup show ?thesis
      by (simp add: scope_field_def reserved_field_names_def del: u_simps)
  qed
qed

end
