(* ===== verification/Presidium.thy ===== *)
theory Presidium
  imports ScopeModel
begin

text \<open>
  \<^verbatim>\<open>src/fabrica/presidium\<close>: the grant a governance client returns, the circuit breaker, the
  REST client and the in-process client.

  The clock is an argument of the operations that read it. What \<^verbatim>\<open>httpx\<close> and the governance
  engine do is a parameter (\<open>http_api\<close>, \<open>engine\<close>): records of functions over a state of their
  own, each of which may raise.
\<close>

section \<open>Grants\<close>

datatype decision = Allow | Deny | RequireApproval

record grant =
  gr_decision :: decision
  gr_reason :: pyval
  gr_approval_context :: pyval

definition deny_grant :: "pystr \<Rightarrow> grant" where
  "deny_grant why = \<lparr>gr_decision = Deny, gr_reason = PStr why, gr_approval_context = PNone\<rparr>"

section \<open>The circuit breaker\<close>

datatype breaker_state = Closed | Open | HalfOpen

record breaker =
  br_failure_threshold :: int
  br_cooldown_seconds :: real
  br_state :: breaker_state
  br_consecutive_failures :: int
  br_opened_at :: "real option"

definition new_breaker :: "int \<Rightarrow> real \<Rightarrow> breaker" where
  "new_breaker threshold cooldown =
     \<lparr>br_failure_threshold = threshold, br_cooldown_seconds = cooldown, br_state = Closed,
      br_consecutive_failures = 0, br_opened_at = None\<rparr>"

definition allow_request :: "real \<Rightarrow> breaker \<Rightarrow> bool result \<times> breaker" where
  "allow_request now b =
     (if br_state b = Open then
        (case br_opened_at b of
           None \<Rightarrow> (Inl (raised AssertionError []), b)
         | Some t \<Rightarrow>
             if now - t \<ge> br_cooldown_seconds b then (Inr True, b\<lparr>br_state := HalfOpen\<rparr>)
             else (Inr False, b))
      else (Inr True, b))"

definition record_success :: "breaker \<Rightarrow> breaker" where
  "record_success b = b\<lparr>br_consecutive_failures := 0, br_state := Closed, br_opened_at := None\<rparr>"

definition record_failure :: "real \<Rightarrow> breaker \<Rightarrow> breaker" where
  "record_failure now b =
     (let b' = b\<lparr>br_consecutive_failures := br_consecutive_failures b + 1\<rparr>
      in if br_state b' = HalfOpen \<or> br_consecutive_failures b' \<ge> br_failure_threshold b'
         then b'\<lparr>br_state := Open, br_opened_at := Some now\<rparr>
         else b')"

text \<open>
  Requests overlap: each call asks \<open>allow_request\<close> first and reports its outcome later, with
  other calls in between. A history of the breaker is any sequence of these events.
\<close>

datatype breaker_event = Ask real | Succeeded | Failed real

fun breaker_step :: "breaker \<Rightarrow> breaker_event \<Rightarrow> breaker" where
  "breaker_step b (Ask now) = snd (allow_request now b)"
| "breaker_step b Succeeded = record_success b"
| "breaker_step b (Failed now) = record_failure now b"

fun breaker_run :: "breaker \<Rightarrow> breaker_event list \<Rightarrow> breaker" where
  "breaker_run b [] = b"
| "breaker_run b (e # es) = breaker_run (breaker_step b e) es"

definition breaker_ok :: "breaker \<Rightarrow> bool" where
  "breaker_ok b \<longleftrightarrow>
     br_consecutive_failures b \<ge> 0 \<and>
     (br_state b = Open \<longrightarrow> br_opened_at b \<noteq> None) \<and>
     (br_state b = Closed \<longleftrightarrow> br_consecutive_failures b < br_failure_threshold b)"

lemmas breaker_defs = allow_request_def record_success_def record_failure_def Let_def

lemma new_breaker_ok: "1 \<le> n \<Longrightarrow> breaker_ok (new_breaker n c)"
  by (simp add: breaker_ok_def new_breaker_def)

lemma breaker_step_config [simp]:
  "br_failure_threshold (breaker_step b e) = br_failure_threshold b"
  "br_cooldown_seconds (breaker_step b e) = br_cooldown_seconds b"
  by (cases e; auto simp: breaker_defs split: option.split)+

lemma breaker_step_ok: "breaker_ok b \<Longrightarrow> 1 \<le> br_failure_threshold b \<Longrightarrow> breaker_ok (breaker_step b e)"
  by (cases e) (auto simp: breaker_ok_def breaker_defs split: option.split)

lemma breaker_run_ok:
  "breaker_ok b \<Longrightarrow> 1 \<le> br_failure_threshold b \<Longrightarrow> breaker_ok (breaker_run b es)"
  by (induction es arbitrary: b) (auto simp: breaker_step_ok)

lemma breaker_run_append: "breaker_run b (xs @ ys) = breaker_run (breaker_run b xs) ys"
  by (induction xs arbitrary: b) auto

lemma breaker_run_config [simp]:
  "br_failure_threshold (breaker_run b es) = br_failure_threshold b"
  "br_cooldown_seconds (breaker_run b es) = br_cooldown_seconds b"
  by (induction es arbitrary: b) auto

text \<open>An open breaker refuses every request until the cooldown is over, and then admits one.\<close>

lemma open_refuses:
  assumes "br_state b = Open" "br_opened_at b = Some t" "now - t < br_cooldown_seconds b"
  shows "allow_request now b = (Inr False, b)"
  using assms by (simp add: allow_request_def)

lemma open_admits:
  assumes "br_state b = Open" "br_opened_at b = Some t" "now - t \<ge> br_cooldown_seconds b"
  shows "allow_request now b = (Inr True, b\<lparr>br_state := HalfOpen\<rparr>)"
  using assms by (simp add: allow_request_def)

lemma not_open_admits: "br_state b \<noteq> Open \<Longrightarrow> allow_request now b = (Inr True, b)"
  by (simp add: allow_request_def)

lemma allow_request_total:
  "breaker_ok b \<Longrightarrow> \<exists>ok b'. allow_request now b = (Inr ok, b')"
  by (auto simp: breaker_ok_def allow_request_def)

text \<open>A run of failures counts up and trips at the threshold.\<close>

lemma failures_run:
  assumes "br_state b = Closed" and "br_consecutive_failures b + int (length ts) < br_failure_threshold b"
  shows "breaker_run b (map Failed ts) =
           b\<lparr>br_consecutive_failures := br_consecutive_failures b + int (length ts)\<rparr>"
  using assms
proof (induction ts arbitrary: b)
  case Nil
  then show ?case by simp
next
  case (Cons t ts)
  then have "breaker_step b (Failed t) = b\<lparr>br_consecutive_failures := br_consecutive_failures b + 1\<rparr>"
    by (simp add: record_failure_def)
  with Cons show ?case by (simp add: algebra_simps)
qed

lemma failures_trip:
  assumes "br_state b = Closed" and "br_consecutive_failures b = 0"
    and "int (length ts) + 1 = br_failure_threshold b"
  shows "br_state (breaker_run b (map Failed (ts @ [t]))) = Open"
    and "br_opened_at (breaker_run b (map Failed (ts @ [t]))) = Some t"
  using failures_run [of b ts] assms
  by (simp_all add: breaker_run_append record_failure_def)

section \<open>The REST client\<close>

record ('c, 'r) http_api =
  api_post :: "pystr \<Rightarrow> pyval \<Rightarrow> 'c \<Rightarrow> 'r result \<times> 'c"
  api_raise_for_status :: "'r \<Rightarrow> unit result"
  api_json :: "'r \<Rightarrow> pyval result"
  api_str :: "exc \<Rightarrow> pystr"
  api_repr :: "pyval \<Rightarrow> pystr"

record 'c rest_client =
  rc_base_url :: pystr
  rc_client :: 'c
  rc_breaker :: breaker

text \<open>\<^verbatim>\<open>base_url.rstrip("/")\<close>\<close>

definition rstrip_slash :: "pystr \<Rightarrow> pystr" where
  "rstrip_slash s = rev (dropWhile (\<lambda>c. c = 47) (rev s))"

definition default_failure_threshold :: int where "default_failure_threshold = 5"

definition default_cooldown_seconds :: real where "default_cooldown_seconds = 30"

definition new_rest_client :: "pystr \<Rightarrow> 'c \<Rightarrow> int \<Rightarrow> real \<Rightarrow> 'c rest_client" where
  "new_rest_client base_url client threshold cooldown =
     \<lparr>rc_base_url = rstrip_slash base_url, rc_client = client,
      rc_breaker = new_breaker threshold cooldown\<rparr>"

fun decision_of :: "pyval \<Rightarrow> decision option" where
  "decision_of (PStr s) =
     (if s = u ''allow'' then Some Allow
      else if s = u ''deny'' then Some Deny
      else if s = u ''require_approval'' then Some RequireApproval
      else None)"
| "decision_of _ = None"

text \<open>
  \<^verbatim>\<open>decision not in _VALID_DECISIONS\<close> hashes its left operand first: a list or a dict is
  unhashable, and the test itself raises.
\<close>

fun check_decision :: "pyval \<Rightarrow> decision option result" where
  "check_decision (PList vs) = Inl (raised TypeError [])"
| "check_decision (PDict d) = Inl (raised TypeError [])"
| "check_decision v = Inr (decision_of v)"

definition py_get :: "pydict \<Rightarrow> pystr \<Rightarrow> pyval" where
  "py_get d k = dict_get_or d k PNone"

definition body_decision :: "pyval \<Rightarrow> pyval" where
  "body_decision body = (case body of PDict d \<Rightarrow> py_get d (u ''decision'') | _ \<Rightarrow> PNone)"

definition body_field :: "pyval \<Rightarrow> pystr \<Rightarrow> pyval" where
  "body_field body k = (case body of PDict d \<Rightarrow> py_get d k | _ \<Rightarrow> PNone)"

definition grant_request :: "pystr \<Rightarrow> pystr \<Rightarrow> scope \<Rightarrow> pyval" where
  "grant_request aid action s =
     PDict [(u ''agent_id'', PStr aid), (u ''action'', PStr action),
            (u ''scope'', PDict (map (\<lambda>(k, v). (k, PStr v)) (scope_to_dict s)))]"

text \<open>The body of the \<^verbatim>\<open>try\<close>: post, check the status, decode.\<close>

definition rest_fetch :: "('c, 'r) http_api \<Rightarrow> pystr \<Rightarrow> pyval \<Rightarrow> 'c \<Rightarrow> pyval result \<times> 'c" where
  "rest_fetch api url req c =
     (case api_post api url req c of
        (Inl e, c') \<Rightarrow> (Inl e, c')
      | (Inr resp, c') \<Rightarrow>
          (case api_raise_for_status api resp of
             Inl e \<Rightarrow> (Inl e, c')
           | Inr _ \<Rightarrow> (api_json api resp, c')))"

definition transport_failure :: "exc \<Rightarrow> bool" where
  "transport_failure e \<longleftrightarrow> exc_isa HTTPError e \<or> exc_isa ValueError e"

text \<open>\<open>now1\<close> is the clock when the breaker is asked, \<open>now2\<close> when the outcome is reported.\<close>

definition rest_check_grant ::
    "('c, 'r) http_api \<Rightarrow> real \<Rightarrow> real \<Rightarrow> pystr \<Rightarrow> pystr \<Rightarrow> scope \<Rightarrow> 'c rest_client
     \<Rightarrow> grant result \<times> 'c rest_client" where
  "rest_check_grant api now1 now2 aid action s rc =
     (case allow_request now1 (rc_breaker rc) of
        (Inl e, b) \<Rightarrow> (Inl e, rc\<lparr>rc_breaker := b\<rparr>)
      | (Inr False, b) \<Rightarrow>
          (Inr (deny_grant (u ''Presidium unreachable (circuit breaker open)'')), rc\<lparr>rc_breaker := b\<rparr>)
      | (Inr True, b) \<Rightarrow>
          (case rest_fetch api (rc_base_url rc @ u ''/v1/check_grant'') (grant_request aid action s)
                  (rc_client rc) of
             (Inl e, c) \<Rightarrow>
               if transport_failure e then
                 (Inr (deny_grant (u ''Presidium unreachable: '' @ api_str api e)),
                  rc\<lparr>rc_client := c, rc_breaker := record_failure now2 b\<rparr>)
               else (Inl e, rc\<lparr>rc_client := c, rc_breaker := b\<rparr>)
           | (Inr body, c) \<Rightarrow>
               (case check_decision (body_decision body) of
                  Inl e \<Rightarrow> (Inl e, rc\<lparr>rc_client := c, rc_breaker := b\<rparr>)
                | Inr None \<Rightarrow>
                    (Inr (deny_grant (u ''Presidium returned an unrecognized response: '' @ api_repr api body)),
                     rc\<lparr>rc_client := c, rc_breaker := record_failure now2 b\<rparr>)
                | Inr (Some d) \<Rightarrow>
                    (Inr \<lparr>gr_decision = d, gr_reason = body_field body (u ''reason''),
                          gr_approval_context = body_field body (u ''approval_context'')\<rparr>,
                     rc\<lparr>rc_client := c, rc_breaker := record_success b\<rparr>))))"

text \<open>
  \<^verbatim>\<open>from_endpoint\<close>: what is loaded into the SSL context, in order, and the client \<^verbatim>\<open>httpx\<close>
  builds from it (\<open>mk_client\<close>). A certificate without its key, or a key without its
  certificate, is not loaded.
\<close>

datatype ssl_load = LoadVerifyLocations pystr | LoadCertChain pystr pystr

definition from_endpoint ::
    "(ssl_load list \<Rightarrow> real \<Rightarrow> 'c) \<Rightarrow> pystr \<Rightarrow> pystr option \<Rightarrow> pystr option \<Rightarrow> pystr option
     \<Rightarrow> real \<Rightarrow> int \<Rightarrow> real \<Rightarrow> 'c rest_client" where
  "from_endpoint mk_client base_url client_cert client_key ca_cert tmo threshold cooldown =
     (let ca = (case ca_cert of None \<Rightarrow> [] | Some f \<Rightarrow> [LoadVerifyLocations f]);
          chain = (case (client_cert, client_key) of
                     (Some c, Some k) \<Rightarrow> [LoadCertChain c k] | _ \<Rightarrow> [])
      in new_rest_client base_url (mk_client (ca @ chain) tmo) threshold cooldown)"

definition rest_close :: "('c \<Rightarrow> unit result \<times> 'c) \<Rightarrow> 'c rest_client \<Rightarrow> unit result \<times> 'c rest_client" where
  "rest_close aclose rc = (case aclose (rc_client rc) of (r, c) \<Rightarrow> (r, rc\<lparr>rc_client := c\<rparr>))"

section \<open>The in-process client\<close>

text \<open>
  The governance runtime: the registry's answer is the record's name, the members of its
  decision enumeration are values of a type of its own.
\<close>

record 'd policy_result =
  pr_decision :: 'd
  pr_policy_name :: pyval
  pr_reason :: pyval
  pr_approvers :: "pyval list option"

record ('e, 'd) engine =
  en_lookup :: "pystr \<Rightarrow> 'e \<Rightarrow> pystr option result \<times> 'e"
  en_check :: "pystr \<Rightarrow> pystr \<Rightarrow> pystr \<Rightarrow> (pystr, pystr) dict \<Rightarrow> 'e
               \<Rightarrow> 'd policy_result result \<times> 'e"
  en_allow :: 'd
  en_deny :: 'd
  en_require_approval :: 'd
  en_repr :: "'d \<Rightarrow> pystr"

definition policy_enum_ok :: "('e, 'd) engine \<Rightarrow> bool" where
  "policy_enum_ok en \<longleftrightarrow> distinct [en_allow en, en_deny en, en_require_approval en]"

definition resource_action :: pystr where "resource_action = u ''invoke''"

definition decision_map :: "('e, 'd) engine \<Rightarrow> ('d, decision) dict" where
  "decision_map en =
     dict_update [(en_allow en, Allow), (en_deny en, Deny),
                  (en_require_approval en, RequireApproval)] []"

definition approval_context :: "'d policy_result \<Rightarrow> pyval" where
  "approval_context r =
     PDict [(u ''policy_name'', pr_policy_name r), (u ''reason'', pr_reason r),
            (u ''approvers'', case pr_approvers r of Some (a # as) \<Rightarrow> PList (a # as) | _ \<Rightarrow> PNone)]"

definition in_process_check_grant ::
    "('e, 'd) engine \<Rightarrow> pystr \<Rightarrow> pystr \<Rightarrow> scope \<Rightarrow> 'e \<Rightarrow> grant result \<times> 'e" where
  "in_process_check_grant en aid action s e =
     (case en_lookup en aid e of
        (Inl x, e1) \<Rightarrow> (Inl x, e1)
      | (Inr None, e1) \<Rightarrow> (Inr (deny_grant (u ''Agent not found in registry'')), e1)
      | (Inr (Some name), e1) \<Rightarrow>
          (case en_check en name action resource_action (scope_to_parameters s) e1 of
             (Inl x, e2) \<Rightarrow> (Inl x, e2)
           | (Inr r, e2) \<Rightarrow>
               (case dict_get (decision_map en) (pr_decision r) of
                  None \<Rightarrow>
                    (Inr (deny_grant (u ''Unrecognized policy decision: '' @ en_repr en (pr_decision r))), e2)
                | Some d \<Rightarrow>
                    (Inr \<lparr>gr_decision = d, gr_reason = pr_reason r,
                          gr_approval_context =
                            (if pr_decision r = en_require_approval en then approval_context r
                             else PNone)\<rparr>, e2))))"

section \<open>The contract: a grant other than deny is the engine's own answer\<close>

text \<open>
  What a client of \<^verbatim>\<open>PresidiumClient\<close> may rely on. \<open>answers\<close> says that the governance side,
  asked about this agent, action and scope, answered with that decision.
\<close>

locale grant_source =
  fixes check :: "pystr \<Rightarrow> pystr \<Rightarrow> scope \<Rightarrow> 'p \<Rightarrow> grant result \<times> 'p"
    and answers :: "pystr \<Rightarrow> pystr \<Rightarrow> scope \<Rightarrow> 'p \<Rightarrow> decision \<Rightarrow> bool"
  assumes not_deny_answered:
    "check aid action s p = (Inr g, p') \<Longrightarrow> gr_decision g \<noteq> Deny \<Longrightarrow>
     answers aid action s p (gr_decision g)"
begin

lemma allow_answered:
  "check aid action s p = (Inr g, p') \<Longrightarrow> gr_decision g = Allow \<Longrightarrow> answers aid action s p Allow"
  by (metis decision.distinct(1) not_deny_answered)

lemma silent_denies:
  "check aid action s p = (Inr g, p') \<Longrightarrow> (\<And>d. \<not> answers aid action s p d) \<Longrightarrow> gr_decision g = Deny"
  by (metis not_deny_answered)

end

text \<open>The service answers a decision by its name, in a good response to the request; the engine by the member of its
  own enumeration.\<close>

fun decision_str :: "decision \<Rightarrow> pystr" where
  "decision_str Allow = u ''allow''"
| "decision_str Deny = u ''deny''"
| "decision_str RequireApproval = u ''require_approval''"

definition rest_answers ::
    "('c, 'r) http_api \<Rightarrow> real \<Rightarrow> pystr \<Rightarrow> pystr \<Rightarrow> scope \<Rightarrow> 'c rest_client \<Rightarrow> decision \<Rightarrow> bool" where
  "rest_answers api now aid action s rc d \<longleftrightarrow>
     fst (allow_request now (rc_breaker rc)) = Inr True \<and>
     (case fst (api_post api (rc_base_url rc @ u ''/v1/check_grant'') (grant_request aid action s) (rc_client rc)) of
        Inl e \<Rightarrow> False
      | Inr resp \<Rightarrow>
          api_raise_for_status api resp = Inr () \<and>
          (case api_json api resp of
             Inr (PDict b) \<Rightarrow> dict_get b (u ''decision'') = Some (PStr (decision_str d))
           | _ \<Rightarrow> False))"

fun engine_decision :: "('e, 'd) engine \<Rightarrow> decision \<Rightarrow> 'd" where
  "engine_decision en Allow = en_allow en"
| "engine_decision en Deny = en_deny en"
| "engine_decision en RequireApproval = en_require_approval en"

definition in_process_answers ::
    "('e, 'd) engine \<Rightarrow> pystr \<Rightarrow> pystr \<Rightarrow> scope \<Rightarrow> 'e \<Rightarrow> decision \<Rightarrow> bool" where
  "in_process_answers en aid action s e d \<longleftrightarrow>
     (case en_lookup en aid e of
        (Inr (Some name), e1) \<Rightarrow>
          (case fst (en_check en name (action) resource_action (scope_to_parameters s) e1) of
             Inr r \<Rightarrow> pr_decision r = engine_decision en d
           | Inl _ \<Rightarrow> False)
      | _ \<Rightarrow> False)"

lemma body_decision_PStr:
  assumes "body_decision body = PStr v"
  obtains b where "body = PDict b" and "dict_get b (u ''decision'') = Some (PStr v)"
  using assms
  by (cases body) (auto simp: body_decision_def py_get_def dict_get_or_def simp del: u_simps
      split: option.splits)

lemma decision_of_Some: "decision_of x = Some d \<Longrightarrow> x = PStr (decision_str d)"
  by (cases x) (auto split: if_splits)

lemma decision_map_Some: "dict_get (decision_map en) x = Some d \<Longrightarrow> x = engine_decision en d"
  by (auto simp: decision_map_def map_of_dict_set split: if_splits)

lemma check_decision_Some:
  assumes "check_decision (body_decision body) = Inr (Some d)"
  shows "\<exists>b. body = PDict b \<and> dict_get b (u ''decision'') = Some (PStr (decision_str d))"
proof -
  from assms have d: "decision_of (body_decision body) = Some d"
    by (cases "body_decision body") (auto simp del: u_simps decision_of.simps(1))
  then have "body_decision body = PStr (decision_str d)" by (rule decision_of_Some)
  then show ?thesis by (rule body_decision_PStr) blast
qed

lemma rest_not_deny_answered:
  assumes "rest_check_grant api now1 now2 aid action s rc = (Inr g, rc')" and "gr_decision g \<noteq> Deny"
  shows "rest_answers api now1 aid action s rc (gr_decision g)"
proof -
  obtain q b where a: "allow_request now1 (rc_breaker rc) = (q, b)" by (metis prod.exhaust)
  with assms have q: "q = Inr True"
    by (auto simp: rest_check_grant_def deny_grant_def split: sum.splits bool.splits simp del: u_simps)
  obtain f c where f: "rest_fetch api (rc_base_url rc @ u ''/v1/check_grant'')
      (grant_request aid action s) (rc_client rc) = (f, c)" by (metis prod.exhaust)
  from assms a q f obtain body where body: "f = Inr body"
    by (auto simp: rest_check_grant_def deny_grant_def split: sum.splits if_splits simp del: u_simps)
  with assms a q f have "check_decision (body_decision body) = Inr (Some (gr_decision g))"
    by (auto simp: rest_check_grant_def deny_grant_def split: sum.splits option.splits simp del: u_simps)
  from check_decision_Some [OF this] a q f body show ?thesis
    by (auto simp: rest_answers_def rest_fetch_def simp del: u_simps split: prod.splits sum.splits)
qed

lemma in_process_not_deny_answered:
  assumes "in_process_check_grant en aid action s e = (Inr g, e')" and "gr_decision g \<noteq> Deny"
  shows "in_process_answers en aid action s e (gr_decision g)"
  using assms
  by (auto simp: in_process_check_grant_def in_process_answers_def deny_grant_def
      dest!: decision_map_Some split: prod.splits sum.splits option.splits simp del: u_simps)

interpretation rest: grant_source "rest_check_grant api now1 now2" "rest_answers api now1"
  for api now1 now2
  by unfold_locales (rule rest_not_deny_answered)

interpretation in_process: grant_source "in_process_check_grant en" "in_process_answers en"
  for en
  by unfold_locales (rule in_process_not_deny_answered)

section \<open>Outages\<close>

text \<open>
  A check as a caller makes it, and a sequence of them; \<open>outage api\<close> is a network on which
  every post fails the way \<^verbatim>\<open>httpx\<close> reports connection errors and timeouts.
\<close>

record check_call =
  ck_now1 :: real
  ck_now2 :: real
  ck_agent :: pystr
  ck_action :: pystr
  ck_scope :: scope

fun rest_run :: "('c, 'r) http_api \<Rightarrow> check_call list \<Rightarrow> 'c rest_client \<Rightarrow> 'c rest_client" where
  "rest_run api [] rc = rc"
| "rest_run api (k # ks) rc =
     rest_run api ks
       (snd (rest_check_grant api (ck_now1 k) (ck_now2 k) (ck_agent k) (ck_action k) (ck_scope k) rc))"

definition outage :: "('c, 'r) http_api \<Rightarrow> bool" where
  "outage api \<longleftrightarrow> (\<forall>url req c. \<exists>e c'. api_post api url req c = (Inl e, c') \<and> transport_failure e)"

lemma outage_check:
  assumes "outage api" and "br_state (rc_breaker rc) \<noteq> Open"
  shows "\<exists>g. fst (rest_check_grant api now1 now2 aid action s rc) = Inr g \<and> gr_decision g = Deny"
    and "rc_breaker (snd (rest_check_grant api now1 now2 aid action s rc)) =
           record_failure now2 (rc_breaker rc)"
proof -
  obtain e c' where "api_post api (rc_base_url rc @ u ''/v1/check_grant'') (grant_request aid action s)
      (rc_client rc) = (Inl e, c')" and e: "transport_failure e"
    using assms(1) unfolding outage_def by metis
  then have f: "rest_fetch api (rc_base_url rc @ u ''/v1/check_grant'') (grant_request aid action s)
      (rc_client rc) = (Inl e, c')" by (simp add: rest_fetch_def)
  from f e not_open_admits [OF assms(2)]
  show "\<exists>g. fst (rest_check_grant api now1 now2 aid action s rc) = Inr g \<and> gr_decision g = Deny"
    and "rc_breaker (snd (rest_check_grant api now1 now2 aid action s rc)) =
           record_failure now2 (rc_breaker rc)"
    by (simp_all add: rest_check_grant_def deny_grant_def del: u_simps)
qed

lemma outage_run:
  assumes "outage api" and "br_state (rc_breaker rc) = Closed"
    and "br_consecutive_failures (rc_breaker rc) + int (length ks) < br_failure_threshold (rc_breaker rc)"
  shows "rc_breaker (rest_run api ks rc) =
           (rc_breaker rc)\<lparr>br_consecutive_failures :=
              br_consecutive_failures (rc_breaker rc) + int (length ks)\<rparr>"
  using assms(2,3)
proof (induction ks arbitrary: rc)
  case Nil
  then show ?case by simp
next
  case (Cons k ks)
  let ?rc = "snd (rest_check_grant api (ck_now1 k) (ck_now2 k) (ck_agent k) (ck_action k) (ck_scope k) rc)"
  have "rc_breaker ?rc = record_failure (ck_now2 k) (rc_breaker rc)"
    using Cons.prems by (intro outage_check(2) assms(1)) simp
  also have "\<dots> = (rc_breaker rc)\<lparr>br_consecutive_failures := br_consecutive_failures (rc_breaker rc) + 1\<rparr>"
    using Cons.prems by (simp add: record_failure_def)
  finally show ?case
    using Cons.IH [of ?rc] Cons.prems by (simp add: algebra_simps)
qed

lemma rest_run_append: "rest_run api (ks @ ls) rc = rest_run api ls (rest_run api ks rc)"
  by (induction ks arbitrary: rc) auto

lemma outage_trips:
  assumes "outage api" and "int (length ks) + 1 = n"
  shows "br_state (rc_breaker (rest_run api (ks @ [k]) (new_rest_client url c n cool))) = Open"
    and "br_opened_at (rc_breaker (rest_run api (ks @ [k]) (new_rest_client url c n cool))) = Some (ck_now2 k)"
    and "br_cooldown_seconds (rc_breaker (rest_run api (ks @ [k]) (new_rest_client url c n cool))) = cool"
proof -
  let ?rc = "new_rest_client url c n cool"
  have new: "rc_breaker ?rc = new_breaker n cool" by (simp add: new_rest_client_def)
  have b: "rc_breaker (rest_run api ks ?rc) = (rc_breaker ?rc)\<lparr>br_consecutive_failures := int (length ks)\<rparr>"
    using outage_run [OF assms(1), of ?rc ks] assms(2) by (simp add: new new_breaker_def)
  then have "br_state (rc_breaker (rest_run api ks ?rc)) \<noteq> Open" by (simp add: new new_breaker_def)
  from outage_check(2) [OF assms(1) this] b assms(2)
  have "rc_breaker (rest_run api (ks @ [k]) ?rc) =
      (new_breaker n cool)\<lparr>br_consecutive_failures := n, br_state := Open, br_opened_at := Some (ck_now2 k)\<rparr>"
    by (simp add: rest_run_append record_failure_def new new_breaker_def)
  then show "br_state (rc_breaker (rest_run api (ks @ [k]) ?rc)) = Open"
    and "br_opened_at (rc_breaker (rest_run api (ks @ [k]) ?rc)) = Some (ck_now2 k)"
    and "br_cooldown_seconds (rc_breaker (rest_run api (ks @ [k]) ?rc)) = cool"
    by (simp_all add: new_breaker_def)
qed

lemma open_check:
  assumes "br_state (rc_breaker rc) = Open" "br_opened_at (rc_breaker rc) = Some t"
    and "now1 - t < br_cooldown_seconds (rc_breaker rc)"
  shows "rest_check_grant api now1 now2 aid action s rc =
           (Inr (deny_grant (u ''Presidium unreachable (circuit breaker open)'')), rc)"
  using open_refuses [OF assms] by (simp add: rest_check_grant_def del: u_simps)

text \<open>What \<open>rest_check_grant\<close> can raise, when the breaker itself cannot.\<close>

lemma breaker_opened_at: "br_state (breaker_run (new_breaker n c) es) = Open \<Longrightarrow>
    br_opened_at (breaker_run (new_breaker n c) es) \<noteq> None"
proof -
  have "br_state b = Open \<longrightarrow> br_opened_at b \<noteq> None \<Longrightarrow>
      br_state (breaker_run b es) = Open \<longrightarrow> br_opened_at (breaker_run b es) \<noteq> None" for b
  proof (induction es arbitrary: b)
    case (Cons e es)
    have "br_state (breaker_step b e) = Open \<longrightarrow> br_opened_at (breaker_step b e) \<noteq> None"
      using Cons.prems by (cases e) (auto simp: breaker_defs split: option.split)
    from Cons.IH [OF this] show ?case by simp
  qed simp
  then show "br_state (breaker_run (new_breaker n c) es) = Open \<Longrightarrow>
    br_opened_at (breaker_run (new_breaker n c) es) \<noteq> None"
    by (simp add: new_breaker_def)
qed

lemma breaker_history_total: "\<exists>ok b. allow_request now (breaker_run (new_breaker n c) es) = (Inr ok, b)"
  using breaker_opened_at [of n c es] by (auto simp: allow_request_def)

lemma check_decision_raises:
  "check_decision v = Inl e \<Longrightarrow> e = raised TypeError [] \<and> ((\<exists>vs. v = PList vs) \<or> (\<exists>d. v = PDict d))"
  by (cases v) auto

section \<open>Properties\<close>

text \<open>C28: the REST client is fail-closed. It returns a decision other than deny only when the
  breaker admitted the request, the post succeeded with a good status, and the response is a
  JSON object whose \<^verbatim>\<open>decision\<close> is exactly the string of that decision; every other outcome
  that returns is a denial.\<close>

theorem rest_client_fail_closed:
  assumes "rest_check_grant api now1 now2 aid action s rc = (Inr g, rc')" and "gr_decision g \<noteq> Deny"
  shows "rest_answers api now1 aid action s rc (gr_decision g)"
  using assms by (rule rest.not_deny_answered)

definition demo_api :: "pyval \<Rightarrow> (nat, pyval) http_api" where
  "demo_api body = \<lparr>api_post = (\<lambda>url req n. (Inr body, Suc n)), api_raise_for_status = (\<lambda>r. Inr ()),
     api_json = (\<lambda>r. Inr r), api_str = (\<lambda>e. []), api_repr = (\<lambda>v. [])\<rparr>"

definition allow_api :: "(nat, pyval) http_api" where
  "allow_api = demo_api (PDict [(u ''decision'', PStr (u ''allow''))])"

lemma allow_api_grants:
  "rest_check_grant allow_api 0 0 aid action s (new_rest_client (u ''http://p/'') n 5 30) =
     (Inr \<lparr>gr_decision = Allow, gr_reason = PNone, gr_approval_context = PNone\<rparr>,
      new_rest_client (u ''http://p/'') (Suc n) 5 30)"
  by (simp add: allow_api_def rest_check_grant_def demo_api_def new_rest_client_def new_breaker_def
      allow_request_def rest_fetch_def body_decision_def body_field_def py_get_def dict_get_or_def
      record_success_def)

lemma rest_client_fail_closed_witness:
  "rest_answers allow_api 0 [97] [120] (agent_scope [97]) (new_rest_client (u ''http://p/'') 0 5 30) Allow"
  using rest_client_fail_closed [OF allow_api_grants] by simp

text \<open>C29: an outage trips the breaker. After as many checks in a row as the threshold, all of them
  ending in a transport failure, a check within the cooldown is denied without touching the
  network or the client's state; the breaker admits a request again exactly from the end of the
  cooldown on.\<close>

theorem outage_opens_circuit:
  assumes "outage api" and "int (length ks) + 1 = n"
    and "rc = rest_run api (ks @ [k]) (new_rest_client url c n cool)"
  shows "(now1 - ck_now2 k < cool \<longrightarrow>
      rest_check_grant api now1 now2 aid action s rc =
        (Inr (deny_grant (u ''Presidium unreachable (circuit breaker open)'')), rc)) \<and>
    fst (allow_request now1 (rc_breaker rc)) = Inr (cool \<le> now1 - ck_now2 k)"
  using outage_trips [OF assms(1,2)] assms(3)
  by (auto simp: open_check allow_request_def simp del: u_simps)

definition down_api :: "(nat, pyval) http_api" where
  "down_api = \<lparr>api_post = (\<lambda>url req n. (Inl (raised HTTPError []), Suc n)),
     api_raise_for_status = (\<lambda>r. Inr ()), api_json = (\<lambda>r. Inr r), api_str = (\<lambda>e. []),
     api_repr = (\<lambda>v. [])\<rparr>"

definition demo_check :: "real \<Rightarrow> check_call" where
  "demo_check t = \<lparr>ck_now1 = t, ck_now2 = t, ck_agent = [97], ck_action = [120],
     ck_scope = agent_scope [97]\<rparr>"

lemma outage_opens_circuit_witness:
  "rest_check_grant down_api 12 12 [97] [120] (agent_scope [97])
      (rest_run down_api ([demo_check 1] @ [demo_check 2]) (new_rest_client (u ''http://p'') 0 2 30)) =
     (Inr (deny_grant (u ''Presidium unreachable (circuit breaker open)'')),
      rest_run down_api ([demo_check 1] @ [demo_check 2]) (new_rest_client (u ''http://p'') 0 2 30))"
proof -
  have o: "outage down_api"
    by (simp add: outage_def down_api_def transport_failure_def exc_simps)
  show ?thesis
    by (rule outage_opens_circuit [OF o _ refl, THEN conjunct1, THEN mp]) (simp_all add: demo_check_def)
qed

text \<open>the breaker's bookkeeping is consistent after any interleaving of requests and
  outcomes: it is closed exactly while the consecutive failures are below the threshold, an
  open breaker knows when it opened, and so asking it never raises.\<close>

lemma breaker_history_ok:
  assumes "1 \<le> n"
  shows "breaker_ok (breaker_run (new_breaker n c) es) \<and>
    (\<exists>ok b. allow_request now (breaker_run (new_breaker n c) es) = (Inr ok, b))"
proof -
  have "breaker_ok (breaker_run (new_breaker n c) es)"
    by (rule breaker_run_ok) (use assms in \<open>simp_all add: new_breaker_ok, simp add: new_breaker_def\<close>)
  with breaker_history_total show ?thesis by blast
qed

lemma breaker_history_ok_witness:
  "breaker_ok (breaker_run (new_breaker 2 30) [Ask 0, Ask 0, Failed 1, Failed 2, Ask 3, Ask 40, Failed 41])"
proof -
  have "(1 :: int) \<le> 2" by simp
  from breaker_history_ok [OF this] show ?thesis by blast
qed

text \<open>what a check can raise. With a breaker in any state a history can reach, the client
  raises only an exception of the transport that is neither an HTTP error nor a value error, or
  the type error of a \<^verbatim>\<open>decision\<close> that is a list or an object.\<close>

lemma rest_client_raises_only:
  assumes "rc_breaker rc = breaker_run (new_breaker n cool) es"
    and "rest_check_grant api now1 now2 aid action s rc = (Inl e, rc')"
    and "fst (rest_fetch api (rc_base_url rc @ u ''/v1/check_grant'') (grant_request aid action s)
           (rc_client rc)) = f"
  shows "(f = Inl e \<and> \<not> transport_failure e) \<or>
    (\<exists>body. f = Inr body \<and> e = raised TypeError [] \<and>
       ((\<exists>vs. body_decision body = PList vs) \<or> (\<exists>d. body_decision body = PDict d)))"
proof -
  from assms(1) obtain ok b where a: "allow_request now1 (rc_breaker rc) = (Inr ok, b)"
    using breaker_history_total by metis
  with assms(2) have "ok" by (cases ok) (auto simp: rest_check_grant_def simp del: u_simps)
  with a assms(2,3) show ?thesis
    by (auto simp: rest_check_grant_def simp del: u_simps dest!: check_decision_raises
        split: prod.splits sum.splits option.splits if_splits)
qed

definition odd_api :: "(nat, pyval) http_api" where
  "odd_api = down_api\<lparr>api_post := (\<lambda>url req n. (Inl (raised OtherError []), n))\<rparr>"

lemma rest_client_raises_only_witness:
  "fst (rest_check_grant odd_api 0 0 [97] [120] (agent_scope [97]) (new_rest_client [] 0 5 30)) =
     Inl (raised OtherError []) \<and> \<not> transport_failure (raised OtherError [])"
proof -
  define rc :: "nat rest_client" where "rc = new_rest_client [] 0 5 30"
  have "rc_breaker rc = breaker_run (new_breaker 5 30) []"
    by (simp add: rc_def new_rest_client_def)
  moreover have f: "rest_fetch odd_api (rc_base_url rc @ u ''/v1/check_grant'')
      (grant_request [97] [120] (agent_scope [97])) (rc_client rc) = (Inl (raised OtherError []), 0)"
    by (simp add: rest_fetch_def odd_api_def rc_def new_rest_client_def)
  then have "rest_check_grant odd_api 0 0 [97] [120] (agent_scope [97]) rc = (Inl (raised OtherError []), rc)"
    by (simp add: rest_check_grant_def transport_failure_def exc_simps allow_request_def rc_def
        new_rest_client_def new_breaker_def del: u_simps)
  ultimately show ?thesis
    using rest_client_raises_only [of rc 5 30 "[]" odd_api 0 0 "[97]" "[120]" "agent_scope [97]"
        "raised OtherError []" rc, OF _ _ refl] f
    by (simp add: rc_def)
qed

text \<open>a response whose \<^verbatim>\<open>decision\<close> is a list or an object escapes as a type error, although
  the client is documented never to raise; and the breaker does not count it as a failure.\<close>

lemma unhashable_decision_escapes:
  assumes "allow_request now1 (rc_breaker rc) = (Inr True, b)"
    and "rest_fetch api (rc_base_url rc @ u ''/v1/check_grant'') (grant_request aid action s)
           (rc_client rc) = (Inr (PDict body), c)"
    and "dict_get body (u ''decision'') = Some (PList vs)"
  shows "rest_check_grant api now1 now2 aid action s rc =
    (Inl (raised TypeError []), rc\<lparr>rc_client := c, rc_breaker := b\<rparr>)"
  using assms
  by (simp add: rest_check_grant_def body_decision_def py_get_def dict_get_or_def del: u_simps)

lemma unhashable_decision_escapes_witness:
  "rest_check_grant (demo_api (PDict [(u ''decision'', PList [])])) 0 0 [97] [120] (agent_scope [97])
     (new_rest_client [] 0 5 30) =
   (Inl (raised TypeError []), (new_rest_client [] 0 5 30)\<lparr>rc_client := 1\<rparr>)"
  by (subst unhashable_decision_escapes [where b = "new_breaker 5 30" and c = 1
        and body = "[(u ''decision'', PList [])]" and vs = "[]"])
    (simp_all add: new_rest_client_def allow_request_def new_breaker_def rest_fetch_def demo_api_def
      del: u_simps)

text \<open>a half-open breaker does not let exactly one call through. After the cooldown every
  request made before the first outcome is reported is admitted.\<close>

lemma half_open_admits_all:
  assumes "br_state b = Open" and "br_opened_at b = Some t" and "br_cooldown_seconds b \<le> now - t"
  shows "br_state (breaker_run b (map Ask (now # later))) = HalfOpen \<and>
    fst (allow_request now' (breaker_run b (map Ask (now # later)))) = Inr True"
proof -
  have "breaker_run b' (map Ask later) = b'" if "br_state b' = HalfOpen" for b'
    using that by (induction later) (auto simp: allow_request_def)
  then show ?thesis using assms by (simp add: allow_request_def)
qed

lemma half_open_admits_all_witness:
  "fst (allow_request 40 (breaker_run ((new_breaker 1 30)\<lparr>br_state := Open, br_opened_at := Some 0\<rparr>)
          (map Ask [31, 32, 33]))) = Inr True"
  using half_open_admits_all [of "(new_breaker 1 30)\<lparr>br_state := Open, br_opened_at := Some 0\<rparr>" 0 31
      "[32, 33]" 40]
  by (simp add: new_breaker_def)

text \<open>the in-process client translates the engine's verdict one to one: an unregistered agent
  and a verdict outside the three known members are denials, every other grant has the decision
  of the verdict, the engine's reason, and an approval context exactly for a required approval.\<close>

lemma in_process_translates:
  assumes "policy_enum_ok en" and "en_lookup en aid e = (Inr (Some name), e1)"
    and "en_check en name action (u ''invoke'') (scope_to_dict s) e1 = (Inr r, e2)"
  shows "\<exists>g. in_process_check_grant en aid action s e = (Inr g, e2) \<and>
    (gr_decision g = Allow \<longleftrightarrow> pr_decision r = en_allow en) \<and>
    (gr_decision g = RequireApproval \<longleftrightarrow> pr_decision r = en_require_approval en) \<and>
    (gr_approval_context g \<noteq> PNone \<longleftrightarrow> gr_decision g = RequireApproval)"
  using assms
  by (auto simp: in_process_check_grant_def decision_map_def policy_enum_ok_def scope_to_dict_eq
      resource_action_def approval_context_def deny_grant_def simp del: u_simps)

definition demo_engine :: "(nat, nat) engine" where
  "demo_engine = \<lparr>en_lookup = (\<lambda>a n. (Inr (Some a), n)),
     en_check = (\<lambda>a r act ps n. (Inr \<lparr>pr_decision = 2, pr_policy_name = PNone, pr_reason = PNone,
        pr_approvers = None\<rparr>, Suc n)),
     en_allow = 0, en_deny = 1, en_require_approval = 2, en_repr = (\<lambda>d. [])\<rparr>"

lemma in_process_translates_witness:
  "\<exists>g. in_process_check_grant demo_engine [97] [120] (agent_scope [97]) 0 = (Inr g, 1) \<and>
     gr_decision g = RequireApproval"
  using in_process_translates [of demo_engine "[97]" 0 "[97]" 0 "[120]" "agent_scope [97]"]
  by (force simp: policy_enum_ok_def demo_engine_def)

text \<open>both transports show a policy the same parameters: the set fields of the scope and its
  extra entries, each under its own name, and nothing else.\<close>

lemma transports_agree_on_scope:
  assumes "scope_ok s"
  shows "scope_to_dict s = scope_to_parameters s \<and> dict_get (scope_to_dict s) k = scope_field s k"
  using assms by (simp_all add: scope_to_dict_eq scope_to_parameters_lookup)

lemma transports_agree_on_scope_witness:
  "dict_get (scope_to_dict ((agent_scope [97])\<lparr>sc_extra := [([120], [121])]\<rparr>)) [120] = Some [121]"
  by (subst transports_agree_on_scope [THEN conjunct2])
    (simp_all add: scope_ok_def agent_scope_def reserved_field_names_def scope_field_def)

end
