(* ===== verification/PoolTasks.thy ===== *)
theory PoolTasks
  imports SandboxPool
begin

text \<open>
  The pool of \<^verbatim>\<open>src/fabrica/sandbox/pool.py\<close> under concurrent tasks: a step relation over the
  sections between two awaits (\<open>try_acquire\<close>, \<open>finish_release\<close>, \<open>put_fresh\<close>). Its state adds to the
  pool who holds which handle, the refills in flight and whether the lock is held across an await.
  The invariant, the reuse of instances, the ceiling and the slots that are lost are stated of every
  reachable state; the sequential operations of \<open>SandboxPool\<close> are paths of the relation.
\<close>

section \<open>The pool among its tasks\<close>

text \<open>
  The condition's lock is held across an await by a cold start and by the termination of a surplus
  instance, and by nothing else once the pool is in use. A handle is in exactly one place: warm,
  held by a caller, being released, booted by a refill that waits for the lock, surplus, drained
  by \<^verbatim>\<open>close\<close>, or done with. A slot is lost when it is counted and nobody will ever give it back.
\<close>

datatype lock = Free | Booting | Discarding handle

record pool_sys =
  ps_pool :: pool
  ps_lock :: lock
  ps_out :: "handle list"
  ps_ending :: "handle list"
  ps_refills :: nat
  ps_fresh :: "handle list"
  ps_doomed :: "handle list"
  ps_done :: "handle list"
  ps_lost :: nat

definition started :: "pool \<Rightarrow> pool_sys" where
  "started p =
     \<lparr>ps_pool = p, ps_lock = Free, ps_out = [], ps_ending = [], ps_refills = 0, ps_fresh = [],
      ps_doomed = [], ps_done = [], ps_lost = 0\<rparr>"

fun discarding :: "lock \<Rightarrow> handle list" where
  "discarding (Discarding h) = [h]"
| "discarding Free = []"
| "discarding Booting = []"

fun booting :: "lock \<Rightarrow> nat" where
  "booting Booting = 1"
| "booting Free = 0"
| "booting (Discarding h) = 0"

definition handles :: "pool_sys \<Rightarrow> handle list" where
  "handles s = pl_warm (ps_pool s) @ ps_out s @ ps_ending s @ ps_fresh s @ discarding (ps_lock s)
               @ ps_doomed s @ ps_done s"

text \<open>
  A backend never gives the same handle twice, and a caller releases what it holds, once: these are
  the guards of \<open>cold_booted\<close>, \<open>refill_booted\<close> and \<open>release_begins\<close>. A cold start is lost when the
  boot raises or the timeout cancels it; a release is lost when \<^verbatim>\<open>terminate\<close> raises.
\<close>

inductive pool_step :: "pool_sys \<Rightarrow> pool_sys \<Rightarrow> bool" where
  warm_acquired: "\<lbrakk>ps_lock s = Free; try_acquire (ps_pool s) = (WarmHit h, p)\<rbrakk>
    \<Longrightarrow> pool_step s (s\<lparr>ps_pool := p, ps_out := h # ps_out s\<rparr>)"
| cold_begins: "\<lbrakk>ps_lock s = Free; try_acquire (ps_pool s) = (ColdStart, p)\<rbrakk>
    \<Longrightarrow> pool_step s (s\<lparr>ps_pool := p, ps_lock := Booting\<rparr>)"
| cold_booted: "\<lbrakk>ps_lock s = Booting; h \<notin> set (handles s)\<rbrakk>
    \<Longrightarrow> pool_step s (s\<lparr>ps_lock := Free, ps_out := h # ps_out s\<rparr>)"
| cold_lost: "ps_lock s = Booting
    \<Longrightarrow> pool_step s (s\<lparr>ps_lock := Free, ps_lost := ps_lost s + 1\<rparr>)"
| release_begins: "h \<in> set (ps_out s)
    \<Longrightarrow> pool_step s (s\<lparr>ps_out := remove1 h (ps_out s), ps_ending := h # ps_ending s\<rparr>)"
| release_ends: "\<lbrakk>h \<in> set (ps_ending s); ps_lock s = Free; finish_release (ps_pool s) = (needs_refill, p)\<rbrakk>
    \<Longrightarrow> pool_step s (s\<lparr>ps_pool := p, ps_ending := remove1 h (ps_ending s), ps_done := h # ps_done s,
                       ps_refills := ps_refills s + (if needs_refill then 1 else 0)\<rparr>)"
| release_lost: "h \<in> set (ps_ending s)
    \<Longrightarrow> pool_step s (s\<lparr>ps_ending := remove1 h (ps_ending s), ps_done := h # ps_done s,
                       ps_lost := ps_lost s + 1\<rparr>)"
| refill_booted: "\<lbrakk>ps_refills s = Suc n; h \<notin> set (handles s)\<rbrakk>
    \<Longrightarrow> pool_step s (s\<lparr>ps_refills := n, ps_fresh := h # ps_fresh s\<rparr>)"
| refill_failed: "ps_refills s = Suc n \<Longrightarrow> pool_step s (s\<lparr>ps_refills := n\<rparr>)"
| refill_stored: "\<lbrakk>h \<in> set (ps_fresh s); ps_lock s = Free; put_fresh h (ps_pool s) = (False, p)\<rbrakk>
    \<Longrightarrow> pool_step s (s\<lparr>ps_pool := p, ps_fresh := remove1 h (ps_fresh s)\<rparr>)"
| refill_surplus: "\<lbrakk>h \<in> set (ps_fresh s); ps_lock s = Free; put_fresh h (ps_pool s) = (True, p)\<rbrakk>
    \<Longrightarrow> pool_step s (s\<lparr>ps_lock := Discarding h, ps_fresh := remove1 h (ps_fresh s)\<rparr>)"
| surplus_ended: "ps_lock s = Discarding h
    \<Longrightarrow> pool_step s (s\<lparr>ps_lock := Free, ps_done := h # ps_done s\<rparr>)"
| close_drains: "\<lbrakk>ps_lock s = Free; pl_warm (ps_pool s) \<noteq> []\<rbrakk>
    \<Longrightarrow> pool_step s (s\<lparr>ps_pool := (ps_pool s)\<lparr>pl_warm := []\<rparr>, ps_doomed := pl_warm (ps_pool s) @ ps_doomed s\<rparr>)"
| close_ends: "h \<in> set (ps_doomed s)
    \<Longrightarrow> pool_step s (s\<lparr>ps_doomed := remove1 h (ps_doomed s), ps_done := h # ps_done s\<rparr>)"

inductive_cases pool_stepE: "pool_step s s'"

abbreviation pool_steps :: "pool_sys \<Rightarrow> pool_sys \<Rightarrow> bool" where
  "pool_steps \<equiv> pool_step\<^sup>*\<^sup>*"

subsection \<open>Invariant\<close>

definition pool_ok :: "pool_sys \<Rightarrow> bool" where
  "pool_ok s \<longleftrightarrow>
     int (length (pl_warm (ps_pool s))) \<le> max (pl_warm_size (ps_pool s)) 0 \<and>
     pl_concurrent_count (ps_pool s)
       = int (length (ps_out s)) + int (length (ps_ending s)) + int (booting (ps_lock s)) + int (ps_lost s) \<and>
     distinct (handles s)"

lemmas section_defs = try_acquire_def finish_release_def put_fresh_def

lemma length_remove1_int: "h \<in> set xs \<Longrightarrow> int (length (remove1 h xs)) = int (length xs) - 1"
  using length_pos_if_in_set [of h xs] by (simp add: length_remove1 of_nat_diff Suc_le_eq)

lemma pool_ok_started:
  "pl_concurrent_count p = 0 \<Longrightarrow> distinct (pl_warm p) \<Longrightarrow> int (length (pl_warm p)) \<le> max (pl_warm_size p) 0
   \<Longrightarrow> pool_ok (started p)"
  by (simp add: pool_ok_def started_def handles_def)

lemma snoc_last: "xs \<noteq> [] \<Longrightarrow> distinct xs \<Longrightarrow> set xs = insert (last xs) (set (butlast xs)) \<and> last xs \<notin> set (butlast xs)"
  by (cases xs rule: rev_cases) auto

lemma pool_step_ok:
  assumes "pool_step s s'" "pool_ok s"
  shows "pool_ok s'"
  using assms(1)
proof cases
  case (warm_acquired h p)
  then show ?thesis using assms(2) snoc_last [of "pl_warm (ps_pool s)"]
    by (auto simp: pool_ok_def handles_def section_defs distinct_butlast split: if_splits)
next
  case (refill_stored h p)
  then show ?thesis using assms(2)
    by (auto simp: pool_ok_def handles_def section_defs length_remove1_int distinct_remove1 split: if_splits
             dest: notin_set_remove1)
next
  case (release_ends h n p)
  then show ?thesis using assms(2)
    by (auto simp: pool_ok_def handles_def section_defs length_remove1_int distinct_remove1 split: if_splits
             dest: notin_set_remove1)
qed (use assms(2) in \<open>auto simp: pool_ok_def handles_def section_defs length_remove1_int distinct_remove1
       split: if_splits dest: notin_set_remove1\<close>)

lemma pool_steps_ok: "pool_steps s s' \<Longrightarrow> pool_ok s \<Longrightarrow> pool_ok s'"
  by (induction rule: rtranclp_induct) (auto intro: pool_step_ok)

subsection \<open>An instance is never reused\<close>

definition spent :: "pool_sys \<Rightarrow> handle set" where
  "spent s = set (ps_ending s) \<union> set (ps_doomed s) \<union> set (ps_done s)"

lemma pool_step_spent: "pool_step s s' \<Longrightarrow> spent s \<subseteq> spent s'"
  by (erule pool_stepE) (auto simp: spent_def dest: notin_set_remove1 in_set_remove1)

lemma pool_steps_spent: "pool_steps s s' \<Longrightarrow> spent s \<subseteq> spent s'"
  by (induction rule: rtranclp_induct) (auto dest: pool_step_spent)

lemma pool_ok_spent: "pool_ok s \<Longrightarrow> spent s \<inter> (set (pl_warm (ps_pool s)) \<union> set (ps_out s)) = {}"
  by (auto simp: pool_ok_def spent_def handles_def)

subsection \<open>The ceiling\<close>

lemma pool_step_limits:
  "pool_step s s' \<Longrightarrow> pl_max_concurrent (ps_pool s') = pl_max_concurrent (ps_pool s)
                    \<and> pl_warm_size (ps_pool s') = pl_warm_size (ps_pool s)"
  by (erule pool_stepE) (auto simp: section_defs split: if_splits)

lemma pool_steps_limits:
  "pool_steps s s' \<Longrightarrow> pl_max_concurrent (ps_pool s') = pl_max_concurrent (ps_pool s)
                    \<and> pl_warm_size (ps_pool s') = pl_warm_size (ps_pool s)"
  by (induction rule: rtranclp_induct) (auto dest: pool_step_limits)

lemma pool_step_ceiling:
  "pool_step s s' \<Longrightarrow> pl_warm (ps_pool s) = [] \<Longrightarrow> pl_concurrent_count (ps_pool s) \<le> pl_max_concurrent (ps_pool s)
   \<Longrightarrow> pl_concurrent_count (ps_pool s') \<le> pl_max_concurrent (ps_pool s')"
  by (erule pool_stepE) (auto simp: section_defs split: if_splits)

lemma pool_steps_ceiling:
  assumes "pool_steps s s'" "pool_ok s" "pl_warm_size (ps_pool s) \<le> 0"
    and "pl_concurrent_count (ps_pool s) \<le> pl_max_concurrent (ps_pool s)"
  shows "pl_concurrent_count (ps_pool s') \<le> pl_max_concurrent (ps_pool s')"
  using assms(1)
proof (induction rule: rtranclp_induct)
  case base
  then show ?case by (rule assms(4))
next
  case (step y z)
  have "pl_warm (ps_pool y) = []"
    using pool_steps_ok [OF step.hyps(1) assms(2)] pool_steps_limits [OF step.hyps(1)] assms(3)
    by (simp add: pool_ok_def)
  with step show ?case by (blast intro: pool_step_ceiling)
qed

text \<open>A pool at rest but for \<open>o\<close> held handles, \<open>r\<close> refills in flight and \<open>f\<close> that have booted.\<close>

definition at_rest :: "int \<Rightarrow> int \<Rightarrow> nat \<Rightarrow> nat \<Rightarrow> nat \<Rightarrow> pool_sys \<Rightarrow> bool" where
  "at_rest ws mc n r f s \<longleftrightarrow>
     pl_warm (ps_pool s) = [] \<and> pl_warm_size (ps_pool s) = ws \<and> pl_max_concurrent (ps_pool s) = mc \<and>
     ps_lock s = Free \<and> ps_ending s = [] \<and> ps_lost s = 0 \<and> length (ps_out s) = n \<and>
     pl_concurrent_count (ps_pool s) = int n \<and> ps_refills s = r \<and> length (ps_fresh s) = f"

lemma fresh_handle: "\<exists>h :: handle. h \<notin> set xs"
proof -
  have "inj (\<lambda>n. \<lparr>h_id = replicate n (0 :: nat), h_tier = 0\<rparr>)"
    by (rule injI) (metis handle.ext_inject length_replicate)
  then have "infinite (UNIV :: handle set)"
    by (meson finite_subset finite_imageD infinite_UNIV_nat subset_UNIV)
  then show ?thesis by (meson List.finite_set ex_new_if_finite)
qed

lemma two_steps: "pool_step s t \<Longrightarrow> pool_step t v \<Longrightarrow> pool_steps s v"
  by (meson r_into_rtranclp rtranclp.rtrancl_into_rtrancl)

lemma rest_release:
  assumes "at_rest ws mc (Suc n) r f s" "1 \<le> ws"
  shows "\<exists>s'. pool_steps s s' \<and> at_rest ws mc n (Suc r) f s'"
proof -
  obtain h hs where out: "ps_out s = h # hs" using assms(1) by (cases "ps_out s") (auto simp: at_rest_def)
  define t where "t = s\<lparr>ps_out := remove1 h (ps_out s), ps_ending := h # ps_ending s\<rparr>"
  have 1: "pool_step s t" unfolding t_def by (rule release_begins) (simp add: out)
  obtain needs p where fin: "finish_release (ps_pool t) = (needs, p)" by (cases "finish_release (ps_pool t)")
  have 2: "pool_step t (t\<lparr>ps_pool := p, ps_ending := remove1 h (ps_ending t), ps_done := h # ps_done t,
                          ps_refills := ps_refills t + (if needs then 1 else 0)\<rparr>)"
    by (rule release_ends [OF _ _ fin]) (use assms(1) in \<open>auto simp: t_def at_rest_def\<close>)
  show ?thesis
    by (rule exI, rule conjI, rule two_steps [OF 1 2])
       (use assms fin out in \<open>auto simp: t_def at_rest_def finish_release_def\<close>)
qed

lemma rest_boot:
  assumes "at_rest ws mc n (Suc r) f s"
  shows "\<exists>s'. pool_steps s s' \<and> at_rest ws mc n r (Suc f) s'"
proof -
  obtain h where h: "h \<notin> set (handles s)" using fresh_handle by blast
  have "pool_step s (s\<lparr>ps_refills := r, ps_fresh := h # ps_fresh s\<rparr>)"
    by (rule refill_booted [OF _ h]) (use assms in \<open>simp add: at_rest_def\<close>)
  then show ?thesis
    by (intro exI conjI, rule r_into_rtranclp) (use assms in \<open>auto simp: at_rest_def\<close>)
qed

lemma rest_cold:
  assumes "at_rest ws mc n r f s" "int n < mc"
  shows "\<exists>s'. pool_steps s s' \<and> at_rest ws mc (Suc n) r f s'"
proof -
  define t where "t = s\<lparr>ps_pool := snd (try_acquire (ps_pool s)), ps_lock := Booting\<rparr>"
  have 1: "pool_step s t" unfolding t_def
    by (rule cold_begins) (use assms in \<open>auto simp: at_rest_def try_acquire_def\<close>)
  obtain h where h: "h \<notin> set (handles t)" using fresh_handle by blast
  have 2: "pool_step t (t\<lparr>ps_lock := Free, ps_out := h # ps_out t\<rparr>)"
    by (rule cold_booted [OF _ h]) (simp add: t_def)
  show ?thesis
    by (rule exI, rule conjI, rule two_steps [OF 1 2])
       (use assms in \<open>auto simp: t_def at_rest_def try_acquire_def\<close>)
qed

lemma rest_store_acquire:
  assumes "at_rest ws mc n r (Suc f) s" "1 \<le> ws"
  shows "\<exists>s'. pool_steps s s' \<and> at_rest ws mc (Suc n) r f s'"
proof -
  obtain h hs where fresh: "ps_fresh s = h # hs" using assms(1) by (cases "ps_fresh s") (auto simp: at_rest_def)
  define t where "t = s\<lparr>ps_pool := snd (put_fresh h (ps_pool s)), ps_fresh := remove1 h (ps_fresh s)\<rparr>"
  have 1: "pool_step s t" unfolding t_def
    by (rule refill_stored) (use assms fresh in \<open>auto simp: at_rest_def put_fresh_def\<close>)
  have 2: "pool_step t (t\<lparr>ps_pool := snd (try_acquire (ps_pool t)), ps_out := h # ps_out t\<rparr>)"
    by (rule warm_acquired) (use assms in \<open>auto simp: t_def at_rest_def put_fresh_def try_acquire_def\<close>)
  show ?thesis
    by (rule exI, rule conjI, rule two_steps [OF 1 2])
       (use assms fresh in \<open>auto simp: t_def at_rest_def put_fresh_def try_acquire_def\<close>)
qed

lemma rest_release_all:
  "at_rest ws mc n r f s \<Longrightarrow> 1 \<le> ws \<Longrightarrow> \<exists>s'. pool_steps s s' \<and> at_rest ws mc 0 (r + n) f s'"
proof (induction n arbitrary: r s)
  case (Suc n)
  obtain t where "pool_steps s t" "at_rest ws mc n (Suc r) f t" using rest_release [OF Suc.prems] by blast
  with Suc.IH [of "Suc r" t] Suc.prems(2) show ?case by (auto intro: rtranclp_trans)
qed auto

lemma rest_boot_all:
  "at_rest ws mc n r f s \<Longrightarrow> \<exists>s'. pool_steps s s' \<and> at_rest ws mc n 0 (f + r) s'"
proof (induction r arbitrary: f s)
  case (Suc r)
  obtain t where "pool_steps s t" "at_rest ws mc n r (Suc f) t" using rest_boot [OF Suc.prems] by blast
  with Suc.IH [of "Suc f" t] show ?case by (auto intro: rtranclp_trans)
qed auto

lemma rest_acquire_all:
  "at_rest ws mc n r f s \<Longrightarrow> 1 \<le> ws \<Longrightarrow> \<exists>s'. pool_steps s s' \<and> at_rest ws mc (n + f) r 0 s'"
proof (induction f arbitrary: n s)
  case (Suc f)
  obtain t where "pool_steps s t" "at_rest ws mc (Suc n) r f t" using rest_store_acquire [OF Suc.prems] by blast
  with Suc.IH [of "Suc n" t] Suc.prems(2) show ?case by (auto intro: rtranclp_trans)
qed auto

text \<open>One more than before: release all, let every refill boot, start one cold, take the others warm.\<close>

lemma rest_grows:
  assumes "at_rest ws mc n 0 0 s" "1 \<le> ws" "1 \<le> mc"
  shows "\<exists>s'. pool_steps s s' \<and> at_rest ws mc (Suc n) 0 0 s'"
proof -
  obtain s1 where 1: "pool_steps s s1" "at_rest ws mc 0 n 0 s1"
    using rest_release_all [OF assms(1,2)] by auto
  obtain s2 where 2: "pool_steps s1 s2" "at_rest ws mc 0 0 n s2" using rest_boot_all [OF 1(2)] by auto
  obtain s3 where 3: "pool_steps s2 s3" "at_rest ws mc (Suc 0) 0 n s3"
    using rest_cold [OF 2(2)] assms(3) by auto
  obtain s4 where "pool_steps s3 s4" "at_rest ws mc (Suc 0 + n) 0 0 s4"
    using rest_acquire_all [OF 3(2) assms(2)] by blast
  with 1 2 3 show ?thesis by (auto intro: rtranclp_trans)
qed

lemma rest_reached:
  "1 \<le> ws \<Longrightarrow> 1 \<le> mc \<Longrightarrow> \<exists>s. pool_steps (started (new_pool ws mc tmo)) s \<and> at_rest ws mc n 0 0 s"
proof (induction n)
  case 0
  then show ?case by (intro exI [of _ "started (new_pool ws mc tmo)"]) (simp add: at_rest_def started_def new_pool_def)
next
  case (Suc n)
  then show ?case by (blast intro: rtranclp_trans dest: rest_grows)
qed

subsection \<open>Lost slots\<close>

definition drained :: "int \<Rightarrow> nat \<Rightarrow> pool_sys \<Rightarrow> bool" where
  "drained mc k s \<longleftrightarrow>
     pl_warm (ps_pool s) = [] \<and> pl_max_concurrent (ps_pool s) = mc \<and> pl_concurrent_count (ps_pool s) = int k \<and>
     ps_lock s = Free \<and> ps_out s = [] \<and> ps_ending s = [] \<and> ps_refills s = 0 \<and> ps_fresh s = [] \<and>
     ps_doomed s = [] \<and> ps_lost s = k"

lemma drained_more:
  assumes "drained mc k s" "int k < mc"
  shows "\<exists>s'. pool_steps s s' \<and> drained mc (Suc k) s'"
proof -
  define t where "t = s\<lparr>ps_pool := snd (try_acquire (ps_pool s)), ps_lock := Booting\<rparr>"
  have 1: "pool_step s t" unfolding t_def
    by (rule cold_begins) (use assms in \<open>auto simp: drained_def try_acquire_def\<close>)
  have 2: "pool_step t (t\<lparr>ps_lock := Free, ps_lost := ps_lost t + 1\<rparr>)" by (rule cold_lost) (simp add: t_def)
  show ?thesis
    by (rule exI, rule conjI, rule two_steps [OF 1 2])
       (use assms in \<open>auto simp: t_def drained_def try_acquire_def\<close>)
qed

lemma drained_reached:
  "int k \<le> mc \<Longrightarrow> \<exists>s. pool_steps (started (new_pool ws mc tmo)) s \<and> drained mc k s"
proof (induction k)
  case 0
  then show ?case by (intro exI [of _ "started (new_pool ws mc tmo)"]) (simp add: drained_def started_def new_pool_def)
next
  case (Suc k)
  then obtain s where s: "pool_steps (started (new_pool ws mc tmo)) s" "drained mc k s" by auto
  have "int k < mc" using Suc.prems by simp
  from drained_more [OF s(2) this] s(1) show ?case by (blast intro: rtranclp_trans)
qed

lemma drained_stuck: "drained mc k s \<Longrightarrow> mc \<le> int k \<Longrightarrow> \<not> pool_step s s'"
  by (auto simp: drained_def try_acquire_def elim!: pool_stepE)

section \<open>The operations are paths\<close>

text \<open>What the world of the operations shows of the tasks' state, when no task holds the lock.\<close>

definition shows_pool :: "'b pool_world \<Rightarrow> pool_sys \<Rightarrow> bool" where
  "shows_pool w s \<longleftrightarrow> ps_pool s = pw_pool w \<and> ps_refills s = pw_refills w \<and> ps_lock s = Free"

definition boots_fresh :: "('b, 't) sandbox \<Rightarrow> 'b \<Rightarrow> pool_sys \<Rightarrow> bool" where
  "boots_fresh sb b s \<longleftrightarrow> (\<forall>h. fst (snd (sb_boot_clean sb b)) = Inr h \<longrightarrow> h \<notin> set (handles s))"

lemma cold_start_path:
  assumes "shows_pool w s" "boots_fresh sb (pw_backend w) s" "try_acquire (pw_pool w) = (ColdStart, p)"
    and "cold_start sb t0 (w\<lparr>pw_pool := p\<rparr>) = (r, w')"
  shows "\<exists>s'. pool_steps s s' \<and> shows_pool w' s' \<and> ps_ending s' = ps_ending s \<and>
              ps_out s' = (case r of Inr (h, warm, t) \<Rightarrow> h # ps_out s | Inl e \<Rightarrow> ps_out s) \<and>
              (isl r \<or> ps_lost s' = ps_lost s)"
proof -
  define t where "t = s\<lparr>ps_pool := p, ps_lock := Booting\<rparr>"
  obtain d rb b where boot: "sb_boot_clean sb (pw_backend w) = (d, (rb, b))" by (metis prod.exhaust)
  have same: "set (handles t) = set (handles s)"
    using assms(1,3) by (auto simp: t_def handles_def shows_pool_def try_acquire_def split: if_splits)
  have 1: "pool_step s t" unfolding t_def
    by (rule cold_begins) (use assms(1,3) in \<open>auto simp: shows_pool_def\<close>)
  have lost: "pool_step t (t\<lparr>ps_lock := Free, ps_lost := ps_lost t + 1\<rparr>)" by (rule cold_lost) (simp add: t_def)
  have got: "pool_step t (t\<lparr>ps_lock := Free, ps_out := h # ps_out t\<rparr>)" if "rb = Inr h" for h
    by (rule cold_booted) (use assms(2) boot that same in \<open>auto simp: t_def boots_fresh_def\<close>)
  have w': "shows_pool w' (t\<lparr>ps_lock := Free\<rparr>)" "shows_pool w' (t\<lparr>ps_lock := Free, ps_out := hs\<rparr>)" for hs
    using assms(1,4) boot by (auto simp: cold_start_def on_backend_def shows_pool_def t_def split: if_splits sum.splits)
  show ?thesis
  proof (cases r)
    case (Inl e)
    then show ?thesis using w'(1)
      by (intro exI [of _ "t\<lparr>ps_lock := Free, ps_lost := ps_lost t + 1\<rparr>"] conjI two_steps [OF 1 lost])
         (auto simp: shows_pool_def t_def)
  next
    case (Inr x)
    then obtain h where h: "rb = Inr h" and x: "fst x = h"
      using assms(4) boot by (auto simp: cold_start_def on_backend_def split: if_splits sum.splits)
    then show ?thesis using w'(2) Inr
      by (intro exI [of _ "t\<lparr>ps_lock := Free, ps_out := h # ps_out t\<rparr>"] conjI two_steps [OF 1 got [OF h]])
         (auto simp: t_def split: prod.splits)
  qed
qed

lemma acquire_path:
  assumes "shows_pool w s" "boots_fresh sb (pw_backend w) s" "acquire_loop sb [] t0 w = (r, w')"
  shows "\<exists>s'. pool_steps s s' \<and> shows_pool w' s' \<and> ps_ending s' = ps_ending s \<and>
              ps_out s' = (case r of Inr (h, warm, t) \<Rightarrow> h # ps_out s | Inl e \<Rightarrow> ps_out s) \<and>
              (isl r \<or> ps_lost s' = ps_lost s)"
proof (cases "try_acquire (pw_pool w)")
  case (Pair a p)
  show ?thesis
  proof (cases a)
    case (WarmHit h)
    have "pool_step s (s\<lparr>ps_pool := p, ps_out := h # ps_out s\<rparr>)"
      by (rule warm_acquired) (use assms(1) Pair WarmHit in \<open>auto simp: shows_pool_def\<close>)
    then show ?thesis
      by (intro exI conjI, rule r_into_rtranclp)
         (use assms(1,3) Pair WarmHit in \<open>auto simp: shows_pool_def acquire_loop.simps\<close>)
  next
    case ColdStart
    then have c: "cold_start sb t0 (w\<lparr>pw_pool := p\<rparr>) = (r, w')"
      using assms(3) Pair by (simp add: acquire_loop.simps)
    from cold_start_path [OF assms(1,2) _ c] show ?thesis using Pair ColdStart by simp
  next
    case MustWait
    then show ?thesis
      by (intro exI [of _ s]) (use assms Pair in \<open>auto simp: acquire_loop.simps\<close>)
  qed
qed

lemma release_path:
  assumes "shows_pool w s" "pool_ok s" "h \<in> set (ps_out s)" "pl_release sb h w = (r, w')"
  shows "\<exists>s'. pool_steps s s' \<and> shows_pool w' s' \<and> pool_ok s' \<and> ps_out s' = remove1 h (ps_out s) \<and> h \<in> spent s' \<and>
              ps_ending s' = ps_ending s \<and> ps_lost s' = ps_lost s + (if isl r then 1 else 0) \<and>
              ps_refills s' = ps_refills s + (if r = Inr () \<and> int (warm_count (pw_pool w)) < pl_warm_size (pw_pool w)
                                              then 1 else 0)"
proof -
  define t where "t = s\<lparr>ps_out := remove1 h (ps_out s), ps_ending := h # ps_ending s\<rparr>"
  have 1: "pool_step s t" unfolding t_def by (rule release_begins) (rule assms(3))
  have dist: "distinct (ps_out s)" using assms(2) by (simp add: pool_ok_def handles_def)
  have lost: "pool_step t (t\<lparr>ps_ending := remove1 h (ps_ending t), ps_done := h # ps_done t, ps_lost := ps_lost t + 1\<rparr>)"
    by (rule release_lost) (simp add: t_def)
  have ended: "pool_step t (t\<lparr>ps_pool := p, ps_ending := remove1 h (ps_ending t), ps_done := h # ps_done t,
                             ps_refills := ps_refills t + (if n then 1 else 0)\<rparr>)"
    if "finish_release (ps_pool t) = (n, p)" for n p
    by (rule release_ends [OF _ _ that]) (use assms(1) in \<open>auto simp: t_def shows_pool_def\<close>)
  obtain rt b where ends: "sb_terminate sb h (pw_backend w) = (rt, b)" by (metis prod.exhaust)
  obtain n p where fin: "finish_release (ps_pool t) = (n, p)" by (cases "finish_release (ps_pool t)")
  have p: "finish_release (pw_pool w) = (n, p)" "n = (int (warm_count (pw_pool w)) < pl_warm_size (pw_pool w))"
    using fin assms(1) by (auto simp: t_def shows_pool_def finish_release_def warm_count_def)
  show ?thesis
  proof (cases rt)
    case (Inl e)
    show ?thesis
      by (rule exI, rule conjI, rule two_steps [OF 1 lost], intro conjI)
         (use assms(1,4) ends Inl dist pool_step_ok [OF lost pool_step_ok [OF 1 assms(2)]]
          in \<open>auto simp: shows_pool_def pl_release_def on_backend_def t_def spent_def\<close>)
  next
    case (Inr x)
    show ?thesis
      by (rule exI, rule conjI, rule two_steps [OF 1 ended [OF fin]], intro conjI)
         (use assms(1,4) ends Inr p dist pool_step_ok [OF ended [OF fin] pool_step_ok [OF 1 assms(2)]]
          in \<open>auto simp: shows_pool_def pl_release_def on_backend_def t_def spent_def\<close>)
  qed
qed

text \<open>An acquire that need not wait is a path of the task system: it ends in a state that its pool
  shows, with the handle it returns newly held by a caller; when it raises, nobody holds anything
  more.\<close>

lemma acquire_is_path:
  assumes "shows_pool w s" "boots_fresh sb (pw_backend w) s" "acquire_loop sb [] t0 w = (r, w')"
  shows "\<exists>s'. pool_steps s s' \<and> shows_pool w' s' \<and> ps_ending s' = ps_ending s \<and>
              ps_out s' = (case r of Inr (h, warm, t) \<Rightarrow> h # ps_out s | Inl e \<Rightarrow> ps_out s)"
  using acquire_path [OF assms] by blast

text \<open>Releasing a handle is a path of the task system, whether or not the backend can terminate
  the instance: afterwards no caller holds it, it is spent, and a refill is scheduled exactly when
  the termination succeeded and the warm pool is below its size.\<close>

lemma release_is_path:
  assumes "shows_pool w s" "pool_ok s" "h \<in> set (ps_out s)" "pl_release sb h w = (r, w')"
  shows "\<exists>s'. pool_steps s s' \<and> shows_pool w' s' \<and> pool_ok s' \<and> h \<notin> set (ps_out s') \<and> h \<in> spent s' \<and>
              ps_refills s' = ps_refills s + (if r = Inr () \<and> int (warm_count (pw_pool w)) < pl_warm_size (pw_pool w)
                                              then 1 else 0)"
proof -
  have "distinct (ps_out s)" using assms(2) by (simp add: pool_ok_def handles_def)
  with release_path [OF assms] show ?thesis by fastforce
qed

section \<open>What holds of every reachable state\<close>

text \<open>C31: Whatever the tasks do, the warm pool never exceeds its size, the concurrent count is exactly the
  handles held by callers, those being released, a cold start in progress and the slots that were
  lost, and no handle is ever in two places.\<close>

theorem pool_invariant:
  assumes "pool_steps (started (new_pool ws mc tmo)) s"
  shows "int (length (pl_warm (ps_pool s))) \<le> max ws 0 \<and>
         pl_concurrent_count (ps_pool s)
           = int (length (ps_out s)) + int (length (ps_ending s)) + int (booting (ps_lock s)) + int (ps_lost s) \<and>
         distinct (handles s)"
  using pool_steps_ok [OF assms pool_ok_started] pool_steps_limits [OF assms]
  by (simp add: pool_ok_def new_pool_def started_def)

definition one_warm :: pool_sys where
  "one_warm = started (new_pool 1 1 5)"

lemma pool_invariant_witness:
  "pool_steps one_warm one_warm \<and> distinct (handles one_warm)"
  using pool_invariant [of 1 1 5 one_warm] by (simp add: one_warm_def)

text \<open>C14: An instance is never reused: once its release has begun, or \<^verbatim>\<open>close\<close> has taken it, no later
  state has it in the warm pool or in a caller's hands.\<close>

theorem never_reused:
  assumes "pool_steps (started (new_pool ws mc tmo)) s" "pool_steps s s'" "h \<in> spent s"
  shows "h \<notin> set (pl_warm (ps_pool s')) \<and> h \<notin> set (ps_out s')"
proof -
  have "pool_ok s'"
    by (rule pool_steps_ok [OF rtranclp_trans [OF assms(1,2)]], rule pool_ok_started) (auto simp: new_pool_def)
  then show ?thesis using pool_ok_spent pool_steps_spent [OF assms(2)] assms(3) by blast
qed

definition a_handle :: handle where "a_handle = \<lparr>h_id = [1], h_tier = 0\<rparr>"

definition one_started :: pool_sys where
  "one_started = one_warm\<lparr>ps_pool := snd (try_acquire (ps_pool one_warm)), ps_lock := Booting\<rparr>"

definition one_held :: pool_sys where
  "one_held = one_started\<lparr>ps_lock := Free, ps_out := [a_handle]\<rparr>"

definition one_released :: pool_sys where
  "one_released = one_held\<lparr>ps_out := [], ps_ending := [a_handle]\<rparr>"

lemma one_released_reached: "pool_steps one_warm one_held \<and> pool_step one_held one_released"
proof
  have "pool_step one_warm one_started" unfolding one_started_def
    by (rule cold_begins) (auto simp: one_warm_def started_def new_pool_def try_acquire_def)
  moreover have "pool_step one_started one_held" unfolding one_held_def
    using cold_booted [of one_started a_handle]
    by (simp add: one_started_def one_warm_def started_def new_pool_def try_acquire_def handles_def)
  ultimately show "pool_steps one_warm one_held" by (rule two_steps)
  show "pool_step one_held one_released" unfolding one_released_def
    using release_begins [of a_handle one_held]
    by (simp add: one_held_def one_started_def one_warm_def started_def new_pool_def try_acquire_def)
qed

lemma never_reused_witness:
  "a_handle \<in> spent one_released \<and> a_handle \<notin> set (ps_out one_released)"
proof -
  have r: "pool_steps (started (new_pool 1 1 5)) one_released"
    using one_released_reached by (auto simp: one_warm_def)
  have s: "a_handle \<in> spent one_released" by (simp add: spent_def one_released_def)
  show ?thesis using never_reused [OF r rtranclp.rtrancl_refl s] s by blast
qed

text \<open>A pool that keeps nothing warm respects its ceiling: the concurrent count of every reachable
  state is at most \<^verbatim>\<open>max_concurrent\<close>.\<close>

lemma cold_pool_ceiling:
  assumes "pool_steps (started (new_pool ws mc tmo)) s" "ws \<le> 0" "0 \<le> mc"
  shows "pl_concurrent_count (ps_pool s) \<le> mc"
  using pool_steps_ceiling [OF assms(1) pool_ok_started] pool_steps_limits [OF assms(1)] assms(2,3)
  by (simp add: started_def new_pool_def)

lemma cold_pool_ceiling_witness:
  "pl_concurrent_count (ps_pool (started (new_pool 0 4 5))) \<le> 4"
  using cold_pool_ceiling [of 0 4 5 "started (new_pool 0 4 5)"] by simp

text \<open>C33: A pool that keeps one instance warm has no ceiling: for every number there is a history,
  without any error, after which that many handles are held at the same time. A warm instance is
  handed out without a look at \<^verbatim>\<open>max_concurrent\<close>, and refills scheduled by several releases are
  stored one after the other as each is taken.\<close>

theorem ceiling_exceeded:
  assumes "1 \<le> ws" "1 \<le> mc"
  shows "\<exists>s. pool_steps (started (new_pool ws mc tmo)) s \<and> length (ps_out s) = n \<and> ps_lost s = 0 \<and>
             pl_concurrent_count (ps_pool s) = int n"
  using rest_reached [OF assms, of tmo n] by (auto simp: at_rest_def)

lemma ceiling_exceeded_witness:
  "\<exists>s. pool_steps (started (new_pool 1 1 5)) s \<and> length (ps_out s) = 100 \<and> ps_lost s = 0 \<and>
       pl_concurrent_count (ps_pool s) = int 100"
  by (rule ceiling_exceeded) simp_all

text \<open>Slots that failed cold starts took are never given back: a pool whose first
  \<^verbatim>\<open>max_concurrent\<close> boots fail or are cancelled reaches a state where nobody holds an instance, the
  count is at the ceiling, and no task can ever take another step.\<close>

lemma failed_boots_exhaust:
  assumes "0 \<le> mc"
  shows "\<exists>s. pool_steps (started (new_pool ws mc tmo)) s \<and> ps_out s = [] \<and>
             pl_concurrent_count (ps_pool s) = mc \<and> fst (try_acquire (ps_pool s)) = MustWait \<and>
             (\<forall>s'. \<not> pool_step s s')"
proof -
  obtain s where s: "pool_steps (started (new_pool ws mc tmo)) s" "drained mc (nat mc) s"
    using drained_reached [of "nat mc" mc ws tmo] assms by auto
  then show ?thesis using assms drained_stuck [OF s(2)]
    by (intro exI [of _ s]) (auto simp: drained_def try_acquire_def)
qed

lemma failed_boots_exhaust_witness:
  "\<exists>s. pool_steps (started (new_pool 2 4 5)) s \<and> ps_out s = [] \<and>
       pl_concurrent_count (ps_pool s) = 4 \<and> fst (try_acquire (ps_pool s)) = MustWait \<and> (\<forall>s'. \<not> pool_step s s')"
  by (rule failed_boots_exhaust) simp

section \<open>A backend to try the operations on\<close>

text \<open>Instances are numbered; nothing fails and nothing takes time.\<close>

definition numbering :: "(nat, unit) sandbox" where
  "numbering =
     \<lparr>sb_tier = 0,
      sb_boot_clean = \<lambda>n. (0, (Inr \<lparr>h_id = [n], h_tier = 0\<rparr>, Suc n)),
      sb_execute = \<lambda>h code cb tmo ct (n, t).
        (Inr \<lparr>rr_success = True, rr_stdout = code, rr_stdout_truncated = False, rr_error_message = None,
              rr_cpu_seconds = 0, rr_duration_ms = 0, rr_tool_call_count = 0\<rparr>, (n, t)),
      sb_terminate = \<lambda>h n. (Inr (), n),
      sb_health_check = \<lambda>n. (Inr True, n),
      sb_close = \<lambda>n. (Inr (), n)\<rparr>"

definition first_world :: "nat pool_world" where
  "first_world = \<lparr>pw_pool = new_pool 1 1 5, pw_backend = 1, pw_refills = 0\<rparr>"

lemma acquire_is_path_witness:
  "\<exists>r w' s'. acquire_loop numbering [] 0 first_world = (r, w') \<and> pool_steps one_warm s' \<and> shows_pool w' s' \<and>
             ps_out s' = [a_handle]"
proof -
  have sp: "shows_pool first_world one_warm"
    by (simp add: shows_pool_def first_world_def one_warm_def started_def)
  have bf: "boots_fresh numbering (pw_backend first_world) one_warm"
    by (simp add: boots_fresh_def handles_def one_warm_def started_def new_pool_def)
  have run: "acquire_loop numbering [] 0 first_world
      = (Inr (a_handle, False, 0), first_world\<lparr>pw_pool := (new_pool 1 1 5)\<lparr>pl_concurrent_count := 1\<rparr>, pw_backend := 2\<rparr>)"
    by (simp add: acquire_loop.simps try_acquire_def first_world_def new_pool_def cold_start_def on_backend_def
          numbering_def a_handle_def)
  from acquire_is_path [OF sp bf run] show ?thesis
    using run by (auto simp: one_warm_def started_def)
qed

lemma release_is_path_witness:
  "\<exists>r w' s'. pl_release numbering a_handle (first_world\<lparr>pw_pool := ps_pool one_held\<rparr>) = (r, w') \<and>
             pool_steps one_held s' \<and> shows_pool w' s' \<and> a_handle \<in> spent s'"
proof -
  obtain r w' where run: "pl_release numbering a_handle (first_world\<lparr>pw_pool := ps_pool one_held\<rparr>) = (r, w')"
    by (cases "pl_release numbering a_handle (first_world\<lparr>pw_pool := ps_pool one_held\<rparr>)")
  have ok: "pool_ok one_held"
    by (rule pool_steps_ok [OF conjunct1 [OF one_released_reached]])
       (auto simp: one_warm_def new_pool_def intro!: pool_ok_started)
  have sp: "shows_pool (first_world\<lparr>pw_pool := ps_pool one_held\<rparr>) one_held"
    by (simp add: shows_pool_def first_world_def one_held_def one_started_def one_warm_def started_def)
  have out: "a_handle \<in> set (ps_out one_held)" by (simp add: one_held_def)
  from release_is_path [OF sp ok out run] run show ?thesis by blast
qed

end
