(* ===== verification/ExecuteInSandbox.thy ===== *)
theory ExecuteInSandbox
  imports Presidium PoolTasks PyText
begin

text \<open>
  \<^verbatim>\<open>src/fabrica/managers/execute_in_sandbox.py\<close>: the one sequence both managers run, check the
  grant, acquire, run, release always, with the outer span around it. The governance client is a
  function \<open>check\<close> on its own state; \<open>latency\<close> is what the clock measures around it, \<open>hexdigest\<close>
  the SHA-256 of \<^verbatim>\<open>hashlib\<close>, whose answer is only shown to the tracer.

  \<open>execute_outcome\<close> is the specification without spans; the code implements it. What follows from
  it: no sandbox without an explicit grant, nothing held afterwards, and bracketed spans. The calls of the
  tracer return (see \<^verbatim>\<open>Observability\<close>).
\<close>

section \<open>The sequence\<close>

record ('p, 'b, 't) exec_world =
  ew_client :: 'p
  ew_pool :: "'b pool_world"
  ew_tools :: 't

definition on_client :: "('p \<Rightarrow> 'a \<times> 'p) \<Rightarrow> ('p, 'b, 't) exec_world \<Rightarrow> 'a \<times> ('p, 'b, 't) exec_world" where
  "on_client f w = (case f (ew_client w) of (r, p) \<Rightarrow> (r, w\<lparr>ew_client := p\<rparr>))"

definition in_pool :: "('b pool_world, 'a) io \<Rightarrow> (('p, 'b, 't) exec_world, 'a) io" where
  "in_pool = io_zoom ew_pool (\<lambda>p w. w\<lparr>ew_pool := p\<rparr>)"

definition in_pool_tools :: "('b pool_world \<times> 't, 'a) io \<Rightarrow> (('p, 'b, 't) exec_world, 'a) io" where
  "in_pool_tools = io_zoom (\<lambda>w. (ew_pool w, ew_tools w)) (\<lambda>(p, t) w. w\<lparr>ew_pool := p, ew_tools := t\<rparr>)"

text \<open>The exceptions after the check; nothing when the run may go on.\<close>

definition refusal :: "grant \<Rightarrow> exc option" where
  "refusal g =
     (if gr_decision g = Deny then Some (raised (Manager_exc GrantDeniedError) [gr_reason g])
      else if gr_decision g = RequireApproval then Some (raised (Manager_exc ApprovalRequiredError) [gr_approval_context g])
      else None)"

definition exec_span_name :: "pystr \<Rightarrow> pystr" where
  "exec_span_name action =
     (if action = u ''code_mode'' then u ''fabrica.tool.code_mode.run'' else u ''fabrica.skill.run'')"

record 't exec_request =
  xr_action :: pystr
  xr_agent_id :: pystr
  xr_scope :: scope
  xr_code :: pystr
  xr_on_tool_call :: "'t tool_callback"
  xr_timeout :: real
  xr_tool_call_timeout :: "real option"
  xr_skill_name :: "pystr option"

definition exec_attributes :: "(nat list \<Rightarrow> pystr) \<Rightarrow> nat list \<Rightarrow> 't exec_request \<Rightarrow> pydict" where
  "exec_attributes hexdigest bytes x =
     [(u ''agent_id'', PStr (xr_agent_id x)), (u ''code_hash'', PStr (take 16 (hexdigest bytes))),
      (u ''skill_name'', opt_val (xr_skill_name x)), (u ''user_id'', opt_val (sc_user_id (xr_scope x))),
      (u ''session_id'', opt_val (sc_session_id (xr_scope x))), (u ''team_id'', opt_val (sc_team_id (xr_scope x)))]"

definition checked_grant ::
    "(pystr \<Rightarrow> pystr \<Rightarrow> scope \<Rightarrow> 'p \<Rightarrow> grant result \<times> 'p) \<Rightarrow> real \<Rightarrow> 't exec_request \<Rightarrow> span
     \<Rightarrow> (('p, 'b, 't) exec_world, grant) io" where
  "checked_grant check latency x outer =
     traced (u ''fabrica.presidium.check_grant'') (sp_trace_id outer) (Some (sp_span_id outer))
       [(u ''action'', PStr (xr_action x)), (u ''agent_id'', PStr (xr_agent_id x))]
       (\<lambda>sp.
          io_bind (io_lift (on_client (check (xr_agent_id x) (xr_action x) (xr_scope x)))) (\<lambda>g.
          io_bind (io_attr sp (u ''decision'') (PStr (decision_str (gr_decision g)))) (\<lambda>_.
          io_bind (io_attr sp (u ''latency_ms'') (PFloat (round_ms latency))) (\<lambda>_. io_return g))))"

definition sandboxed_run ::
    "('b, 't) sandbox \<Rightarrow> 'b waits \<Rightarrow> 't exec_request \<Rightarrow> span
     \<Rightarrow> (('p, 'b, 't) exec_world, run_result) io" where
  "sandboxed_run sb wakes x outer =
     io_bind (in_pool (pl_acquire sb wakes (sp_trace_id outer) (Some (sp_span_id outer)))) (\<lambda>h.
       io_finally
         (in_pool_tools (pl_run sb h (xr_code x) (xr_on_tool_call x) (xr_timeout x) (xr_tool_call_timeout x)
            (sp_trace_id outer) (Some (sp_span_id outer))))
         (in_pool (io_lift (pl_release sb h))))"

definition execute_in_sandbox ::
    "(pystr \<Rightarrow> pystr \<Rightarrow> scope \<Rightarrow> 'p \<Rightarrow> grant result \<times> 'p) \<Rightarrow> ('b, 't) sandbox \<Rightarrow> (nat list \<Rightarrow> pystr) \<Rightarrow> real
     \<Rightarrow> 'b waits \<Rightarrow> 't exec_request
     \<Rightarrow> (('p, 'b, 't) exec_world, run_result) io" where
  "execute_in_sandbox check sb hexdigest latency wakes x =
     io_bind (io_lift (\<lambda>w. (utf8_encode (xr_code x), w))) (\<lambda>bytes.
       traced (exec_span_name (xr_action x)) [] None (exec_attributes hexdigest bytes x)
         (\<lambda>outer.
            io_bind (checked_grant check latency x outer) (\<lambda>g.
            case refusal g of
              Some e \<Rightarrow> io_raise e
            | None \<Rightarrow>
                io_bind (sandboxed_run sb wakes x outer) (\<lambda>r.
                io_bind (io_attr outer (u ''duration_ms'') (PFloat (rr_duration_ms r))) (\<lambda>_.
                io_bind (io_attr outer (u ''tool_call_count'') (PInt (rr_tool_call_count r))) (\<lambda>_.
                io_return r))))))"

section \<open>The specification without spans\<close>

definition run_and_release ::
    "('b, 't) sandbox \<Rightarrow> 't exec_request \<Rightarrow> handle \<Rightarrow> ('p, 'b, 't) exec_world
     \<Rightarrow> run_result result \<times> ('p, 'b, 't) exec_world" where
  "run_and_release sb x h w =
     (case sb_execute sb h (xr_code x) (xr_on_tool_call x) (xr_timeout x) (xr_tool_call_timeout x)
             (pw_backend (ew_pool w), ew_tools w) of
        (r, (b, t)) \<Rightarrow>
          (case pl_release sb h ((ew_pool w)\<lparr>pw_backend := b\<rparr>) of
             (Inl e, pw) \<Rightarrow> (Inl e, w\<lparr>ew_pool := pw, ew_tools := t\<rparr>)
           | (Inr _, pw) \<Rightarrow> (r, w\<lparr>ew_pool := pw, ew_tools := t\<rparr>)))"

definition sandboxed_outcome ::
    "('b, 't) sandbox \<Rightarrow> 'b waits \<Rightarrow> 't exec_request
     \<Rightarrow> ('p, 'b, 't) exec_world \<Rightarrow> run_result result \<times> ('p, 'b, 't) exec_world" where
  "sandboxed_outcome sb wakes x w =
     (case acquire_handle sb wakes (ew_pool w) of
        (Inl e, pw) \<Rightarrow> (Inl e, w\<lparr>ew_pool := pw\<rparr>)
      | (Inr (h, warm, t), pw) \<Rightarrow> run_and_release sb x h (w\<lparr>ew_pool := pw\<rparr>))"

definition execute_outcome ::
    "(pystr \<Rightarrow> pystr \<Rightarrow> scope \<Rightarrow> 'p \<Rightarrow> grant result \<times> 'p) \<Rightarrow> ('b, 't) sandbox
     \<Rightarrow> 'b waits \<Rightarrow> 't exec_request \<Rightarrow> ('p, 'b, 't) exec_world
     \<Rightarrow> run_result result \<times> ('p, 'b, 't) exec_world" where
  "execute_outcome check sb wakes x w =
     (case utf8_encode (xr_code x) of
        Inl e \<Rightarrow> (Inl e, w)
      | Inr bytes \<Rightarrow>
          (case on_client (check (xr_agent_id x) (xr_action x) (xr_scope x)) w of
             (Inl e, w1) \<Rightarrow> (Inl e, w1)
           | (Inr g, w1) \<Rightarrow>
               (case refusal g of
                  Some e \<Rightarrow> (Inl e, w1)
                | None \<Rightarrow> sandboxed_outcome sb wakes x w1)))"

lemma pl_acquire_outcome:
  assumes "pl_acquire sb wakes tid parent (t, w) = (res, (t', w'))"
  shows "\<exists>r. acquire_handle sb wakes w = (r, w') \<and> res = map_sum id fst r"
proof -
  obtain r v where l: "acquire_handle sb wakes w = (r, v)" by (metis prod.exhaust)
  from traced_result [OF assms [unfolded pl_acquire_def]] l have "v = w' \<and> res = map_sum id fst r"
    by (cases r) (auto simp: io_defs simp del: u_simps split: prod.splits)
  with l show ?thesis by blast
qed

lemma pl_run_outcome:
  assumes "pl_run sb h code cb tmo ct tid parent (t, (w, s)) = (res, (t', (w', s')))"
  shows "\<exists>b. sb_execute sb h code cb tmo ct (pw_backend w, s) = (res, (b, s')) \<and> w' = w\<lparr>pw_backend := b\<rparr>"
proof -
  obtain r b v where l: "sb_execute sb h code cb tmo ct (pw_backend w, s) = (r, (b, v))" by (metis prod.exhaust)
  from traced_result [OF assms [unfolded pl_run_def]] l have "v = s' \<and> res = r \<and> w' = w\<lparr>pw_backend := b\<rparr>"
    by (cases r) (auto simp: io_defs simp del: u_simps split: prod.splits)
  with l show ?thesis by blast
qed

lemma checked_grant_outcome:
  assumes "checked_grant check latency x outer (t, w) = (res, (t', w'))"
  shows "on_client (check (xr_agent_id x) (xr_action x) (xr_scope x)) w = (res, w')"
proof -
  obtain r v where l: "on_client (check (xr_agent_id x) (xr_action x) (xr_scope x)) w = (r, v)"
    by (metis prod.exhaust)
  from traced_result [OF assms [unfolded checked_grant_def]] l have "v = w' \<and> res = r"
    by (cases r) (auto simp: io_defs simp del: u_simps split: prod.splits)
  with l show ?thesis by blast
qed

lemma sandboxed_run_outcome:
  assumes "sandboxed_run sb wakes x outer (t, w) = (res, (t', w'))"
  shows "sandboxed_outcome sb wakes x w = (res, w')"
proof -
  let ?tid = "sp_trace_id outer" and ?par = "Some (sp_span_id outer)"
  obtain ra t1 p1 where acq: "pl_acquire sb wakes ?tid ?par (t, ew_pool w) = (ra, (t1, p1))" by (metis prod.exhaust)
  from pl_acquire_outcome [OF acq] obtain r where r: "acquire_handle sb wakes (ew_pool w) = (r, p1)" "ra = map_sum id fst r"
    by blast
  show ?thesis
  proof (cases r)
    case (Inl e)
    with assms acq r show ?thesis
      by (auto simp: sandboxed_run_def sandboxed_outcome_def in_pool_def io_bind_def io_zoom_def)
  next
    case (Inr y)
    obtain h where h: "h = fst y" by simp
    obtain rr t2 p2 s2 where run: "pl_run sb h (xr_code x) (xr_on_tool_call x) (xr_timeout x) (xr_tool_call_timeout x)
        ?tid ?par (t1, (p1, ew_tools w)) = (rr, (t2, (p2, s2)))" by (metis prod.exhaust)
    from pl_run_outcome [OF run] obtain b where b: "sb_execute sb h (xr_code x) (xr_on_tool_call x) (xr_timeout x)
        (xr_tool_call_timeout x) (pw_backend p1, ew_tools w) = (rr, (b, s2))" "p2 = p1\<lparr>pw_backend := b\<rparr>" by blast
    obtain re p3 where rel: "pl_release sb h p2 = (re, p3)" by (metis prod.exhaust)
    have "sandboxed_run sb wakes x outer (t, w) =
        (case re of Inl e \<Rightarrow> Inl e | Inr _ \<Rightarrow> rr, (t2, w\<lparr>ew_pool := p3, ew_tools := s2\<rparr>))"
      using acq r Inr h run rel
      by (cases re) (auto simp: sandboxed_run_def in_pool_def in_pool_tools_def io_bind_def io_zoom_def io_finally_def io_lift_def)
    moreover have "sandboxed_outcome sb wakes x w =
        (case re of Inl e \<Rightarrow> Inl e | Inr _ \<Rightarrow> rr, w\<lparr>ew_pool := p3, ew_tools := s2\<rparr>)"
      using r Inr h b rel
      by (cases re; cases y) (auto simp: sandboxed_outcome_def run_and_release_def)
    ultimately show ?thesis using assms by auto
  qed
qed

lemma execute_implements:
  assumes "execute_in_sandbox check sb hexdigest latency wakes x (t, w) = (res, (t', w'))"
  shows "execute_outcome check sb wakes x w = (res, w')"
proof (cases "utf8_encode (xr_code x)")
  case (Inl e)
  with assms show ?thesis by (simp add: execute_in_sandbox_def execute_outcome_def io_bind_def io_lift_def)
next
  case (Inr bytes)
  define body where "body = (\<lambda>outer. io_bind (checked_grant check latency x outer) (\<lambda>g.
            case refusal g of
              Some e \<Rightarrow> io_raise e
            | None \<Rightarrow>
                io_bind (sandboxed_run sb wakes x outer) (\<lambda>r.
                io_bind (io_attr outer (u ''duration_ms'') (PFloat (rr_duration_ms r))) (\<lambda>_.
                io_bind (io_attr outer (u ''tool_call_count'') (PInt (rr_tool_call_count r))) (\<lambda>_.
                io_return r)))))"
  have "traced (exec_span_name (xr_action x)) [] None (exec_attributes hexdigest bytes x) body (t, w) = (res, (t', w'))"
    using assms Inr by (simp add: execute_in_sandbox_def io_bind_def io_lift_def body_def)
  from traced_result [OF this] obtain sp t1 t2 where b: "body sp (t1, w) = (res, (t2, w'))" by blast
  obtain rg tg wg where g: "checked_grant check latency x sp (t1, w) = (rg, (tg, wg))" by (metis prod.exhaust)
  note og = checked_grant_outcome [OF g]
  show ?thesis
  proof (cases rg)
    case (Inl e)
    with b g og Inr show ?thesis by (simp add: body_def io_bind_def execute_outcome_def)
  next
    case gr: (Inr gr)
    show ?thesis
    proof (cases "refusal gr")
      case (Some e)
      with b g og gr Inr show ?thesis by (simp add: body_def io_bind_def io_raise_def execute_outcome_def)
    next
      case None
      obtain rs ts ws where s: "sandboxed_run sb wakes x sp (tg, wg) = (rs, (ts, ws))" by (metis prod.exhaust)
      note os = sandboxed_run_outcome [OF s]
      from b g gr None s have "res = rs \<and> w' = ws"
        by (cases rs) (auto simp: body_def io_bind_def io_attr_def io_return_def)
      with og os gr None Inr show ?thesis by (simp add: execute_outcome_def)
    qed
  qed
qed

section \<open>No sandbox without a grant\<close>

lemma refusal_None: "refusal g = None \<longleftrightarrow> gr_decision g = Allow"
  by (cases "gr_decision g") (auto simp: refusal_def)

context grant_source
begin

text \<open>Whatever the client, the pool and the tools are touched, or a result returned, only after it
  answered \<open>Allow\<close> to this agent, action and scope.\<close>

lemma outcome_needs_allow:
  assumes "execute_outcome check sb wakes x w = (res, w')"
    and "ew_pool w' \<noteq> ew_pool w \<or> ew_tools w' \<noteq> ew_tools w \<or> res = Inr r"
  shows "answers (xr_agent_id x) (xr_action x) (xr_scope x) (ew_client w) Allow"
proof -
  obtain rg p where c: "check (xr_agent_id x) (xr_action x) (xr_scope x) (ew_client w) = (rg, p)"
    by (metis prod.exhaust)
  with assms obtain g where g: "rg = Inr g" "refusal g = None"
    by (auto simp: execute_outcome_def on_client_def split: sum.splits option.splits)
  then have "gr_decision g = Allow" by (simp add: refusal_None)
  with not_deny_answered [OF c [unfolded g(1)]] show ?thesis by simp
qed

end

text \<open>C1: Over the REST client no sandbox is touched, no tool is called and no result is returned unless
  the governance service itself decided \<^verbatim>\<open>allow\<close>, in a good response to a request with this agent,
  action and scope that the circuit breaker let through.\<close>

theorem rest_run_needs_allow:
  assumes "execute_in_sandbox (rest_check_grant api now1 now2) sb hexdigest latency wakes x (t, w) = (res, (t', w'))"
    and "ew_pool w' \<noteq> ew_pool w \<or> ew_tools w' \<noteq> ew_tools w \<or> res = Inr r"
  shows "rest_answers api now1 (xr_agent_id x) (xr_action x) (xr_scope x) (ew_client w) Allow"
  using rest.outcome_needs_allow [OF execute_implements [OF assms(1)] assms(2)] .

section \<open>Nothing is held afterwards\<close>

lemma run_and_release_path:
  assumes "shows_pool (ew_pool w) s" "pool_ok s" "h \<in> set (ps_out s)" "run_and_release sb x h w = (res, w')"
  shows "\<exists>s' r b q. pool_steps s s' \<and> shows_pool (ew_pool w') s' \<and> ps_out s' = remove1 h (ps_out s) \<and> h \<in> spent s' \<and>
    ps_ending s' = ps_ending s \<and> ps_lost s' = ps_lost s + (if isl q then 1 else 0) \<and>
    sb_execute sb h (xr_code x) (xr_on_tool_call x) (xr_timeout x) (xr_tool_call_timeout x)
      (pw_backend (ew_pool w), ew_tools w) = (r, (b, ew_tools w')) \<and>
    sb_terminate sb h b = (q, pw_backend (ew_pool w'))"
proof -
  obtain r b t where run: "sb_execute sb h (xr_code x) (xr_on_tool_call x) (xr_timeout x) (xr_tool_call_timeout x)
      (pw_backend (ew_pool w), ew_tools w) = (r, (b, t))" by (metis prod.exhaust)
  obtain re p where rel: "pl_release sb h ((ew_pool w)\<lparr>pw_backend := b\<rparr>) = (re, p)" by (metis prod.exhaust)
  have "shows_pool ((ew_pool w)\<lparr>pw_backend := b\<rparr>) s" using assms(1) by (simp add: shows_pool_def)
  from release_path [OF this assms(2,3) rel] obtain s' where s': "pool_steps s s'" "shows_pool p s'"
    "ps_out s' = remove1 h (ps_out s)" "h \<in> spent s'" "ps_ending s' = ps_ending s"
    "ps_lost s' = ps_lost s + (if isl re then 1 else 0)" by blast
  obtain q where q: "sb_terminate sb h b = (q, pw_backend p)" "isl q = isl re"
    using rel by (auto simp: pl_release_def on_backend_def finish_release_def split: prod.splits sum.splits)
  have "ew_pool w' = p" "ew_tools w' = t"
    using assms(4) run rel by (cases re; auto simp: run_and_release_def)+
  with s' q run show ?thesis by auto
qed

lemma sandboxed_path:
  assumes "shows_pool (ew_pool w) s" "pool_ok s" "boots_fresh sb (pw_backend (ew_pool w)) s"
    and "sandboxed_outcome sb no_waits x w = (res, w')"
  shows "\<exists>s'. pool_steps s s' \<and> shows_pool (ew_pool w') s' \<and> ps_out s' = ps_out s \<and> ps_ending s' = ps_ending s \<and>
    ((\<exists>e. acquire_loop sb [] 0 (ew_pool w) = (Inl e, ew_pool w')) \<or>
     (\<exists>h warm d p r b q. acquire_loop sb [] 0 (ew_pool w) = (Inr (h, warm, d), p) \<and>
        sb_execute sb h (xr_code x) (xr_on_tool_call x) (xr_timeout x) (xr_tool_call_timeout x)
          (pw_backend p, ew_tools w) = (r, (b, ew_tools w')) \<and>
        sb_terminate sb h b = (q, pw_backend (ew_pool w')) \<and> h \<in> spent s' \<and>
        ps_lost s' = ps_lost s + (if isl q then 1 else 0)))"
proof -
  obtain r p where acq: "acquire_loop sb [] 0 (ew_pool w) = (r, p)" by (metis prod.exhaust)
  from acquire_path [OF assms(1,3) acq] obtain s1 where s1: "pool_steps s s1" "shows_pool p s1" "ps_ending s1 = ps_ending s"
    "ps_out s1 = (case r of Inr (h, warm, t) \<Rightarrow> h # ps_out s | Inl e \<Rightarrow> ps_out s)" "isl r \<or> ps_lost s1 = ps_lost s" by blast
  show ?thesis
  proof (cases r)
    case (Inl e)
    with acq assms(4) have "ew_pool w' = p" by (auto simp: sandboxed_outcome_def)
    with s1 acq Inl show ?thesis by auto
  next
    case (Inr y)
    obtain h warm d where y: "y = (h, warm, d)" by (cases y)
    have out: "ps_out s1 = h # ps_out s" using s1(4) Inr y by simp
    have run: "run_and_release sb x h (w\<lparr>ew_pool := p\<rparr>) = (res, w')"
      using acq Inr y assms(4) by (simp add: sandboxed_outcome_def)
    have "shows_pool (ew_pool (w\<lparr>ew_pool := p\<rparr>)) s1" using s1(2) by simp
    from run_and_release_path [OF this pool_steps_ok [OF s1(1) assms(2)] _ run] out
    obtain s2 rr b q where s2: "pool_steps s1 s2" "shows_pool (ew_pool w') s2" "ps_out s2 = ps_out s" "h \<in> spent s2"
      "ps_ending s2 = ps_ending s1" "ps_lost s2 = ps_lost s1 + (if isl q then 1 else 0)"
      and ran: "sb_execute sb h (xr_code x) (xr_on_tool_call x) (xr_timeout x) (xr_tool_call_timeout x)
        (pw_backend p, ew_tools w) = (rr, (b, ew_tools w'))" "sb_terminate sb h b = (q, pw_backend (ew_pool w'))" by auto
    have "ps_lost s1 = ps_lost s" using s1(5) Inr by simp
    with s2 s1(3) have "ps_ending s2 = ps_ending s" "ps_lost s2 = ps_lost s + (if isl q then 1 else 0)" by simp_all
    with rtranclp_trans [OF s1(1) s2(1)] s2(2-4) ran acq Inr y show ?thesis by blast
  qed
qed

text \<open>C13: However an execution ends, with a result, a refusal, an exhausted pool, a timeout, a crash or
  an instance that cannot be terminated, the callers hold afterwards exactly what they held before, and no release is
  left unfinished. Either the pool was not touched (a refusal), or no instance could be had and the pool is as the
  attempt left it, or the code ran in the instance it acquired, which was then terminated and is spent: its slot is
  given back, and lost only if the backend raised when it was to terminate. In each case the pool went through steps of
  the task system.\<close>

theorem execution_holds_nothing:
  assumes "execute_in_sandbox check sb hexdigest latency no_waits x (t, w) = (res, (t', w'))"
    and "shows_pool (ew_pool w) s" "pool_ok s" "boots_fresh sb (pw_backend (ew_pool w)) s"
  shows "\<exists>s'. pool_steps s s' \<and> shows_pool (ew_pool w') s' \<and> ps_out s' = ps_out s \<and> ps_ending s' = ps_ending s \<and>
    (s' = s \<and> ew_pool w' = ew_pool w \<and> ew_tools w' = ew_tools w \<and> isl res \<or>
     (\<exists>e. acquire_loop sb [] 0 (ew_pool w) = (Inl e, ew_pool w')) \<or>
     (\<exists>h warm d p r b q. acquire_loop sb [] 0 (ew_pool w) = (Inr (h, warm, d), p) \<and>
        sb_execute sb h (xr_code x) (xr_on_tool_call x) (xr_timeout x) (xr_tool_call_timeout x)
          (pw_backend p, ew_tools w) = (r, (b, ew_tools w')) \<and>
        sb_terminate sb h b = (q, pw_backend (ew_pool w')) \<and> h \<in> spent s' \<and>
        ps_lost s' = ps_lost s + (if isl q then 1 else 0) \<and>
        pl_concurrent_count (pw_pool (ew_pool w')) = pl_concurrent_count (pw_pool (ew_pool w)) + (if isl q then 1 else 0)))"
proof -
  note out = execute_implements [OF assms(1)]
  obtain rg p where c: "on_client (check (xr_agent_id x) (xr_action x) (xr_scope x)) w = (rg, p)" by (metis prod.exhaust)
  then have same: "ew_pool p = ew_pool w" "ew_tools p = ew_tools w" by (auto simp: on_client_def split: prod.splits)
  show ?thesis
  proof (cases "\<exists>bytes g. utf8_encode (xr_code x) = Inr bytes \<and> rg = Inr g \<and> refusal g = None")
    case True
    then have o: "sandboxed_outcome sb no_waits x p = (res, w')" using out c by (auto simp: execute_outcome_def)
    have count: "pl_concurrent_count (pw_pool (ew_pool v)) = int (length (ps_out u) + length (ps_ending u) + ps_lost u)"
      if "pool_ok u" "shows_pool (ew_pool v) u" for u and v :: "('a, 'b, 'c) exec_world"
      using that by (simp add: pool_ok_def shows_pool_def)
    from sandboxed_path [of p s sb x res w'] o same assms(2-4) obtain s' where
      s': "pool_steps s s'" "shows_pool (ew_pool w') s'" "ps_out s' = ps_out s" "ps_ending s' = ps_ending s"
      and how: "(\<exists>e. acquire_loop sb [] 0 (ew_pool w) = (Inl e, ew_pool w')) \<or>
       (\<exists>h warm d p r b q. acquire_loop sb [] 0 (ew_pool w) = (Inr (h, warm, d), p) \<and>
          sb_execute sb h (xr_code x) (xr_on_tool_call x) (xr_timeout x) (xr_tool_call_timeout x)
            (pw_backend p, ew_tools w) = (r, (b, ew_tools w')) \<and>
          sb_terminate sb h b = (q, pw_backend (ew_pool w')) \<and> h \<in> spent s' \<and>
          ps_lost s' = ps_lost s + (if isl q then 1 else 0))" by auto
    have lost: "pl_concurrent_count (pw_pool (ew_pool w')) = pl_concurrent_count (pw_pool (ew_pool w)) + (if c then 1 else 0)"
      if "ps_lost s' = ps_lost s + (if c then 1 else 0)" for c
      using that count [OF pool_steps_ok [OF s'(1) assms(3)] s'(2)] count [OF assms(3,2)] s'(3,4) by simp
    show ?thesis by (rule exI [of _ s'], intro conjI s') (use how lost in blast)
  next
    case False
    then have "ew_pool w' = ew_pool w" "ew_tools w' = ew_tools w" "isl res" using out c same
      by (auto simp: execute_outcome_def split: sum.splits option.splits)
    with assms(2) show ?thesis by (intro exI [of _ s]) simp
  qed
qed

section \<open>Spans and refusals\<close>

text \<open>The code and the specification without spans have the same result and the same final state. The calls of the
  tracer are taken to return, as its interface asks of it.\<close>

lemma execute_refines:
  "map_prod id snd (execute_in_sandbox check sb hexdigest latency wakes x (t, w)) = execute_outcome check sb wakes x w"
  by (cases "execute_in_sandbox check sb hexdigest latency wakes x (t, w)")
     (auto simp: execute_implements split: prod.splits)

text \<open>The spans of an execution are bracketed: the grant check, the acquisition and the run each open
  one span inside the outer one, and every span is ended on every exit.\<close>

lemma execute_bracketed:
  "well_traced {} (execute_in_sandbox check sb hexdigest latency wakes x)"
proof -
  have acq: "well_traced S (pl_acquire sb wakes tid par)" for S tid par
    unfolding pl_acquire_def by (intro traced_intros) (auto intro!: traced_intros split: prod.splits)
  have run: "well_traced S (pl_run sb h code cb tmo ct tid par)" for S h code cb tmo ct tid par
    unfolding pl_run_def by (auto intro!: traced_intros)
  have sbx: "well_traced S (sandboxed_run sb wakes x outer)" for S outer
    unfolding sandboxed_run_def in_pool_def in_pool_tools_def by (auto intro!: traced_intros acq run)
  have chk: "well_traced S (checked_grant check latency x outer)" for S outer
    unfolding checked_grant_def by (auto intro!: traced_intros)
  show ?thesis unfolding execute_in_sandbox_def
    by (auto intro!: traced_intros chk sbx split: option.split)
qed

text \<open>A refused execution raises: a denial raises \<^verbatim>\<open>GrantDeniedError\<close> with its reason, a required
  approval \<^verbatim>\<open>ApprovalRequiredError\<close> with its context, and neither touches the pool or the tools.\<close>

lemma execute_refused:
  assumes "check (xr_agent_id x) (xr_action x) (xr_scope x) (ew_client w) = (Inr g, p)"
    and "gr_decision g \<noteq> Allow" "utf8_encode (xr_code x) = Inr bytes"
  shows "map_prod id snd (execute_in_sandbox check sb hexdigest latency wakes x (t, w)) =
         (Inl (if gr_decision g = Deny then raised (Manager_exc GrantDeniedError) [gr_reason g]
               else raised (Manager_exc ApprovalRequiredError) [gr_approval_context g]), w\<lparr>ew_client := p\<rparr>)"
proof (cases "execute_in_sandbox check sb hexdigest latency wakes x (t, w)")
  case (fields r t' w')
  from execute_implements [OF this] assms fields show ?thesis
    by (cases "gr_decision g") (auto simp: execute_outcome_def on_client_def refusal_def)
qed

section \<open>A run to try the properties on\<close>

definition demo_request :: "unit exec_request" where
  "demo_request =
     \<lparr>xr_action = u ''code_mode'', xr_agent_id = [97], xr_scope = agent_scope [97], xr_code = [49],
      xr_on_tool_call = (\<lambda>tool params t. (Inr [], t)), xr_timeout = 30, xr_tool_call_timeout = None,
      xr_skill_name = None\<rparr>"

definition demo_world :: "'p \<Rightarrow> ('p, nat, unit) exec_world" where
  "demo_world p = \<lparr>ew_client = p, ew_pool = first_world, ew_tools = ()\<rparr>"

lemma demo_encode: "utf8_encode (xr_code demo_request) = Inr [49]"
  by (simp add: demo_request_def utf8_encode_def is_surrogate_def utf8_char_def)

lemma demo_shows: "shows_pool (ew_pool (demo_world p)) one_warm"
  by (simp add: shows_pool_def demo_world_def first_world_def one_warm_def started_def)

lemma demo_fresh: "boots_fresh numbering (pw_backend (ew_pool (demo_world p))) one_warm"
  by (simp add: boots_fresh_def handles_def one_warm_def started_def new_pool_def)

lemma one_warm_ok: "pool_ok one_warm"
  by (auto simp: one_warm_def new_pool_def intro!: pool_ok_started)

text \<open>An allowed run on the numbering backend returns its code as output.\<close>

lemma demo_run:
  assumes "check [97] (u ''code_mode'') (agent_scope [97]) p = (Inr g, p')" "gr_decision g = Allow"
  shows "\<exists>w'. execute_outcome check numbering no_waits demo_request (demo_world p) =
    (Inr \<lparr>rr_success = True, rr_stdout = [49], rr_stdout_truncated = False, rr_error_message = None,
          rr_cpu_seconds = 0, rr_duration_ms = 0, rr_tool_call_count = 0\<rparr>, w')"
proof -
  have "on_client (check (xr_agent_id demo_request) (xr_action demo_request) (xr_scope demo_request)) (demo_world p)
      = (Inr g, demo_world p')"
    using assms(1) by (simp add: demo_request_def demo_world_def on_client_def)
  moreover have "refusal g = None" using assms(2) by (simp add: refusal_None)
  moreover have "\<exists>w'. sandboxed_outcome numbering no_waits demo_request (demo_world p') =
    (Inr \<lparr>rr_success = True, rr_stdout = [49], rr_stdout_truncated = False, rr_error_message = None,
          rr_cpu_seconds = 0, rr_duration_ms = 0, rr_tool_call_count = 0\<rparr>, w')"
    by (simp add: sandboxed_outcome_def run_and_release_def demo_world_def first_world_def new_pool_def
        acquire_loop.simps try_acquire_def cold_start_def on_backend_def numbering_def pl_release_def
        finish_release_def demo_request_def del: u_simps)
  ultimately show ?thesis by (simp add: execute_outcome_def demo_encode)
qed

lemma rest_run_needs_allow_witness:
  "rest_answers allow_api 0 [97] (u ''code_mode'') (agent_scope [97]) (new_rest_client (u ''http://p/'') 0 5 30) Allow"
proof -
  let ?w = "demo_world (new_rest_client (u ''http://p/'') 0 5 30)"
  obtain res t' w' where run:
    "execute_in_sandbox (rest_check_grant allow_api 0 0) numbering (\<lambda>b. []) 0 no_waits demo_request (null_tracer, ?w) = (res, (t', w'))"
    by (metis prod.exhaust)
  have "\<exists>r w'. execute_outcome (rest_check_grant allow_api 0 0) numbering no_waits demo_request ?w = (Inr r, w')"
    using demo_run [of "rest_check_grant allow_api 0 0", OF allow_api_grants [of _ _ _ 0]] by fastforce
  with execute_implements [OF run] obtain r where r: "res = Inr r" by auto
  from rest_run_needs_allow [OF run, of r] r show ?thesis
    by (simp add: demo_request_def demo_world_def del: u_simps)
qed

lemma execution_holds_nothing_witness:
  "\<exists>res t' w' s' h. execute_in_sandbox (\<lambda>a ac s p. (Inr \<lparr>gr_decision = Allow, gr_reason = PNone, gr_approval_context = PNone\<rparr>, p))
       numbering (\<lambda>b. []) 0 no_waits demo_request (null_tracer, demo_world ()) = (res, (t', w')) \<and> pool_steps one_warm s' \<and>
     ps_out s' = [] \<and> h \<in> spent s' \<and> pl_concurrent_count (pw_pool (ew_pool w')) = 0"
proof -
  let ?check = "\<lambda>a ac s p. (Inr \<lparr>gr_decision = Allow, gr_reason = PNone, gr_approval_context = PNone\<rparr>, p)"
  obtain res t' w' where run: "execute_in_sandbox ?check numbering (\<lambda>b. []) 0 no_waits demo_request (null_tracer, demo_world ()) =
      (res, (t', w'))" by (metis prod.exhaust)
  have "\<not> isl res" using demo_run [of ?check "()"] execute_implements [OF run] by auto
  moreover have "acquire_loop numbering [] 0 (ew_pool (demo_world ())) \<noteq> (Inl e, p)" for e p
    by (simp add: acquire_loop.simps try_acquire_def demo_world_def first_world_def new_pool_def cold_start_def on_backend_def numbering_def)
  moreover have "\<not> isl q" if "sb_terminate numbering h b = (q, b')" for h b b' q using that by (auto simp: numbering_def)
  moreover have "pl_concurrent_count (pw_pool (ew_pool (demo_world ()))) = 0" by (simp add: demo_world_def first_world_def new_pool_def)
  moreover have "ps_out one_warm = []" by (simp add: one_warm_def started_def)
  ultimately show ?thesis using execution_holds_nothing [OF run demo_shows one_warm_ok demo_fresh] run by (auto; blast)
qed

lemma execute_refused_witness:
  "map_prod id snd (execute_in_sandbox (\<lambda>a ac s p. (Inr (deny_grant [110]), p)) numbering (\<lambda>b. []) 0 no_waits demo_request
       (null_tracer, demo_world ())) = (Inl (raised (Manager_exc GrantDeniedError) [PStr [110]]), demo_world ())"
  using execute_refused [of "\<lambda>a ac s p. (Inr (deny_grant [110]), p)" demo_request "demo_world ()" "deny_grant [110]" "()"
      "[49]" numbering "\<lambda>b. []" 0 "no_waits" null_tracer] demo_encode
  by (simp add: deny_grant_def demo_world_def)

end
