(* ===== verification/ToolManager.thy ===== *)
theory ToolManager
  imports ExecuteInSandbox RetrieverModel Tools
begin

text \<open>
  \<^verbatim>\<open>src/fabrica/managers/tool_manager.py\<close>: registration of a namespace's tools with the shared
  retriever, the search among them, and code-mode, whose tool calls are routed to the namespace
  that registered the tool last.
\<close>

record ('p, 'f, 't) tool_manager =
  tm_retriever :: "('p, 'f) retriever"
  tm_tools :: "(pystr, 't namespace) dict"

definition new_tool_manager :: "('p, 'f) retriever \<Rightarrow> ('p, 'f, 't) tool_manager" where
  "new_tool_manager r = \<lparr>tm_retriever = r, tm_tools = []\<rparr>"

fun rmap :: "('a \<Rightarrow> 'b result) \<Rightarrow> 'a list \<Rightarrow> 'b list result" where
  "rmap f [] = Inr []"
| "rmap f (x # xs) = rbind (f x) (\<lambda>y. rbind (rmap f xs) (\<lambda>ys. Inr (y # ys)))"

definition tool_item :: "tool_schema \<Rightarrow> indexable result" where
  "tool_item s = make_indexable (ts_name s) Tool (ts_name s) (ts_description s) (ts_eager s)"

definition tm_register ::
    "'p backend \<Rightarrow> 'f backend \<Rightarrow> 't namespace \<Rightarrow> 't \<Rightarrow> ('p, 'f, 't) tool_manager
     \<Rightarrow> unit result \<times> ('p, 'f, 't) tool_manager" where
  "tm_register bp bf ns t m =
     (let schemas = ns_list_schemas ns t in
      case rmap tool_item schemas of
        Inl e \<Rightarrow> (Inl e, m)
      | Inr items \<Rightarrow>
          (case rt_register bp bf items (tm_retriever m) of
             (Inl e, r) \<Rightarrow> (Inl e, m\<lparr>tm_retriever := r\<rparr>)
           | (Inr _, r) \<Rightarrow>
               (Inr (), m\<lparr>tm_retriever := r,
                          tm_tools := fold (\<lambda>s. dict_set (ts_name s) ns) schemas (tm_tools m)\<rparr>)))"

text \<open>\<^verbatim>\<open>sum(len(m.item.description.encode()) for m in results)\<close>\<close>

fun description_bytes :: "ranked_match list \<Rightarrow> nat result" where
  "description_bytes [] = Inr 0"
| "description_bytes (m # ms) =
     rbind (utf8_len (ix_description (rm_item m))) (\<lambda>n. rbind (description_bytes ms) (\<lambda>k. Inr (n + k)))"

definition default_search_timeout :: real where "default_search_timeout = 2"

definition default_find_limit :: int where "default_find_limit = 5"

text \<open>The two managers differ in the name of the span and the kind they search; \<open>elapsed\<close> is what the
  clock measures.\<close>

definition traced_find ::
    "pystr \<Rightarrow> kind \<Rightarrow> real \<Rightarrow> 'p backend \<Rightarrow> 'f backend \<Rightarrow> pystr \<Rightarrow> int
     \<Rightarrow> (('p, 'f) retriever, ranked_match list) io" where
  "traced_find span_name k elapsed bp bf q n =
     traced span_name [] None [(u ''query'', PStr q), (u ''kind'', kind_val k)]
       (\<lambda>sp.
          io_bind (rt_search bp bf q (Some k) n default_search_timeout (sp_trace_id sp) (Some (sp_span_id sp))) (\<lambda>ms.
          io_bind (io_attr sp (u ''result_count'') (PInt (int (length ms)))) (\<lambda>_.
          io_bind (io_attr sp (u ''latency_ms'') (PFloat (round_ms elapsed))) (\<lambda>_.
          io_bind (io_lift (\<lambda>r. (description_bytes ms, r))) (\<lambda>v.
          io_bind (io_attr sp (u ''volume_bytes'') (PInt (int v))) (\<lambda>_. io_return ms))))))"

definition tm_find ::
    "real \<Rightarrow> 'p backend \<Rightarrow> 'f backend \<Rightarrow> pystr \<Rightarrow> int \<Rightarrow> (('p, 'f, 't) tool_manager, ranked_match list) io" where
  "tm_find elapsed bp bf q n =
     io_zoom tm_retriever (\<lambda>r m. m\<lparr>tm_retriever := r\<rparr>)
       (traced_find (u ''fabrica.tool.find'') Tool elapsed bp bf q n)"

definition call_answer :: "tool_result \<Rightarrow> pydict" where
  "call_answer r =
     [(u ''success'', PBool (tr_success r)), (u ''value'', tr_value r),
      (u ''error_message'', opt_val (tr_error_message r))]"

definition tm_on_tool_call :: "(pystr, 't namespace) dict \<Rightarrow> 't tool_callback" where
  "tm_on_tool_call tools tool params t =
     (case dict_get tools tool of
        None \<Rightarrow> (Inr (call_answer (failed_call (u ''unknown tool: '' @ tool))), t)
      | Some ns \<Rightarrow>
          (case ns_call ns tool params t of
             (Inl e, t') \<Rightarrow> (Inl e, t')
           | (Inr r, t') \<Rightarrow> (Inr (call_answer r), t')))"

definition code_request ::
    "(pystr, 't namespace) dict \<Rightarrow> pystr \<Rightarrow> pystr \<Rightarrow> scope \<Rightarrow> real \<Rightarrow> real option \<Rightarrow> 't exec_request" where
  "code_request tools code aid s tmo call_tmo =
     \<lparr>xr_action = u ''code_mode'', xr_agent_id = aid, xr_scope = s, xr_code = code,
      xr_on_tool_call = tm_on_tool_call tools, xr_timeout = tmo, xr_tool_call_timeout = call_tmo,
      xr_skill_name = None\<rparr>"

definition tm_run_code ::
    "(pystr \<Rightarrow> pystr \<Rightarrow> scope \<Rightarrow> 'g \<Rightarrow> grant result \<times> 'g) \<Rightarrow> ('b, 't) sandbox \<Rightarrow> (nat list \<Rightarrow> pystr) \<Rightarrow> real
     \<Rightarrow> 'b waits \<Rightarrow> ('p, 'f, 't) tool_manager
     \<Rightarrow> pystr \<Rightarrow> pystr \<Rightarrow> scope \<Rightarrow> real \<Rightarrow> real option \<Rightarrow> (('g, 'b, 't) exec_world, run_result) io" where
  "tm_run_code check sb hexdigest latency wakes m code aid s tmo call_tmo =
     execute_in_sandbox check sb hexdigest latency wakes (code_request (tm_tools m) code aid s tmo call_tmo)"

section \<open>Lemmas\<close>

lemma rmap_Inr: "rmap f xs = Inr ys \<Longrightarrow> length ys = length xs \<and> (\<forall>i < length xs. f (xs ! i) = Inr (ys ! i))"
proof (induction xs arbitrary: ys)
  case (Cons x xs)
  then obtain y zs where "f x = Inr y" "rmap f xs = Inr zs" "ys = y # zs"
    by (auto simp: rbind_def split: sum.splits)
  with Cons.IH [of zs] show ?case by (auto simp: nth_Cons split: nat.split)
qed simp

lemma rmap_tool_items:
  "rmap tool_item ss = Inr is \<Longrightarrow>
   is = map (\<lambda>s. \<lparr>ix_id = ts_name s, ix_kind = Tool, ix_name = ts_name s, ix_description = ts_description s,
                  ix_eager = ts_eager s\<rparr>) ss"
  by (induction ss arbitrary: "is")
     (auto simp: rbind_def tool_item_def make_indexable_def split: sum.splits if_splits)

lemma route_all: "dict_get (fold (\<lambda>s. dict_set (ts_name s) ns) ss d) k =
    (if k \<in> ts_name ` set ss then Some ns else dict_get d k)"
  by (induction ss arbitrary: d) (auto simp: map_of_dict_set)

lemma index_all_tools:
  "index_all (map (\<lambda>s. \<lparr>ix_id = ts_name s, ix_kind = Tool, ix_name = ts_name s, ix_description = ts_description s,
                        ix_eager = ts_eager s\<rparr>) ss) m k \<noteq> None \<longleftrightarrow> k \<in> ts_name ` set ss \<or> m k \<noteq> None"
  by (induction ss arbitrary: m) (auto simp: index_all_def)

lemma tm_register_parts:
  assumes "tm_register bp bf ns t m = (r, m')"
  shows "r = Inr () \<Longrightarrow> dict_get (tm_tools m') k = (if k \<in> ts_name ` set (ns_list_schemas ns t) then Some ns else dict_get (tm_tools m) k)"
    and "r = Inr () \<Longrightarrow> dict_get (rt_registered (tm_retriever m')) k \<noteq> None \<longleftrightarrow>
           k \<in> ts_name ` set (ns_list_schemas ns t) \<or> dict_get (rt_registered (tm_retriever m)) k \<noteq> None"
    and "r = Inl e \<Longrightarrow> tm_tools m' = tm_tools m \<and> rt_registered (tm_retriever m') = rt_registered (tm_retriever m)"
proof -
  let ?ss = "ns_list_schemas ns t"
  show 1: "dict_get (tm_tools m') k = (if k \<in> ts_name ` set ?ss then Some ns else dict_get (tm_tools m) k)" if "r = Inr ()"
    using assms that by (auto simp: tm_register_def Let_def route_all split: sum.splits prod.splits)
  show "dict_get (rt_registered (tm_retriever m')) k \<noteq> None \<longleftrightarrow>
      k \<in> ts_name ` set ?ss \<or> dict_get (rt_registered (tm_retriever m)) k \<noteq> None" if "r = Inr ()"
  proof -
    note ok = that
    obtain items rr where i: "rmap tool_item ?ss = Inr items" "rt_register bp bf items (tm_retriever m) = (Inr (), rr)"
      "tm_retriever m' = rr"
      using assms ok by (auto simp: tm_register_def Let_def split: sum.splits prod.splits)
    from register_registered [OF i(2)] i(3) show ?thesis
      using index_all_tools [of ?ss "dict_get (rt_registered (tm_retriever m))" k]
      by (simp add: map_of_batch rmap_tool_items [OF i(1)])
  qed
  show "tm_tools m' = tm_tools m \<and> rt_registered (tm_retriever m') = rt_registered (tm_retriever m)" if "r = Inl e"
    using assms that register_registered [of bp bf _ "tm_retriever m"]
    by (fastforce simp: tm_register_def Let_def split: sum.splits prod.splits)
qed

section \<open>Properties\<close>

text \<open>Registering a namespace is all or nothing. When it returns, each of its tools is known to the
  retriever and routed to it, whoever had the name before, and every other name is as it was; when it
  raises, no route and no registered item has changed.\<close>

lemma tool_register_routes:
  assumes "tm_register bp bf ns t m = (r, m')"
  shows "(r = Inr () \<longrightarrow> (\<forall>k.
            dict_get (tm_tools m') k = (if k \<in> ts_name ` set (ns_list_schemas ns t) then Some ns else dict_get (tm_tools m) k) \<and>
            (dict_get (rt_registered (tm_retriever m')) k \<noteq> None \<longleftrightarrow>
               k \<in> ts_name ` set (ns_list_schemas ns t) \<or> dict_get (rt_registered (tm_retriever m)) k \<noteq> None))) \<and>
         (\<forall>e. r = Inl e \<longrightarrow> tm_tools m' = tm_tools m \<and> rt_registered (tm_retriever m') = rt_registered (tm_retriever m))"
  using tm_register_parts [OF assms] by blast

definition echo_schema :: tool_schema where
  "echo_schema = \<lparr>ts_name = [101], ts_description = [100], ts_input_schema = [], ts_eager = False\<rparr>"

definition echo_tools :: "unit tool_dict" where
  "echo_tools = [([101], (echo_schema, \<lambda>ps t. (Inr (PDict ps), t)))]"

definition echo_namespace :: "unit namespace" where
  "echo_namespace = dict_namespace (\<lambda>e. []) echo_tools"

definition demo_tool_manager :: "(keyword_state, keyword_state, unit) tool_manager" where
  "demo_tool_manager = new_tool_manager demo_retriever"

lemma tool_register_routes_witness:
  "\<exists>m'. tm_register (keyword_backend demo_bm25) (keyword_backend demo_bm25) echo_namespace () demo_tool_manager = (Inr (), m') \<and>
        dict_get (tm_tools m') [101] = Some echo_namespace"
proof -
  have i: "rmap tool_item (ns_list_schemas echo_namespace ()) = Inr [\<lparr>ix_id = [101], ix_kind = Tool, ix_name = [101], ix_description = [100], ix_eager = False\<rparr>]"
    by (simp add: echo_namespace_def dict_namespace_def dict_list_schemas_def echo_tools_def echo_schema_def
        tool_item_def make_indexable_def)
  obtain m' where reg: "tm_register (keyword_backend demo_bm25) (keyword_backend demo_bm25) echo_namespace ()
      demo_tool_manager = (Inr (), m')"
    using i by (auto simp: tm_register_def demo_tool_manager_def new_tool_manager_def demo_retriever_def
        new_retriever_def rt_register_def Let_def keyword_backend_def kw_add_def)
  have "[101] \<in> ts_name ` set (ns_list_schemas echo_namespace ())"
    by (simp add: echo_namespace_def dict_namespace_def dict_list_schemas_def echo_tools_def echo_schema_def)
  with tool_register_routes [OF reg] reg show ?thesis by auto
qed

text \<open>A tool call of code-mode always answers with the same three fields: an unknown tool, a raising
  function and a degraded source are answers with \<^verbatim>\<open>success\<close> false, as long as every registered
  namespace keeps its contract; only what is not an \<^verbatim>\<open>Exception\<close>, a cancellation, goes through.\<close>

lemma tool_call_answers:
  assumes "\<forall>ns \<in> set (dict_values tools). tool_namespace ns" and "tm_on_tool_call tools tool params t = (r, t')"
  shows "(\<exists>ok v msg. r = Inr [(u ''success'', PBool ok), (u ''value'', v), (u ''error_message'', msg)]) \<or>
         (\<exists>e. r = Inl e \<and> \<not> is_Exception e)"
proof (cases "dict_get tools tool")
  case None
  with assms(2) show ?thesis by (auto simp: tm_on_tool_call_def call_answer_def simp del: u_simps)
next
  case (Some ns)
  then have "tool_namespace ns" using assms(1) dict_getD [OF Some] by blast
  then have "(\<exists>a s. ns_call ns tool params t = (Inr a, s)) \<or>
      (\<exists>e s. ns_call ns tool params t = (Inl e, s) \<and> \<not> is_Exception e)"
    by (rule tool_namespace.call_cases)
  with Some assms(2) show ?thesis by (auto simp: tm_on_tool_call_def call_answer_def simp del: u_simps)
qed

lemma tool_call_answers_witness:
  "fst (tm_on_tool_call [([101], echo_namespace)] [101] [] ())
     = Inr [(u ''success'', PBool True), (u ''value'', PDict []), (u ''error_message'', PNone)] \<and>
   (\<exists>ok v msg. fst (tm_on_tool_call [([101], echo_namespace)] [101] [] ())
     = Inr [(u ''success'', PBool ok), (u ''value'', v), (u ''error_message'', msg)])"
proof -
  have run: "tm_on_tool_call [([101], echo_namespace)] [101] [] ()
      = (Inr [(u ''success'', PBool True), (u ''value'', PDict []), (u ''error_message'', PNone)], ())"
    by (simp add: tm_on_tool_call_def echo_namespace_def dict_namespace_def dict_call_def echo_tools_def
        call_answer_def opt_val_def del: u_simps)
  have "tool_namespace echo_namespace" unfolding echo_namespace_def by (rule dict_tools.tool_namespace_axioms)
  then have "\<forall>ns \<in> set (dict_values [([101 :: nat], echo_namespace)]). tool_namespace ns" by simp
  from tool_call_answers [OF this run] run show ?thesis by auto
qed

end
