(* ===== verification/SkillManager.thy ===== *)
theory SkillManager
  imports ToolManager
begin

text \<open>
  \<^verbatim>\<open>src/fabrica/managers/skill_manager.py\<close>: loading a SKILL.md, the search among skills and the run of
  a skill's script. The YAML parser and the file system are parameters: \<open>raw\<close> is what reading
  SKILL.md gave, \<open>read_text\<close> reads a file of a skill's directory. YAML mappings are dictionaries
  with string keys; the program looks up nothing else.
\<close>

record skill =
  sk_name :: pystr
  sk_description :: pystr
  sk_script :: "pystr option"
  sk_dir :: pystr

record ('p, 'f) skill_manager =
  sm_retriever :: "('p, 'f) retriever"
  sm_skills :: "(pystr, skill) dict"

definition new_skill_manager :: "('p, 'f) retriever \<Rightarrow> ('p, 'f) skill_manager" where
  "new_skill_manager r = \<lparr>sm_retriever = r, sm_skills = []\<rparr>"

section \<open>Parsing\<close>

definition max_description_length :: nat where "max_description_length = 1024"

definition skill_parse_error :: exc where
  "skill_parse_error = raised (Manager_exc SkillParseError) []"

definition alnum_char :: "nat \<Rightarrow> bool" where
  "alnum_char c \<longleftrightarrow> (97 \<le> c \<and> c \<le> 122) \<or> (48 \<le> c \<and> c \<le> 57)"

definition name_char :: "nat \<Rightarrow> bool" where
  "name_char c \<longleftrightarrow> alnum_char c \<or> c = 45"

definition plain_name :: "pystr \<Rightarrow> bool" where
  "plain_name s \<longleftrightarrow> s \<noteq> [] \<and> alnum_char (hd s) \<and> list_all name_char (tl s)"

text \<open>\<^verbatim>\<open>re.compile(r"^[a-z0-9][a-z0-9-]*$").match(s)\<close>: the dollar also matches before a final newline.\<close>

definition name_matches :: "pystr \<Rightarrow> bool" where
  "name_matches s \<longleftrightarrow> plain_name s \<or> (s \<noteq> [] \<and> last s = 10 \<and> plain_name (butlast s))"

record skill_file =
  sf_name :: pystr
  sf_description :: pystr
  sf_script :: "pystr option"
  sf_eager :: bool

text \<open>The checks of the fields, in the order of the code.\<close>

definition field_checks :: "pyval \<Rightarrow> pyval \<Rightarrow> pyval \<Rightarrow> pyval \<Rightarrow> skill_file result" where
  "field_checks name description script eager =
     (case name of PStr n \<Rightarrow> (if n = [] then Inl skill_parse_error else
        (case description of PStr d \<Rightarrow> (if d = [] then Inl skill_parse_error else
           if \<not> name_matches n then Inl skill_parse_error
           else if length d > max_description_length then Inl skill_parse_error
           else (case (case script of PNone \<Rightarrow> Inr None | PStr s \<Rightarrow> Inr (Some s) | _ \<Rightarrow> Inl skill_parse_error) of
                   Inl e \<Rightarrow> Inl e
                 | Inr sc \<Rightarrow>
                     (case eager of
                        PBool b \<Rightarrow> Inr \<lparr>sf_name = n, sf_description = d, sf_script = sc, sf_eager = b\<rparr>
                      | _ \<Rightarrow> Inl skill_parse_error)))
         | _ \<Rightarrow> Inl skill_parse_error))
      | _ \<Rightarrow> Inl skill_parse_error)"

definition parse_skill :: "(pystr \<Rightarrow> pyval result) \<Rightarrow> pystr result \<Rightarrow> skill_file result" where
  "parse_skill yaml_load raw =
     (case raw of
        Inl e \<Rightarrow> Inl (if exc_isa OSError e then raised_from (Manager_exc SkillParseError) [] e else e)
      | Inr txt \<Rightarrow>
          (case frontmatter txt of
             None \<Rightarrow> Inl skill_parse_error
           | Some (head, body) \<Rightarrow>
               (case yaml_load head of
                  Inl e \<Rightarrow> Inl (if exc_isa YAMLError e then raised_from (Manager_exc SkillParseError) [] e else e)
                | Inr v \<Rightarrow>
                    (case (if py_truthy v then v else PDict []) of
                       PDict fm \<Rightarrow>
                         field_checks (dict_get_or fm (u ''name'') PNone) (dict_get_or fm (u ''description'') PNone)
                           (dict_get_or fm (u ''script'') PNone) (dict_get_or fm (u ''eager'') (PBool False))
                     | _ \<Rightarrow> Inl skill_parse_error))))"

section \<open>Operations\<close>

definition sm_load ::
    "'p backend \<Rightarrow> 'f backend \<Rightarrow> (pystr \<Rightarrow> pyval result) \<Rightarrow> pystr result \<Rightarrow> pystr \<Rightarrow> ('p, 'f) skill_manager
     \<Rightarrow> unit result \<times> ('p, 'f) skill_manager" where
  "sm_load bp bf yaml_load raw dir m =
     (case parse_skill yaml_load raw of
        Inl e \<Rightarrow> (Inl e, m)
      | Inr f \<Rightarrow>
          let m1 = m\<lparr>sm_skills := dict_set (sf_name f)
                       \<lparr>sk_name = sf_name f, sk_description = sf_description f, sk_script = sf_script f, sk_dir = dir\<rparr>
                       (sm_skills m)\<rparr> in
          (case make_indexable (sf_name f) Skill (sf_name f) (sf_description f) (sf_eager f) of
             Inl e \<Rightarrow> (Inl e, m1)
           | Inr item \<Rightarrow>
               (case rt_register bp bf [item] (sm_retriever m1) of (r, rt) \<Rightarrow> (r, m1\<lparr>sm_retriever := rt\<rparr>))))"

definition sm_find ::
    "real \<Rightarrow> 'p backend \<Rightarrow> 'f backend \<Rightarrow> pystr \<Rightarrow> int \<Rightarrow> (('p, 'f) skill_manager, ranked_match list) io" where
  "sm_find elapsed bp bf q n =
     io_zoom sm_retriever (\<lambda>r m. m\<lparr>sm_retriever := r\<rparr>)
       (traced_find (u ''fabrica.skill.find'') Skill elapsed bp bf q n)"

definition skill_code :: "(real \<Rightarrow> pystr) \<Rightarrow> pyval \<Rightarrow> pystr \<Rightarrow> pystr" where
  "skill_code fr args script_body = u ''args = '' @ json_dumps fr args @ [10] @ script_body"

definition no_tools :: "'t tool_callback" where
  "no_tools tool params t = (Inr (call_answer (failed_call (u ''skills have no tool access''))), t)"

definition skill_request ::
    "pystr \<Rightarrow> pystr \<Rightarrow> pystr \<Rightarrow> scope \<Rightarrow> real \<Rightarrow> real option \<Rightarrow> 't exec_request" where
  "skill_request name code aid s tmo call_tmo =
     \<lparr>xr_action = u ''skill_run:'' @ name, xr_agent_id = aid, xr_scope = s, xr_code = code,
      xr_on_tool_call = no_tools, xr_timeout = tmo, xr_tool_call_timeout = call_tmo, xr_skill_name = Some name\<rparr>"

definition skill_not_found :: exc where
  "skill_not_found = raised (Manager_exc SkillNotFoundError) []"

definition sm_run ::
    "(pystr \<Rightarrow> pystr \<Rightarrow> scope \<Rightarrow> 'g \<Rightarrow> grant result \<times> 'g) \<Rightarrow> ('b, 't) sandbox \<Rightarrow> (nat list \<Rightarrow> pystr) \<Rightarrow> real
     \<Rightarrow> 'b waits \<Rightarrow> (pystr \<Rightarrow> pystr \<Rightarrow> pystr result) \<Rightarrow> (real \<Rightarrow> pystr)
     \<Rightarrow> ('p, 'f) skill_manager \<Rightarrow> pystr \<Rightarrow> pyval \<Rightarrow> pystr \<Rightarrow> scope \<Rightarrow> real \<Rightarrow> real option
     \<Rightarrow> (('g, 'b, 't) exec_world, run_result) io" where
  "sm_run check sb hexdigest latency wakes read_text fr m name args aid s tmo call_tmo =
     (case dict_get (sm_skills m) name of
        None \<Rightarrow> io_raise skill_not_found
      | Some sk \<Rightarrow>
          (case sk_script sk of
             None \<Rightarrow> io_raise skill_not_found
           | Some script \<Rightarrow>
               (case read_text (sk_dir sk) script of
                  Inl e \<Rightarrow> io_raise e
                | Inr body \<Rightarrow>
                    execute_in_sandbox check sb hexdigest latency wakes
                      (skill_request name (skill_code fr args body) aid s tmo call_tmo))))"

section \<open>Lemmas\<close>

lemma field_checks_Inr:
  assumes "field_checks name description script eager = Inr f"
  shows "name = PStr (sf_name f)" "description = PStr (sf_description f)" "name_matches (sf_name f)"
    and "sf_name f \<noteq> []" "sf_description f \<noteq> []" "length (sf_description f) \<le> max_description_length"
  using assms by (auto simp: field_checks_def split: pyval.splits if_splits sum.splits)

lemma field_checks_raises:
  "field_checks name description script eager = Inl e \<Longrightarrow> e = skill_parse_error"
  by (auto simp: field_checks_def split: pyval.splits if_splits)

lemma parse_skill_raises:
  assumes "parse_skill yaml_load raw = Inl e" "\<not> exc_isa (Manager_exc SkillParseError) e"
  shows "raw = Inl e \<or> (\<exists>txt. yaml_load txt = Inl e)"
  using assms
  by (auto simp: parse_skill_def skill_parse_error_def exc_simps dest!: field_checks_raises
      split: sum.splits option.splits prod.splits pyval.splits if_splits)

lemma parse_skill_Inr:
  assumes "parse_skill yaml_load raw = Inr f"
  shows "\<exists>txt head body fm. raw = Inr txt \<and> frontmatter txt = Some (head, body) \<and> yaml_load head = Inr (PDict fm) \<and>
           dict_get fm (u ''name'') = Some (PStr (sf_name f)) \<and>
           dict_get fm (u ''description'') = Some (PStr (sf_description f))"
proof -
  from assms obtain doc head body v where 1: "raw = Inr doc" "frontmatter doc = Some (head, body)" "yaml_load head = Inr v"
    by (auto simp: parse_skill_def split: sum.splits option.splits prod.splits)
  with assms obtain fm where fm: "(if py_truthy v then v else PDict []) = PDict fm"
    and c: "field_checks (dict_get_or fm (u ''name'') PNone) (dict_get_or fm (u ''description'') PNone)
              (dict_get_or fm (u ''script'') PNone) (dict_get_or fm (u ''eager'') (PBool False)) = Inr f"
    by (auto simp: parse_skill_def simp del: u_simps split: pyval.splits)
  have n: "dict_get fm (u ''name'') = Some (PStr (sf_name f))"
    using field_checks_Inr(1) [OF c] by (auto simp: dict_get_or_def simp del: u_simps split: option.splits)
  have d: "dict_get fm (u ''description'') = Some (PStr (sf_description f))"
    using field_checks_Inr(2) [OF c] by (auto simp: dict_get_or_def simp del: u_simps split: option.splits)
  have "v = PDict fm" using fm n by (cases "py_truthy v") auto
  with 1 n d show ?thesis by blast
qed

section \<open>Properties\<close>

text \<open>C38: A skill that loads is well formed and known. Its name matches the name pattern, its description
  is not empty and at most 1024 characters, both are those of the front matter; it is then the skill
  of that name, in that directory, and registered with the retriever as a skill. No other skill
  changes.\<close>

theorem skill_load_sound:
  assumes "sm_load bp bf yaml_load raw dir m = (Inr (), m')"
  shows "\<exists>f. parse_skill yaml_load raw = Inr f \<and> name_matches (sf_name f) \<and> sf_description f \<noteq> [] \<and>
           length (sf_description f) \<le> max_description_length \<and>
           sm_skills m' = dict_set (sf_name f)
             \<lparr>sk_name = sf_name f, sk_description = sf_description f, sk_script = sf_script f, sk_dir = dir\<rparr> (sm_skills m) \<and>
           dict_get (rt_registered (sm_retriever m')) (sf_name f) =
             Some \<lparr>ix_id = sf_name f, ix_kind = Skill, ix_name = sf_name f, ix_description = sf_description f, ix_eager = sf_eager f\<rparr>"
proof -
  obtain f where f: "parse_skill yaml_load raw = Inr f"
    using assms by (cases "parse_skill yaml_load raw") (auto simp: sm_load_def)
  then obtain a b c d where c: "field_checks a b c d = Inr f"
    by (auto simp: parse_skill_def split: sum.splits option.splits prod.splits pyval.splits)
  note chk = field_checks_Inr [OF c]
  let ?i = "\<lparr>ix_id = sf_name f, ix_kind = Skill, ix_name = sf_name f, ix_description = sf_description f, ix_eager = sf_eager f\<rparr>"
  obtain rt where r: "rt_register bp bf [?i] (sm_retriever m) = (Inr (), rt)" and m': "sm_retriever m' = rt"
    "sm_skills m' = dict_set (sf_name f)
       \<lparr>sk_name = sf_name f, sk_description = sf_description f, sk_script = sf_script f, sk_dir = dir\<rparr> (sm_skills m)"
    using assms f chk(4) by (auto simp: sm_load_def make_indexable_def Let_def split: prod.splits)
  from register_registered [OF r] m'(1) have "dict_get (rt_registered (sm_retriever m')) (sf_name f) = Some ?i"
    by (simp add: map_of_dict_set)
  with f chk m' show ?thesis by blast
qed

definition demo_skill_text :: pystr where
  "demo_skill_text = [45, 45, 45, 10, 97, 10, 45, 45, 45, 10, 120]"

definition demo_yaml :: "pystr \<Rightarrow> pystr \<Rightarrow> pystr \<Rightarrow> pyval result" where
  "demo_yaml name description doc = Inr (PDict [(u ''name'', PStr name), (u ''description'', PStr description)])"

definition demo_skill_file :: "pystr \<Rightarrow> pystr \<Rightarrow> skill_file" where
  "demo_skill_file name description = \<lparr>sf_name = name, sf_description = description, sf_script = None, sf_eager = False\<rparr>"

lemma demo_parse_skill:
  assumes "name_matches name" "name \<noteq> []" "description \<noteq> []" "length description \<le> 1024"
  shows "parse_skill (demo_yaml name description) (Inr demo_skill_text) = Inr (demo_skill_file name description)"
  using assms
  by (simp add: parse_skill_def demo_skill_text_def demo_frontmatter demo_yaml_def dict_get_or_def field_checks_def
      max_description_length_def demo_skill_file_def)

definition demo_skill_manager :: "(keyword_state, keyword_state) skill_manager" where
  "demo_skill_manager = new_skill_manager demo_retriever"

lemma skill_load_sound_witness:
  "\<exists>m'. sm_load (keyword_backend demo_bm25) (keyword_backend demo_bm25) (demo_yaml [97] [98]) (Inr demo_skill_text) [100]
          demo_skill_manager = (Inr (), m') \<and> dict_get (rt_registered (sm_retriever m')) [97] \<noteq> None"
proof -
  have p: "parse_skill (demo_yaml [97] [98]) (Inr demo_skill_text) = Inr (demo_skill_file [97] [98])"
    by (rule demo_parse_skill) (simp_all add: name_matches_def plain_name_def alnum_char_def)
  obtain m' where l: "sm_load (keyword_backend demo_bm25) (keyword_backend demo_bm25) (demo_yaml [97] [98]) (Inr demo_skill_text)
      [100] demo_skill_manager = (Inr (), m')"
    using p by (simp add: sm_load_def demo_skill_file_def make_indexable_def demo_skill_manager_def new_skill_manager_def
        demo_retriever_def new_retriever_def rt_register_def Let_def keyword_backend_def kw_add_def)
  from skill_load_sound [OF l] p l show ?thesis by (auto simp: demo_skill_file_def)
qed

text \<open>A load that the retriever refuses is not undone. When the name is already registered as a tool, or
  as a skill with another description, loading raises \<^verbatim>\<open>DuplicateIndexableError\<close>, and yet the skill
  manager has taken the new skill: its script and directory replace those that were there.\<close>

lemma skill_load_not_undone:
  assumes "parse_skill yaml_load raw = Inr f" "dict_get (rt_registered (sm_retriever m)) (sf_name f) = Some old"
    and "conflicts old \<lparr>ix_id = sf_name f, ix_kind = Skill, ix_name = sf_name f, ix_description = sf_description f,
                         ix_eager = sf_eager f\<rparr>"
  shows "\<exists>e m'. sm_load bp bf yaml_load raw dir m = (Inl e, m') \<and>
           exc_isa (Retriever_exc DuplicateIndexableError) e \<and> sm_retriever m' = sm_retriever m \<and>
           dict_get (sm_skills m') (sf_name f) =
             Some \<lparr>sk_name = sf_name f, sk_description = sf_description f, sk_script = sf_script f, sk_dir = dir\<rparr>"
proof -
  obtain a b c d where c: "field_checks a b c d = Inr f"
    using assms(1) by (auto simp: parse_skill_def split: sum.splits option.splits prod.splits pyval.splits)
  let ?i = "\<lparr>ix_id = sf_name f, ix_kind = Skill, ix_name = sf_name f, ix_description = sf_description f, ix_eager = sf_eager f\<rparr>"
  from register_all_or_nothing_parts(1) [of ?i "[?i]" "sm_retriever m" old bp bf] assms(2,3)
  obtain e where "rt_register bp bf [?i] (sm_retriever m) = (Inl e, sm_retriever m)"
    "exc_isa (Retriever_exc DuplicateIndexableError) e"
    by (cases "rt_register bp bf [?i] (sm_retriever m)") auto
  with assms(1) field_checks_Inr(4) [OF c] show ?thesis
    by (auto simp: sm_load_def make_indexable_def Let_def map_of_dict_set)
qed

lemma skill_load_not_undone_witness:
  "\<exists>e m'. sm_load (keyword_backend demo_bm25) (keyword_backend demo_bm25) (demo_yaml [97] [98]) (Inr demo_skill_text) [100]
      (demo_skill_manager\<lparr>sm_retriever := demo_retriever\<lparr>rt_registered := [([97], demo_item [97] [98])]\<rparr>\<rparr>) = (Inl e, m') \<and>
      dict_get (sm_skills m') [97] \<noteq> None"
proof -
  have p: "parse_skill (demo_yaml [97] [98]) (Inr demo_skill_text) = Inr (demo_skill_file [97] [98])"
    by (rule demo_parse_skill) (simp_all add: name_matches_def plain_name_def alnum_char_def)
  from skill_load_not_undone [OF p, where old = "demo_item [97] [98]"
      and m = "demo_skill_manager\<lparr>sm_retriever := demo_retriever\<lparr>rt_registered := [([97], demo_item [97] [98])]\<rparr>\<rparr>"
      and bp = "keyword_backend demo_bm25" and bf = "keyword_backend demo_bm25" and dir = "[100]"]
  show ?thesis by (auto simp: demo_skill_file_def demo_item_def conflicts_def)
qed

text \<open>A skill's arguments reach its script as JSON text after \<^verbatim>\<open>args =\<close>, in Python source: a boolean is
  written \<^verbatim>\<open>true\<close> or \<^verbatim>\<open>false\<close> and a missing value \<^verbatim>\<open>null\<close>, which are not Python names.\<close>

lemma skill_args_are_json:
  "skill_code fr (PDict [(k, v)]) body =
     u ''args = {'' @ json_str k @ u '': '' @
     (case v of PNone \<Rightarrow> u ''null'' | PBool b \<Rightarrow> (if b then u ''true'' else u ''false'') | _ \<Rightarrow> json_dumps fr v) @
     u ''}'' @ [10] @ body"
  by (cases v) (simp_all add: skill_code_def)

text \<open>A name with a final newline is taken: every name that matches the documented pattern still
  passes all checks with a newline after it.\<close>

lemma newline_name_accepted:
  assumes "plain_name n" "d \<noteq> []" "length d \<le> max_description_length"
  shows "\<exists>f. field_checks (PStr (n @ [10])) (PStr d) PNone (PBool False) = Inr f \<and> sf_name f = n @ [10]"
  using assms by (auto simp: field_checks_def name_matches_def)

lemma newline_name_accepted_witness:
  "\<exists>f. field_checks (PStr [97, 10]) (PStr [98]) PNone (PBool False) = Inr f \<and> sf_name f = [97, 10]"
  using newline_name_accepted [of "[97]" "[98]"]
  by (simp add: plain_name_def alnum_char_def max_description_length_def)

text \<open>Only a loaded skill with a script runs. Otherwise \<^verbatim>\<open>SkillNotFoundError\<close> is raised and neither the
  governance client, the pool nor the tools are touched; and what runs is the skill's script, under the
  action that names the skill, with no tool access.\<close>

lemma skill_run_only_scripts:
  "(\<nexists>sk script. dict_get (sm_skills m) name = Some sk \<and> sk_script sk = Some script) \<and>
     sm_run check sb hexdigest latency wakes read_text fr m name args aid s tmo ct (t, w) = (Inl skill_not_found, (t, w)) \<or>
   (\<exists>sk script. dict_get (sm_skills m) name = Some sk \<and> sk_script sk = Some script \<and>
     (case read_text (sk_dir sk) script of
        Inl e \<Rightarrow> sm_run check sb hexdigest latency wakes read_text fr m name args aid s tmo ct (t, w) = (Inl e, (t, w))
      | Inr body \<Rightarrow>
          map_prod id snd (sm_run check sb hexdigest latency wakes read_text fr m name args aid s tmo ct (t, w)) =
          execute_outcome check sb wakes (skill_request name (skill_code fr args body) aid s tmo ct) w))"
proof (cases "\<exists>sk script. dict_get (sm_skills m) name = Some sk \<and> sk_script sk = Some script")
  case False
  then have "sm_run check sb hexdigest latency wakes read_text fr m name args aid s tmo ct (t, w) = (Inl skill_not_found, (t, w))"
    by (auto simp: sm_run_def io_raise_def split: option.split)
  with False show ?thesis by blast
next
  case True
  then obtain sk script where s: "dict_get (sm_skills m) name = Some sk" "sk_script sk = Some script" by blast
  show ?thesis
  proof (cases "read_text (sk_dir sk) script")
    case (Inl e)
    with s show ?thesis by (intro disjI2 exI [of _ sk]) (auto simp: sm_run_def io_raise_def)
  next
    case (Inr body)
    obtain r t' w' where x: "execute_in_sandbox check sb hexdigest latency wakes
        (skill_request name (skill_code fr args body) aid s tmo ct) (t, w) = (r, (t', w'))" by (metis prod.exhaust)
    from execute_implements [OF x] s Inr x show ?thesis
      by (intro disjI2 exI [of _ sk]) (auto simp: sm_run_def)
  qed
qed

end
