(* ===== verification/WorkingMemory.thy ===== *)
theory WorkingMemory
  imports ScopeModel
begin

text \<open>
  \<^verbatim>\<open>src/fabrica/memory/working_memory.py\<close>: key-value data per scope under a size quota.

  \<^verbatim>\<open>sys.getsizeof\<close> is a parameter (it depends on the interpreter's build). A scope's data are
  kept under its four fixed fields; \<open>wm_view\<close> is what a scope sees. A history is any sequence of
  operations, those that raise included.
\<close>

record working_memory =
  wm_quota_bytes :: int
  wm_data :: "(scope_key, pydict) dict"

definition default_quota_bytes :: int where "default_quota_bytes = 256 * 1024"

definition new_working_memory :: "int \<Rightarrow> working_memory" where
  "new_working_memory quota = \<lparr>wm_quota_bytes = quota, wm_data = []\<rparr>"

definition wm_view :: "working_memory \<Rightarrow> scope \<Rightarrow> pydict" where
  "wm_view wm s = dict_get_or (wm_data wm) (scope_key s) []"

definition entries_size :: "(pyval \<Rightarrow> int) \<Rightarrow> pydict \<Rightarrow> int" where
  "entries_size getsizeof d = sum_list (map (\<lambda>(k, v). getsizeof (PStr k) + getsizeof v) d)"

definition quota_exceeded :: "pystr \<Rightarrow> int \<Rightarrow> int \<Rightarrow> exc" where
  "quota_exceeded key nbytes quota =
     raised (Memory_exc WorkingMemoryQuotaExceeded) [PStr key, PInt nbytes, PInt quota]"

definition wm_remember ::
    "(pyval \<Rightarrow> int) \<Rightarrow> scope \<Rightarrow> pystr \<Rightarrow> pyval \<Rightarrow> working_memory \<Rightarrow> unit result \<times> working_memory" where
  "wm_remember getsizeof s key v wm =
     (let wm1 = wm\<lparr>wm_data := dict_setdefault (scope_key s) [] (wm_data wm)\<rparr>;
          candidate = dict_set key v (wm_view wm1 s);
          nbytes = entries_size getsizeof candidate
      in if nbytes > wm_quota_bytes wm1 then (Inl (quota_exceeded key nbytes (wm_quota_bytes wm1)), wm1)
         else (Inr (), wm1\<lparr>wm_data := dict_set (scope_key s) candidate (wm_data wm1)\<rparr>))"

definition wm_recall :: "scope \<Rightarrow> pystr \<Rightarrow> working_memory \<Rightarrow> pyval" where
  "wm_recall s key wm = dict_get_or (wm_view wm s) key PNone"

definition wm_snapshot :: "scope \<Rightarrow> working_memory \<Rightarrow> pydict" where
  "wm_snapshot s wm = wm_view wm s"

definition wm_clear :: "scope \<Rightarrow> working_memory \<Rightarrow> working_memory" where
  "wm_clear s wm = wm\<lparr>wm_data := dict_pop (scope_key s) (wm_data wm)\<rparr>"

section \<open>Views\<close>

lemma wm_view_setdefault [simp]:
  "wm_view (wm\<lparr>wm_data := dict_setdefault k [] (wm_data wm)\<rparr>) s = wm_view wm s"
  by (auto simp: wm_view_def dict_get_or_def map_of_dict_setdefault split: option.split)

lemma wm_view_set [simp]:
  "wm_view (wm\<lparr>wm_data := dict_set k d xs\<rparr>) s =
     (if scope_key s = k then d else wm_view (wm\<lparr>wm_data := xs\<rparr>) s)"
  by (simp add: wm_view_def dict_get_or_def map_of_dict_set)

lemma wm_view_clear:
  "wm_view (wm_clear s wm) s' = (if scope_key s' = scope_key s then [] else wm_view wm s')"
  by (simp add: wm_view_def wm_clear_def dict_get_or_def map_of_dict_pop)

lemma wm_remember_view:
  assumes "wm_remember getsizeof s key v wm = (x, wm')"
  shows "wm_view wm' s' =
    (if x = Inr () \<and> scope_key s' = scope_key s then dict_set key v (wm_view wm s) else wm_view wm s')"
    and "x = Inr () \<Longrightarrow> entries_size getsizeof (dict_set key v (wm_view wm s)) \<le> wm_quota_bytes wm"
    and "wm_quota_bytes wm' = wm_quota_bytes wm"
  using assms by (auto simp: wm_remember_def Let_def split: if_splits)

section \<open>Histories\<close>

datatype wm_event = Remember scope pystr pyval | ClearScope scope

fun wm_step :: "(pyval \<Rightarrow> int) \<Rightarrow> wm_event \<Rightarrow> working_memory \<Rightarrow> working_memory" where
  "wm_step getsizeof (Remember s key v) wm = snd (wm_remember getsizeof s key v wm)"
| "wm_step getsizeof (ClearScope s) wm = wm_clear s wm"

definition within_quota :: "(pyval \<Rightarrow> int) \<Rightarrow> working_memory \<Rightarrow> bool" where
  "within_quota getsizeof wm \<longleftrightarrow>
     (\<forall>s. dict_ok (wm_view wm s) \<and>
          (wm_view wm s = [] \<or> entries_size getsizeof (wm_view wm s) \<le> wm_quota_bytes wm))"

lemma wm_step_quota [simp]: "wm_quota_bytes (wm_step getsizeof e wm) = wm_quota_bytes wm"
  by (cases e) (auto simp: wm_remember_def wm_clear_def Let_def)

lemma wm_step_within_quota: "within_quota getsizeof wm \<Longrightarrow> within_quota getsizeof (wm_step getsizeof e wm)"
proof (cases e)
  case (Remember s key v)
  assume ok: "within_quota getsizeof wm"
  obtain x wm' where r: "wm_remember getsizeof s key v wm = (x, wm')" by (metis prod.exhaust)
  note view = wm_remember_view [OF r]
  have "dict_ok (dict_set key v (wm_view wm s))" using ok by (simp add: within_quota_def)
  then show ?thesis using ok view r Remember by (simp add: within_quota_def)
next
  case (ClearScope s)
  assume "within_quota getsizeof wm"
  moreover have "wm_quota_bytes (wm_clear s wm) = wm_quota_bytes wm" by (simp add: wm_clear_def)
  ultimately show ?thesis using ClearScope by (simp add: within_quota_def wm_view_clear)
qed

lemma wm_history_within_quota:
  "within_quota getsizeof wm \<Longrightarrow> within_quota getsizeof (fold (wm_step getsizeof) es wm)"
  by (induction es arbitrary: wm) (auto intro: wm_step_within_quota)

lemma wm_history_quota [simp]: "wm_quota_bytes (fold (wm_step getsizeof) es wm) = wm_quota_bytes wm"
  by (induction es arbitrary: wm) auto

lemma new_working_memory_view [simp]: "wm_view (new_working_memory q) s = []"
  by (simp add: wm_view_def new_working_memory_def dict_get_or_def)

section \<open>Properties\<close>

text \<open>C36: the quota holds for every scope after any sequence of operations, refused ones included:
  a scope with data never holds more bytes than the quota.\<close>

theorem working_memory_quota:
  assumes "wm = fold (wm_step getsizeof) es (new_working_memory quota)" and "wm_view wm s \<noteq> []"
  shows "entries_size getsizeof (wm_snapshot s wm) \<le> quota"
proof -
  have "within_quota getsizeof (new_working_memory quota)" by (simp add: within_quota_def)
  then have "within_quota getsizeof wm" unfolding assms(1) by (rule wm_history_within_quota)
  with assms show ?thesis by (auto simp: within_quota_def wm_snapshot_def new_working_memory_def)
qed

lemma working_memory_quota_witness:
  "entries_size (\<lambda>v. 50) (wm_snapshot (agent_scope [97])
     (fold (wm_step (\<lambda>v. 50)) [Remember (agent_scope [97]) [107] PNone, Remember (agent_scope [97]) [108] PNone]
       (new_working_memory 150))) \<le> 150"
  by (rule working_memory_quota [OF refl])
    (simp add: wm_remember_def new_working_memory_def wm_view_def agent_scope_def scope_key_def
      dict_setdefault_def dict_get_or_def entries_size_def)

lemma remember_effect_parts:
  assumes "wm_remember getsizeof s key v wm = (x, wm')"
  shows "wm_recall s' key' wm' =
      (if x = Inr () \<and> scope_key s' = scope_key s \<and> key' = key then v else wm_recall s' key' wm)"
    and "x = Inr () \<longleftrightarrow> entries_size getsizeof (dict_set key v (wm_snapshot s wm)) \<le> wm_quota_bytes wm"
    and "x \<noteq> Inr () \<Longrightarrow> wm_snapshot s' wm' = wm_snapshot s' wm \<and>
      (\<exists>e. x = Inl e \<and> exc_isa (Memory_exc WorkingMemoryQuotaExceeded) e)"
proof -
  have s: "wm_view wm s' = wm_view wm s" if "scope_key s' = scope_key s" using that by (simp add: wm_view_def)
  show "wm_recall s' key' wm' =
      (if x = Inr () \<and> scope_key s' = scope_key s \<and> key' = key then v else wm_recall s' key' wm)"
    using wm_remember_view(1) [OF assms, of s'] s
    by (auto simp: wm_recall_def dict_get_or_def map_of_dict_set)
  show "x = Inr () \<longleftrightarrow> entries_size getsizeof (dict_set key v (wm_snapshot s wm)) \<le> wm_quota_bytes wm"
    using assms by (auto simp: wm_remember_def wm_snapshot_def Let_def split: if_splits)
  show "wm_snapshot s' wm' = wm_snapshot s' wm \<and>
      (\<exists>e. x = Inl e \<and> exc_isa (Memory_exc WorkingMemoryQuotaExceeded) e)" if "x \<noteq> Inr ()"
    using that wm_remember_view(1) [OF assms, of s'] assms
    by (auto simp: wm_remember_def wm_snapshot_def quota_exceeded_def exc_simps Let_def split: if_splits)
qed

text \<open>remembering is all or nothing and stays in its scope. On success the scope recalls the
  value under that key and everything else as before; when it would exceed the quota it raises,
  and no scope sees a change. Other scopes never see one.\<close>

lemma remember_effect:
  assumes "wm_remember getsizeof s key v wm = (x, wm')"
  shows "(\<forall>s' key'. wm_recall s' key' wm' =
      (if x = Inr () \<and> scope_key s' = scope_key s \<and> key' = key then v else wm_recall s' key' wm)) \<and>
    (x = Inr () \<longleftrightarrow> entries_size getsizeof (dict_set key v (wm_snapshot s wm)) \<le> wm_quota_bytes wm) \<and>
    (x \<noteq> Inr () \<longrightarrow> (\<forall>s'. wm_snapshot s' wm' = wm_snapshot s' wm) \<and>
      (\<exists>e. x = Inl e \<and> exc_isa (Memory_exc WorkingMemoryQuotaExceeded) e))"
  using remember_effect_parts [OF assms] by blast

lemma remember_effect_witness:
  "wm_recall (agent_scope [97]) [107] (snd (wm_remember (\<lambda>v. 50) (agent_scope [97]) [107] (PInt 1)
     (new_working_memory 100))) = PInt 1"
proof -
  have "wm_remember (\<lambda>v. 50) (agent_scope [97]) [107] (PInt 1) (new_working_memory 100) =
      (Inr (), \<lparr>wm_quota_bytes = 100, wm_data = [(scope_key (agent_scope [97]), [([107], PInt 1)])]\<rparr>)"
    by (simp add: wm_remember_def new_working_memory_def wm_view_def dict_setdefault_def
        dict_get_or_def entries_size_def)
  from remember_effect [OF this] show ?thesis
    by (simp add: wm_remember_def new_working_memory_def wm_view_def dict_setdefault_def
        dict_get_or_def entries_size_def)
qed

text \<open>the key of a scope leaves out its extra entries: two scopes that differ only there share
  their working memory, although the store is documented to be keyed by the full scope.\<close>

lemma extra_shares_working_memory:
  "wm_snapshot (s\<lparr>sc_extra := ex\<rparr>) (snd (wm_remember getsizeof s key v wm)) =
     wm_snapshot s (snd (wm_remember getsizeof s key v wm))"
  by (simp add: wm_snapshot_def wm_view_def scope_key_def)

end
