(* ===== verification/PyDatetime.thy ===== *)
theory PyDatetime
  imports PyText "HOL-Library.Monad_Syntax"
begin

text \<open>
  \<^verbatim>\<open>datetime\<close>, as far as the memory store uses it: \<^verbatim>\<open>isoformat()\<close> and \<^verbatim>\<open>fromisoformat()\<close> on
  what \<^verbatim>\<open>isoformat()\<close> writes. A time zone is its offset in microseconds. \<^verbatim>\<open>fromisoformat\<close> reads
  further ISO 8601 spellings, which the store never writes; here they are value errors.
\<close>

record datetime =
  dt_year :: nat
  dt_month :: nat
  dt_day :: nat
  dt_hour :: nat
  dt_minute :: nat
  dt_second :: nat
  dt_us :: nat
  dt_offset :: "int option"

definition leap_year :: "nat \<Rightarrow> bool" where
  "leap_year y \<longleftrightarrow> y mod 4 = 0 \<and> (y mod 100 \<noteq> 0 \<or> y mod 400 = 0)"

definition days_in_month :: "nat \<Rightarrow> nat \<Rightarrow> nat" where
  "days_in_month y m =
     (if m = 2 then (if leap_year y then 29 else 28) else if m \<in> {4, 6, 9, 11} then 30 else 31)"

definition day_us :: int where "day_us = 86400000000"

definition datetime_ok :: "datetime \<Rightarrow> bool" where
  "datetime_ok d \<longleftrightarrow>
     1 \<le> dt_year d \<and> dt_year d \<le> 9999 \<and> 1 \<le> dt_month d \<and> dt_month d \<le> 12 \<and>
     1 \<le> dt_day d \<and> dt_day d \<le> days_in_month (dt_year d) (dt_month d) \<and>
     dt_hour d < 24 \<and> dt_minute d < 60 \<and> dt_second d < 60 \<and> dt_us d < 1000000 \<and>
     (case dt_offset d of None \<Rightarrow> True | Some z \<Rightarrow> \<bar>z\<bar> < day_us)"

section \<open>Digits\<close>

primrec pad :: "nat \<Rightarrow> nat \<Rightarrow> pystr" where
  "pad 0 n = []"
| "pad (Suc w) n = pad w (n div 10) @ [48 + n mod 10]"

definition is_digit :: "nat \<Rightarrow> bool" where
  "is_digit c \<longleftrightarrow> 48 \<le> c \<and> c \<le> 57"

definition digits_value :: "pystr \<Rightarrow> nat" where
  "digits_value s = foldl (\<lambda>a c. 10 * a + (c - 48)) 0 s"

definition digits :: "nat \<Rightarrow> pystr \<Rightarrow> (nat \<times> pystr) option" where
  "digits w s =
     (if w \<le> length s \<and> list_all is_digit (take w s) then Some (digits_value (take w s), drop w s)
      else None)"

definition expect :: "nat \<Rightarrow> pystr \<Rightarrow> pystr option" where
  "expect c s = (case s of [] \<Rightarrow> None | x # xs \<Rightarrow> if x = c then Some xs else None)"

lemma expect_Cons [simp]: "expect c (c # s) = Some s"
  by (simp add: expect_def)

lemma length_pad [simp]: "length (pad w n) = w"
  by (induction w arbitrary: n) auto

lemma pad_digits: "list_all is_digit (pad w n)"
  by (induction w arbitrary: n) (auto simp: is_digit_def)

lemma digits_value_pad: "n < 10 ^ w \<Longrightarrow> digits_value (pad w n) = n"
proof (induction w arbitrary: n)
  case (Suc w)
  then have "n div 10 < 10 ^ w" by (simp add: less_mult_imp_div_less mult.commute)
  with Suc.IH have "digits_value (pad w (n div 10)) = n div 10" .
  then show ?case by (simp add: digits_value_def)
qed (simp add: digits_value_def)

lemma digits_pad [simp]: "n < 10 ^ w \<Longrightarrow> digits w (pad w n @ s) = Some (n, s)"
  by (simp add: digits_def pad_digits digits_value_pad)

section \<open>Printing\<close>

definition fraction :: "nat \<Rightarrow> pystr" where
  "fraction us = (if us = 0 then [] else 46 # pad 6 us)"

definition clock :: "nat \<Rightarrow> nat \<Rightarrow> nat \<Rightarrow> pystr" where
  "clock h m s = pad 2 h @ [58] @ pad 2 m @ [58] @ pad 2 s"

definition format_offset :: "int \<Rightarrow> pystr" where
  "format_offset z =
     (let a = nat \<bar>z\<bar>; us = a mod 1000000; s = a div 1000000 mod 60;
          m = a div 60000000 mod 60; h = a div 3600000000
      in (if z < 0 then 45 else 43) #
         (if s = 0 \<and> us = 0 then pad 2 h @ [58] @ pad 2 m else clock h m s @ fraction us))"

definition isoformat :: "datetime \<Rightarrow> pystr" where
  "isoformat d =
     pad 4 (dt_year d) @ [45] @ pad 2 (dt_month d) @ [45] @ pad 2 (dt_day d) @ [84] @
     clock (dt_hour d) (dt_minute d) (dt_second d) @ fraction (dt_us d) @
     (case dt_offset d of None \<Rightarrow> [] | Some z \<Rightarrow> format_offset z)"

section \<open>Parsing\<close>

definition parse_fraction :: "pystr \<Rightarrow> (nat \<times> pystr) option" where
  "parse_fraction s = (if s \<noteq> [] \<and> hd s = 46 then digits 6 (tl s) else Some (0, s))"

definition parse_hm :: "pystr \<Rightarrow> ((nat \<times> nat) \<times> pystr) option" where
  "parse_hm s = do {
     (h, s) \<leftarrow> digits 2 s; s \<leftarrow> expect 58 s;
     (m, s) \<leftarrow> digits 2 s; Some ((h, m), s) }"

definition parse_offset :: "pystr \<Rightarrow> int option option" where
  "parse_offset s =
     (if s = [] then Some None
      else if hd s = 43 \<or> hd s = 45 then do {
        ((h, m), t) \<leftarrow> parse_hm (tl s);
        (sec, us, t) \<leftarrow>
          (if t = [] then Some (0, 0, t)
           else do { t \<leftarrow> expect 58 t; (sec, t) \<leftarrow> digits 2 t; (us, t) \<leftarrow> parse_fraction t; Some (sec, us, t) });
        if t \<noteq> [] \<or> 60 \<le> m \<or> 60 \<le> sec then None
        else Some (Some ((if hd s = 45 then -1 else 1) *
               int (us + 1000000 * (sec + 60 * (m + 60 * h))))) }
      else None)"

definition parse_iso :: "pystr \<Rightarrow> datetime option" where
  "parse_iso s = do {
     (y, s) \<leftarrow> digits 4 s; s \<leftarrow> expect 45 s;
     (mo, s) \<leftarrow> digits 2 s; s \<leftarrow> expect 45 s;
     (d, s) \<leftarrow> digits 2 s; s \<leftarrow> expect 84 s;
     ((h, mi), s) \<leftarrow> parse_hm s; s \<leftarrow> expect 58 s;
     (sec, s) \<leftarrow> digits 2 s; (us, s) \<leftarrow> parse_fraction s;
     off \<leftarrow> parse_offset s;
     Some \<lparr>dt_year = y, dt_month = mo, dt_day = d, dt_hour = h, dt_minute = mi, dt_second = sec,
           dt_us = us, dt_offset = off\<rparr> }"

definition fromisoformat :: "pystr \<Rightarrow> datetime result" where
  "fromisoformat s =
     (case parse_iso s of
        Some d \<Rightarrow> if datetime_ok d then Inr d else Inl (raised ValueError [PStr s])
      | None \<Rightarrow> Inl (raised ValueError [PStr s]))"

section \<open>The round trip\<close>

lemma days_in_month_le: "days_in_month y m \<le> 31"
  by (simp add: days_in_month_def)

lemma parse_fraction_append:
  assumes "us < 1000000" and "s = [] \<or> hd s \<noteq> 46"
  shows "parse_fraction (fraction us @ s) = Some (us, s)"
  using assms by (auto simp: parse_fraction_def fraction_def simp del: pad.simps)

lemma parse_hm_pad: "h < 100 \<Longrightarrow> m < 100 \<Longrightarrow> parse_hm (pad 2 h @ 58 # pad 2 m @ s) = Some ((h, m), s)"
  by (simp add: parse_hm_def)

lemma offset_parts:
  fixes a :: nat
  shows "a mod 1000000 + 1000000 * (a div 1000000 mod 60 + 60 * (a div 60000000 mod 60 + 60 * (a div 3600000000))) = a"
proof -
  have "a div 60000000 = a div 1000000 div 60" "a div 3600000000 = a div 1000000 div 60 div 60"
    by (simp_all add: div_mult2_eq [symmetric])
  then show ?thesis by (metis mod_mult_div_eq)
qed

lemma parse_offset_format:
  assumes "\<bar>z\<bar> < day_us"
  shows "parse_offset (format_offset z) = Some (Some z)"
proof -
  define a where "a = nat \<bar>z\<bar>"
  have a: "a < 86400000000" using assms by (simp add: a_def day_us_def)
  define us s m h where d: "us = a mod 1000000" "s = a div 1000000 mod 60"
    "m = a div 60000000 mod 60" "h = a div 3600000000"
  have b: "us < 1000000" "s < 60" "m < 60" "h < 100" using a by (auto simp: d)
  have a_eq: "us + 1000000 * (s + 60 * (m + 60 * h)) = a" using offset_parts by (simp add: d)
  have z: "z < 0 \<Longrightarrow> - int a = z" "\<not> z < 0 \<Longrightarrow> int a = z"
    by (simp_all add: a_def)
  have f: "format_offset z = (if z < 0 then 45 else 43) #
      (if s = 0 \<and> us = 0 then pad 2 h @ [58] @ pad 2 m else clock h m s @ fraction us)"
    by (simp only: format_offset_def Let_def d a_def)
  show ?thesis
  proof (cases "s = 0 \<and> us = 0")
    case True
    have "parse_hm (pad 2 h @ 58 # pad 2 m) = Some ((h, m), [])"
      using parse_hm_pad [of h m "[]"] b by simp
    moreover have "format_offset z = (if z < 0 then 45 else 43) # pad 2 h @ 58 # pad 2 m"
      using f True by simp
    ultimately show ?thesis
      using True b a_eq z by (auto simp: parse_offset_def simp del: of_nat_add of_nat_mult)
  next
    case False
    have "parse_hm (pad 2 h @ 58 # pad 2 m @ 58 # pad 2 s @ fraction us) =
        Some ((h, m), 58 # pad 2 s @ fraction us)"
      using b by (intro parse_hm_pad) auto
    moreover have "parse_fraction (fraction us) = Some (us, [])"
      using parse_fraction_append [of us "[]"] b by simp
    moreover have "format_offset z =
        (if z < 0 then 45 else 43) # pad 2 h @ 58 # pad 2 m @ 58 # pad 2 s @ fraction us"
      using f False by (auto simp: clock_def)
    ultimately show ?thesis
      using b a_eq z by (auto simp: parse_offset_def simp del: of_nat_add of_nat_mult)
  qed
qed

lemma format_offset_hd: "format_offset z \<noteq> [] \<and> hd (format_offset z) \<noteq> 46"
  by (simp add: format_offset_def Let_def)

lemma fromisoformat_isoformat:
  assumes "datetime_ok d"
  shows "fromisoformat (isoformat d) = Inr d"
proof -
  let ?z = "case dt_offset d of None \<Rightarrow> [] | Some z \<Rightarrow> format_offset z"
  have b: "dt_year d < 10 ^ 4" "dt_month d < 10 ^ 2" "dt_day d < 10 ^ 2" "dt_hour d < 100"
    "dt_minute d < 100" "dt_second d < 10 ^ 2" "dt_us d < 1000000"
    using assms days_in_month_le [of "dt_year d" "dt_month d"] by (auto simp: datetime_ok_def)
  have "parse_offset ?z = Some (dt_offset d)"
    using assms parse_offset_format
    by (auto simp: datetime_ok_def parse_offset_def [of "[]"] split: option.splits)
  moreover have "parse_fraction (fraction (dt_us d) @ ?z) = Some (dt_us d, ?z)"
    using b(7) format_offset_hd by (intro parse_fraction_append) (auto split: option.split)
  ultimately have "parse_iso (isoformat d) = Some d"
    using b by (simp add: isoformat_def parse_iso_def clock_def parse_hm_pad)
  with assms show ?thesis by (simp add: fromisoformat_def)
qed

end
