(* ===== verification/MemoryStore.thy ===== *)
theory MemoryStore
  imports ScopeModel PyDatetime
begin

text \<open>
  \<^verbatim>\<open>src/fabrica/memory/store.py\<close> and \<^verbatim>\<open>src/fabrica/civitas_bridge/state.py\<close>: the in-memory
  long-term store, the persisted store that writes every change through to a blob, and the
  name-bound handle such a blob is in service mode.

  \<^verbatim>\<open>rank_bm25\<close>, \<^verbatim>\<open>uuid4\<close> and the clock are parameters (a fresh id and the current time are
  arguments of \<open>ms_write\<close>); the blob's operations are a parameter that may raise. A metadata
  dictionary is a value: the store holding a reference to the caller's dictionary is not
  modelled. \<open>memory_store\<close> is the contract the manager relies on; both stores interpret it.
\<close>

section \<open>The in-memory store\<close>

record memory_item =
  mi_id :: "pystr option"
  mi_content :: pystr
  mi_metadata :: pydict
  mi_created_at :: "datetime option"
  mi_score :: "real option"

type_synonym memory_state = "(scope_key, (pystr, memory_item) dict) dict"

type_synonym bm25_scores = "pystr list list \<Rightarrow> pystr list \<Rightarrow> real list result"

definition in_memory_error :: "exc \<Rightarrow> exc" where
  "in_memory_error e = raised_from (Memory_exc MemoryBackendError) [PStr (u ''in_memory'')] e"

definition wrap_in_memory :: "'a result \<Rightarrow> 'a result" where
  "wrap_in_memory r = (case r of Inl e \<Rightarrow> Inl (if is_Exception e then in_memory_error e else e) | Inr x \<Rightarrow> Inr x)"

definition ms_items :: "memory_state \<Rightarrow> scope_key \<Rightarrow> (pystr, memory_item) dict" where
  "ms_items m k = dict_get_or m k []"

definition stored_item :: "pystr \<Rightarrow> datetime \<Rightarrow> memory_item \<Rightarrow> memory_item" where
  "stored_item uuid now item =
     \<lparr>mi_id = Some (case mi_id item of Some i \<Rightarrow> if i = [] then uuid else i | None \<Rightarrow> uuid),
      mi_content = mi_content item, mi_metadata = mi_metadata item,
      mi_created_at = Some (case mi_created_at item of None \<Rightarrow> now | Some t \<Rightarrow> t),
      mi_score = None\<rparr>"

text \<open>\<^verbatim>\<open>self._items.setdefault(key, {})[id] = stored\<close>\<close>

abbreviation put_item :: "scope_key \<Rightarrow> pystr \<Rightarrow> memory_item \<Rightarrow> memory_state \<Rightarrow> memory_state" where
  "put_item \<equiv> nested_put"

definition ms_write ::
    "pystr \<Rightarrow> datetime \<Rightarrow> scope \<Rightarrow> memory_item \<Rightarrow> memory_state \<Rightarrow> pystr result \<times> memory_state" where
  "ms_write uuid now s item m =
     (let x = stored_item uuid now item; i = the (mi_id x)
      in (Inr i, put_item (scope_key s) i x m))"

definition ms_search ::
    "bm25_scores \<Rightarrow> scope \<Rightarrow> pystr \<Rightarrow> int \<Rightarrow> memory_state \<Rightarrow> memory_item list result" where
  "ms_search bm25 s q n m = wrap_in_memory
     (let candidates = dict_values (ms_items m (scope_key s))
      in if candidates = [] then Inr []
         else (case bm25 (map (tokenize \<circ> mi_content) candidates) (tokenize q) of
                 Inl e \<Rightarrow> Inl e
               | Inr scores \<Rightarrow>
                   (case ranked candidates scores of
                      Inl e \<Rightarrow> Inl e
                    | Inr ps \<Rightarrow> Inr (map (\<lambda>(x, sc). x\<lparr>mi_score := Some sc\<rparr>) (slice_to n ps)))))"

definition ms_get :: "scope \<Rightarrow> pystr \<Rightarrow> memory_state \<Rightarrow> memory_item option" where
  "ms_get s i m = dict_get (ms_items m (scope_key s)) i"

definition ms_forget :: "scope \<Rightarrow> pystr \<Rightarrow> memory_state \<Rightarrow> memory_state" where
  "ms_forget s i m =
     (case dict_get m (scope_key s) of
        None \<Rightarrow> m
      | Some d \<Rightarrow> dict_set (scope_key s) (dict_pop i d) m)"

section \<open>Snapshots\<close>

definition opt_str :: "pystr option \<Rightarrow> pyval" where
  "opt_str x = (case x of None \<Rightarrow> PNone | Some s \<Rightarrow> PStr s)"

definition scope_key_val :: "scope_key \<Rightarrow> pyval" where
  "scope_key_val k = (case k of (a, b, c, d) \<Rightarrow> PList (map opt_str [a, b, c, d]))"

definition record_val :: "scope_key \<Rightarrow> memory_item \<Rightarrow> pyval" where
  "record_val k x =
     PDict [(u ''scope_key'', scope_key_val k), (u ''id'', opt_str (mi_id x)),
            (u ''content'', PStr (mi_content x)), (u ''metadata'', PDict (mi_metadata x)),
            (u ''created_at'', case mi_created_at x of None \<Rightarrow> PNone | Some t \<Rightarrow> PStr (isoformat t))]"

definition memory_snapshot :: "memory_state \<Rightarrow> pydict" where
  "memory_snapshot m =
     [(u ''records'', PList (concat (map (\<lambda>(k, d). map (record_val k) (dict_values d)) m)))]"

text \<open>
  Restoring reads what a snapshot holds. A record of other types (a content that is not a
  string, a key that is not a list of four) is refused here with a type error; Python would
  store some of them untyped.
\<close>

definition get_item :: "pyval \<Rightarrow> pystr \<Rightarrow> pyval result" where
  "get_item v k =
     (case v of
        PDict d \<Rightarrow> (case dict_get d k of Some x \<Rightarrow> Inr x | None \<Rightarrow> Inl (raised KeyError [PStr k]))
      | _ \<Rightarrow> Inl (raised TypeError []))"

fun read_opt_str :: "pyval \<Rightarrow> pystr option option" where
  "read_opt_str PNone = Some None"
| "read_opt_str (PStr s) = Some (Some s)"
| "read_opt_str _ = None"

definition read_scope_key :: "pyval \<Rightarrow> scope_key result" where
  "read_scope_key v =
     (case v of
        PList [a, b, c, d] \<Rightarrow>
          (case (read_opt_str a, read_opt_str b, read_opt_str c, read_opt_str d) of
             (Some a, Some b, Some c, Some d) \<Rightarrow> Inr (a, b, c, d)
           | _ \<Rightarrow> Inl (raised TypeError []))
      | _ \<Rightarrow> Inl (raised TypeError []))"

definition read_created_at :: "pyval \<Rightarrow> datetime option result" where
  "read_created_at v =
     (if \<not> py_truthy v then Inr None
      else case v of PStr s \<Rightarrow> map_sum id Some (fromisoformat s) | _ \<Rightarrow> Inl (raised TypeError []))"

definition read_fields :: "pyval \<Rightarrow> pyval \<Rightarrow> pyval \<Rightarrow> datetime option \<Rightarrow> (pystr \<times> memory_item) result" where
  "read_fields i c md t =
     (case (i, c, md) of
        (PStr i, PStr c, PDict md) \<Rightarrow>
          Inr (i, \<lparr>mi_id = Some i, mi_content = c, mi_metadata = md, mi_created_at = t, mi_score = None\<rparr>)
      | _ \<Rightarrow> Inl (raised TypeError []))"

definition read_record :: "pyval \<Rightarrow> (scope_key \<times> pystr \<times> memory_item) result" where
  "read_record r =
     rbind (rbind (get_item r (u ''scope_key'')) read_scope_key) (\<lambda>k.
     rbind (rbind (get_item r (u ''created_at'')) read_created_at) (\<lambda>t.
     rbind (get_item r (u ''id'')) (\<lambda>i.
     rbind (get_item r (u ''content'')) (\<lambda>c.
     rbind (get_item r (u ''metadata'')) (\<lambda>md.
     map_sum id (Pair k) (read_fields i c md t))))))"

fun restore_records :: "pyval list \<Rightarrow> memory_state \<Rightarrow> unit result \<times> memory_state" where
  "restore_records [] m = (Inr (), m)"
| "restore_records (r # rs) m =
     (case read_record r of
        Inl e \<Rightarrow> (Inl e, m)
      | Inr (k, i, x) \<Rightarrow> restore_records rs (put_item k i x m))"

definition restore_memory_snapshot :: "pydict \<Rightarrow> memory_state \<Rightarrow> unit result \<times> memory_state" where
  "restore_memory_snapshot blob m =
     (case dict_get_or blob (u ''records'') (PList []) of
        PList rs \<Rightarrow> restore_records rs m
      | _ \<Rightarrow> (Inl (raised TypeError []), m))"

section \<open>The persisted store\<close>

record 'b blob_store =
  bl_get :: "'b \<Rightarrow> pydict option result \<times> 'b"
  bl_set :: "pydict \<Rightarrow> 'b \<Rightarrow> unit result \<times> 'b"

record 'b persisted_memory =
  pm_blob :: 'b
  pm_delegate :: memory_state

definition pm_create :: "'b blob_store \<Rightarrow> 'b \<Rightarrow> 'b persisted_memory result \<times> 'b" where
  "pm_create bl b =
     (case bl_get bl b of
        (Inl e, b1) \<Rightarrow> (Inl e, b1)
      | (Inr None, b1) \<Rightarrow> (Inr \<lparr>pm_blob = b1, pm_delegate = []\<rparr>, b1)
      | (Inr (Some blob), b1) \<Rightarrow>
          (case restore_memory_snapshot blob [] of
             (Inl e, _) \<Rightarrow> (Inl e, b1)
           | (Inr _, m) \<Rightarrow> (Inr \<lparr>pm_blob = b1, pm_delegate = m\<rparr>, b1)))"

definition pm_persist :: "'b blob_store \<Rightarrow> 'b persisted_memory \<Rightarrow> unit result \<times> 'b persisted_memory" where
  "pm_persist bl p =
     (case bl_set bl (memory_snapshot (pm_delegate p)) (pm_blob p) of (r, b) \<Rightarrow> (r, p\<lparr>pm_blob := b\<rparr>))"

definition pm_write ::
    "'b blob_store \<Rightarrow> pystr \<Rightarrow> datetime \<Rightarrow> scope \<Rightarrow> memory_item \<Rightarrow> 'b persisted_memory
     \<Rightarrow> pystr result \<times> 'b persisted_memory" where
  "pm_write bl uuid now s item p =
     (case ms_write uuid now s item (pm_delegate p) of
        (Inl e, m) \<Rightarrow> (Inl e, p\<lparr>pm_delegate := m\<rparr>)
      | (Inr i, m) \<Rightarrow>
          (case pm_persist bl (p\<lparr>pm_delegate := m\<rparr>) of
             (Inl e, p') \<Rightarrow> (Inl e, p')
           | (Inr _, p') \<Rightarrow> (Inr i, p')))"

definition pm_search ::
    "bm25_scores \<Rightarrow> scope \<Rightarrow> pystr \<Rightarrow> int \<Rightarrow> 'b persisted_memory \<Rightarrow> memory_item list result" where
  "pm_search bm25 s q n p = ms_search bm25 s q n (pm_delegate p)"

definition pm_get :: "scope \<Rightarrow> pystr \<Rightarrow> 'b persisted_memory \<Rightarrow> memory_item option" where
  "pm_get s i p = ms_get s i (pm_delegate p)"

definition pm_forget ::
    "'b blob_store \<Rightarrow> scope \<Rightarrow> pystr \<Rightarrow> 'b persisted_memory \<Rightarrow> unit result \<times> 'b persisted_memory" where
  "pm_forget bl s i p = pm_persist bl (p\<lparr>pm_delegate := ms_forget s i (pm_delegate p)\<rparr>)"

text \<open>\<^verbatim>\<open>_BoundStateHandle\<close>: a state store with the component's name filled in.\<close>

record 'b state_store =
  ss_get :: "pystr \<Rightarrow> 'b \<Rightarrow> pydict option result \<times> 'b"
  ss_set :: "pystr \<Rightarrow> pydict \<Rightarrow> 'b \<Rightarrow> unit result \<times> 'b"
  ss_delete :: "pystr \<Rightarrow> 'b \<Rightarrow> unit result \<times> 'b"

definition bound_handle :: "'b state_store \<Rightarrow> pystr \<Rightarrow> 'b blob_store" where
  "bound_handle ss name = \<lparr>bl_get = ss_get ss name, bl_set = ss_set ss name\<rparr>"

definition bound_delete :: "'b state_store \<Rightarrow> pystr \<Rightarrow> 'b \<Rightarrow> unit result \<times> 'b" where
  "bound_delete ss name = ss_delete ss name"

section \<open>Well-formed stores\<close>

definition item_ok :: "pystr \<Rightarrow> memory_item \<Rightarrow> bool" where
  "item_ok i x \<longleftrightarrow> mi_id x = Some i \<and> mi_score x = None \<and>
     (case mi_created_at x of None \<Rightarrow> True | Some t \<Rightarrow> datetime_ok t)"

definition memory_ok :: "memory_state \<Rightarrow> bool" where
  "memory_ok m \<longleftrightarrow> dict_ok m \<and>
     (\<forall>(k, d) \<in> set m. dict_ok d \<and> (\<forall>(i, x) \<in> set d. item_ok i x))"

lemma memory_ok_empty [simp]: "memory_ok []"
  by (simp add: memory_ok_def)

lemma ms_items_put:
  "ms_items (put_item k i x m) k' = (if k' = k then dict_set i x (ms_items m k) else ms_items m k')"
  by (auto simp: nested_put_def ms_items_def Let_def dict_get_or_def map_of_dict_set
      map_of_dict_setdefault split: option.split)

lemma ms_items_ok:
  assumes "memory_ok m"
  shows "dict_ok (ms_items m k)" and "(i, x) \<in> set (ms_items m k) \<Longrightarrow> item_ok i x"
proof -
  have *: "ms_items m k = [] \<or> (k, ms_items m k) \<in> set m"
    by (auto simp: ms_items_def dict_get_or_def dest: map_of_SomeD split: option.split)
  with assms show "dict_ok (ms_items m k)" by (auto simp: memory_ok_def)
  from * assms show "item_ok i x" if "(i, x) \<in> set (ms_items m k)"
    using that unfolding memory_ok_def by fastforce
qed

lemma memory_ok_setdefault: "memory_ok m \<Longrightarrow> memory_ok (dict_setdefault k [] m)"
  using set_dict_setdefault [of k "[]" m] by (fastforce simp: memory_ok_def)

lemma memory_ok_set:
  assumes "memory_ok m" and "dict_ok d" and "\<And>i x. (i, x) \<in> set d \<Longrightarrow> item_ok i x"
  shows "memory_ok (dict_set k d m)"
  using assms set_dict_set [of k d m] by (fastforce simp: memory_ok_def)

lemma memory_ok_put:
  assumes "memory_ok m" and "item_ok i x"
  shows "memory_ok (put_item k i x m)"
proof -
  let ?m = "dict_setdefault k [] m"
  have m: "memory_ok ?m" using assms(1) by (rule memory_ok_setdefault)
  have "item_ok j y" if "(j, y) \<in> set (dict_set i x (ms_items ?m k))" for j y
    using that set_dict_set [of i x "ms_items ?m k"] ms_items_ok(2) [OF m, of _ _ k] assms(2) by blast
  with m show ?thesis
    by (simp add: nested_put_def Let_def memory_ok_set ms_items_ok(1) ms_items_def [symmetric])
qed

lemma stored_item_id: "\<exists>i. mi_id (stored_item uuid now x) = Some i"
  by (simp add: stored_item_def)

lemma stored_item_ok:
  assumes "datetime_ok now" and "\<forall>t. mi_created_at x = Some t \<longrightarrow> datetime_ok t"
  shows "item_ok (the (mi_id (stored_item uuid now x))) (stored_item uuid now x)"
  using assms by (auto simp: item_ok_def stored_item_def split: option.split)

lemma ms_items_forget:
  "ms_items (ms_forget s i m) k =
     (if k = scope_key s then dict_pop i (ms_items m k) else ms_items m k)"
  by (auto simp: ms_forget_def ms_items_def dict_get_or_def map_of_dict_set split: option.split)

lemma memory_ok_forget:
  assumes "memory_ok m"
  shows "memory_ok (ms_forget s i m)"
proof (cases "dict_get m (scope_key s)")
  case None
  with assms show ?thesis by (simp add: ms_forget_def)
next
  case (Some d)
  then have d: "ms_items m (scope_key s) = d" by (simp add: ms_items_def dict_get_or_def)
  have "set (dict_pop i d) \<subseteq> set d" by (rule set_dict_pop)
  with ms_items_ok(2) [OF assms, of _ _ "scope_key s"] have "item_ok j y" if "(j, y) \<in> set (dict_pop i d)" for j y
    using that d by auto
  moreover have "dict_ok (dict_pop i d)" using ms_items_ok(1) [OF assms, of "scope_key s"] d by simp
  ultimately show ?thesis using Some assms by (simp add: ms_forget_def memory_ok_set)
qed

section \<open>The snapshot round trip\<close>

lemma read_scope_key_val [simp]: "read_scope_key (scope_key_val k) = Inr k"
proof -
  have [simp]: "read_opt_str (opt_str x) = Some x" for x by (simp add: opt_str_def split: option.split)
  show ?thesis by (cases k) (simp add: scope_key_val_def read_scope_key_def)
qed

lemma isoformat_nonempty: "isoformat t \<noteq> []"
  by (simp add: isoformat_def)

lemma read_record_val:
  assumes "item_ok i x"
  shows "read_record (record_val k x) = Inr (k, i, x)"
proof -
  have "read_created_at (case mi_created_at x of None \<Rightarrow> PNone | Some t \<Rightarrow> PStr (isoformat t)) = Inr (mi_created_at x)"
    using assms isoformat_nonempty
    by (auto simp: read_created_at_def item_ok_def fromisoformat_isoformat split: option.splits)
  then show ?thesis
    using assms
    by (simp add: read_record_def record_val_def get_item_def read_fields_def item_ok_def opt_str_def)
qed

lemma restore_scope:
  assumes "k \<notin> set (dict_keys m)" and "dict_ok (d0 @ d)" and "\<forall>(i, x) \<in> set d. item_ok i x"
  shows "restore_records (map (record_val k) (dict_values d) @ rs) (if d0 = [] then m else m @ [(k, d0)]) =
    restore_records rs (if d0 @ d = [] then m else m @ [(k, d0 @ d)])"
  using assms(2,3)
proof (induction d arbitrary: d0)
  case (Cons ix d)
  obtain i x where ix: "ix = (i, x)" by (metis prod.exhaust)
  have "put_item k i x (if d0 = [] then m else m @ [(k, d0)]) = m @ [(k, d0 @ [(i, x)])]"
    using assms(1) Cons.prems(1) ix by (auto simp: nested_put_new nested_put_last)
  then show ?case
    using Cons.IH [of "d0 @ [ix]"] Cons.prems ix by (simp add: read_record_val [of i x])
qed simp

lemma restore_snapshot_records:
  assumes "dict_ok (m0 @ m)" and "\<forall>(k, d) \<in> set m. dict_ok d \<and> (\<forall>(i, x) \<in> set d. item_ok i x)"
  shows "restore_records (concat (map (\<lambda>(k, d). map (record_val k) (dict_values d)) m)) m0 =
    (Inr (), m0 @ filter (\<lambda>(k, d). d \<noteq> []) m)"
  using assms
proof (induction m arbitrary: m0)
  case (Cons kd m)
  obtain k d where kd: "kd = (k, d)" by (metis prod.exhaust)
  have "restore_records (map (record_val k) (dict_values d) @ rs) m0 =
      restore_records rs (if d = [] then m0 else m0 @ [(k, d)])" for rs
    using restore_scope [of k m0 "[]" d rs] Cons.prems kd by simp
  moreover have "dict_ok ((if d = [] then m0 else m0 @ [(k, d)]) @ m)" using Cons.prems kd by auto
  ultimately show ?case
    using Cons.IH [of "if d = [] then m0 else m0 @ [(k, d)]"] Cons.prems kd by auto
qed simp

lemma restore_snapshot:
  assumes "memory_ok m"
  shows "restore_memory_snapshot (memory_snapshot m) [] = (Inr (), filter (\<lambda>(k, d). d \<noteq> []) m)"
  using restore_snapshot_records [of "[]" m] assms
  by (simp add: restore_memory_snapshot_def memory_snapshot_def dict_get_or_def memory_ok_def)

lemma ms_items_filter: "dict_ok m \<Longrightarrow> ms_items (filter (\<lambda>(k, d). d \<noteq> []) m) k = ms_items m k"
proof (induction m)
  case (Cons kd m)
  obtain k' d where kd: "kd = (k', d)" by (metis prod.exhaust)
  with Cons.prems have out: "dict_get m k' = None" "dict_ok m" by (simp_all add: map_of_eq_None_iff)
  from Cons.IH [OF out(2)] kd out(1) show ?case
    by (cases "k = k'") (simp_all add: ms_items_def dict_get_or_def)
qed (simp add: ms_items_def)

section \<open>What the manager relies on\<close>

definition created_ok :: "datetime \<Rightarrow> memory_item \<Rightarrow> bool" where
  "created_ok now x \<longleftrightarrow> datetime_ok now \<and> (\<forall>t. mi_created_at x = Some t \<longrightarrow> datetime_ok t)"

text \<open>An acceptable search result over the lookup of a scope.\<close>

definition recall_ok :: "(pystr \<Rightarrow> memory_item option) \<Rightarrow> int \<Rightarrow> memory_item list \<Rightarrow> bool" where
  "recall_ok look n xs \<longleftrightarrow>
     distinct (map mi_id xs) \<and>
     (\<forall>x \<in> set xs. \<exists>i. mi_id x = Some i \<and> look i = Some (x\<lparr>mi_score := None\<rparr>)) \<and>
     sorted_wrt (\<ge>) (map (the \<circ> mi_score) xs) \<and> (\<forall>x \<in> set xs. mi_score x \<noteq> None) \<and>
     (0 \<le> n \<longrightarrow> length xs \<le> nat n)"

locale memory_store =
  fixes m_write :: "pystr \<Rightarrow> datetime \<Rightarrow> scope \<Rightarrow> memory_item \<Rightarrow> 's \<Rightarrow> pystr result \<times> 's"
    and m_search :: "scope \<Rightarrow> pystr \<Rightarrow> int \<Rightarrow> 's \<Rightarrow> memory_item list result"
    and m_get :: "scope \<Rightarrow> pystr \<Rightarrow> 's \<Rightarrow> memory_item option"
    and m_forget :: "scope \<Rightarrow> pystr \<Rightarrow> 's \<Rightarrow> unit result \<times> 's"
    and m_inv :: "'s \<Rightarrow> bool"
  assumes write_inv: "m_inv m \<Longrightarrow> created_ok now x \<Longrightarrow> m_write uuid now s x m = (wr, m') \<Longrightarrow> m_inv m'"
    and forget_inv: "m_inv m \<Longrightarrow> m_forget s i m = (fr, m') \<Longrightarrow> m_inv m'"
    and write_get: "m_write uuid now s x m = (Inr i, m') \<Longrightarrow>
      mi_id (stored_item uuid now x) = Some i \<and>
      m_get s' j m' = (if scope_key s' = scope_key s \<and> j = i then Some (stored_item uuid now x)
                     else m_get s' j m)"
    and forget_get: "m_forget s i m = (Inr (), m') \<Longrightarrow>
      m_get s' j m' = (if scope_key s' = scope_key s \<and> j = i then None else m_get s' j m)"
    and other_scope: "scope_key s' \<noteq> scope_key s \<Longrightarrow>
      m_get s' j (snd (m_write uuid now s x m)) = m_get s' j m \<and> m_get s' j (snd (m_forget s i m)) = m_get s' j m"
    and search_recall: "m_inv m \<Longrightarrow> m_search s q n m = Inr xs \<Longrightarrow> recall_ok (\<lambda>i. m_get s i m) n xs"
begin

text \<open>A scope sees only its own operations.\<close>

definition history_step :: "(pystr \<times> datetime \<times> scope \<times> memory_item) + (scope \<times> pystr) \<Rightarrow> 's \<Rightarrow> 's" where
  "history_step e m =
     (case e of Inl (uuid, now, s, x) \<Rightarrow> snd (m_write uuid now s x m) | Inr (s, i) \<Rightarrow> snd (m_forget s i m))"

fun event_scope :: "(pystr \<times> datetime \<times> scope \<times> memory_item) + (scope \<times> pystr) \<Rightarrow> scope" where
  "event_scope (Inl (_, _, s, _)) = s"
| "event_scope (Inr (s, _)) = s"

lemma isolation:
  assumes "\<forall>e \<in> set es. scope_key (event_scope e) \<noteq> scope_key s"
  shows "m_get s j (fold history_step es m) = m_get s j m"
  using assms
proof (induction es arbitrary: m)
  case (Cons e es)
  then have "scope_key s \<noteq> scope_key (event_scope e)" by auto
  then have "m_get s j (history_step e m) = m_get s j m"
    using other_scope by (cases e) (auto simp: history_step_def)
  with Cons show ?case by simp
qed simp

lemma write_then_get: "m_write uuid now s x m = (Inr i, m') \<Longrightarrow> m_get s i m' = Some (stored_item uuid now x)"
  using write_get by simp

lemma write_forget_get:
  "m_write uuid now s x m = (Inr i, m1) \<Longrightarrow> m_forget s i m1 = (Inr (), m2) \<Longrightarrow> m_get s i m2 = None"
  using forget_get by simp

end

lemma ms_get_write:
  "ms_get s' j (snd (ms_write uuid now s x m)) =
     (if scope_key s' = scope_key s \<and> j = the (mi_id (stored_item uuid now x))
      then Some (stored_item uuid now x) else ms_get s' j m)"
  by (simp add: ms_get_def ms_write_def Let_def ms_items_put map_of_dict_set)

lemma ms_get_forget:
  "ms_get s' j (ms_forget s i m) =
     (if scope_key s' = scope_key s \<and> j = i then None else ms_get s' j m)"
  by (simp add: ms_get_def ms_items_forget map_of_dict_pop)

lemma ms_write_result:
  "ms_write uuid now s x m = (r, m') \<longleftrightarrow>
     r = Inr (the (mi_id (stored_item uuid now x))) \<and> m' = snd (ms_write uuid now s x m)"
  by (auto simp: ms_write_def Let_def)

lemma ms_write_get:
  assumes "ms_write uuid now s x m = (Inr i, m')"
  shows "mi_id (stored_item uuid now x) = Some i \<and>
    ms_get s' j m' = (if scope_key s' = scope_key s \<and> j = i then Some (stored_item uuid now x)
                      else ms_get s' j m)"
proof -
  from assms have i: "i = the (mi_id (stored_item uuid now x))" and m': "m' = snd (ms_write uuid now s x m)"
    by (auto simp: ms_write_result [of uuid now s x m "Inr i"])
  then show ?thesis using stored_item_id [of uuid now x] by (simp only: m' ms_get_write) auto
qed

lemma ms_write_ok: "memory_ok m \<Longrightarrow> created_ok now x \<Longrightarrow> memory_ok (snd (ms_write uuid now s x m))"
  by (simp add: ms_write_def Let_def created_ok_def memory_ok_put stored_item_ok)

lemma ms_search_recall:
  assumes ok: "memory_ok m" and eq: "ms_search bm25 s q n m = Inr xs"
  shows "recall_ok (\<lambda>i. ms_get s i m) n xs"
proof (cases "dict_values (ms_items m (scope_key s)) = []")
  case True
  with eq have "xs = []" by (simp add: ms_search_def wrap_in_memory_def)
  then show ?thesis by (simp add: recall_ok_def)
next
  case False
  let ?d = "ms_items m (scope_key s)"
  from False eq obtain scores ps where ps: "ranked (dict_values ?d) scores = Inr ps"
    and xs: "xs = map (\<lambda>(x, sc). x\<lparr>mi_score := Some sc\<rparr>) (slice_to n ps)"
    by (auto simp: ms_search_def wrap_in_memory_def split: sum.splits)
  have d: "dict_ok ?d" "\<And>i x. (i, x) \<in> set ?d \<Longrightarrow> item_ok i x"
    using ms_items_ok [OF ok] by blast+
  have key: "mi_id x = Some i" if "(i, x) \<in> set ?d" for i x using d that by (auto simp: item_ok_def)
  then have "map mi_id (dict_values ?d) = map Some (dict_keys ?d)" by auto
  then have "distinct (map mi_id (dict_values ?d))" using d(1) by (simp only: distinct_map) simp
  moreover have "mset (map mi_id (map fst ps)) = mset (map mi_id (dict_values ?d))"
    using ranked_ok(3) [OF ps] by (metis mset_map)
  ultimately have "distinct (map mi_id (map fst ps))" by (metis mset_eq_imp_distinct_iff)
  moreover have "map mi_id xs = map mi_id (map fst (slice_to n ps))"
    unfolding xs by (induction "slice_to n ps" rule: list.induct) (auto simp: split_beta)
  moreover have "prefix (map mi_id (map fst (slice_to n ps))) (map mi_id (map fst ps))"
    by (intro map_mono_prefix slice_to_prefix)
  ultimately have dist: "distinct (map mi_id xs)" by (metis prefix_def distinct_append)
  have look: "\<exists>i. mi_id x = Some i \<and> ms_get s i m = Some (x\<lparr>mi_score := None\<rparr>) \<and> mi_score x \<noteq> None"
    if x_in: "x \<in> set xs" for x
  proof -
    from x_in obtain y sc where y: "x = y\<lparr>mi_score := Some sc\<rparr>" "(y, sc) \<in> set ps"
      using set_slice_to [of n ps] by (auto simp: xs)
    then have "y \<in> set (dict_values ?d)" using ranked_set [OF ps] by force
    then obtain i where i: "(i, y) \<in> set ?d" by auto
    with d have "dict_get ?d i = Some y" "mi_score y = None" by (auto simp: item_ok_def)
    then show ?thesis using key [OF i] y by (auto simp: ms_get_def)
  qed
  have "map (the \<circ> mi_score) xs = map snd (slice_to n ps)" unfolding xs by auto
  moreover have "prefix (map snd (slice_to n ps)) (map snd ps)"
    by (intro map_mono_prefix slice_to_prefix)
  ultimately have "sorted_wrt (\<ge>) (map (the \<circ> mi_score) xs)"
    using ranked_ok(2) [OF ps] by (metis prefix_def sorted_wrt_append)
  moreover have "length xs \<le> nat n" if "0 \<le> n" using length_slice_to [OF that, of ps] by (simp add: xs)
  ultimately show ?thesis using dist look unfolding recall_ok_def by blast
qed

interpretation in_memory: memory_store ms_write "ms_search bm25" ms_get
  "\<lambda>s i m. (Inr (), ms_forget s i m)" memory_ok for bm25
  apply unfold_locales
  subgoal using ms_write_ok by (metis snd_conv)
  subgoal by (auto simp: memory_ok_forget)
  subgoal by (rule ms_write_get)
  subgoal by (auto simp: ms_get_forget)
  subgoal by (simp add: ms_get_write ms_get_forget)
  subgoal by (rule ms_search_recall)
  done

text \<open>The persisted store: after a call that returns, the delegate is the in-memory store after the
  same call, and the blob was given its snapshot last.\<close>

definition persisted_ok :: "'b persisted_memory \<Rightarrow> bool" where
  "persisted_ok p \<longleftrightarrow> memory_ok (pm_delegate p)"

lemma pm_write_delegate:
  "pm_delegate (snd (pm_write bl uuid now s x p)) = snd (ms_write uuid now s x (pm_delegate p))"
  by (auto simp: pm_write_def pm_persist_def ms_write_def Let_def split: prod.splits sum.splits)

lemma pm_write_result:
  "pm_write bl uuid now s x p = (Inr i, p') \<Longrightarrow> ms_write uuid now s x (pm_delegate p) = (Inr i, pm_delegate p')"
  by (auto simp: pm_write_def pm_persist_def ms_write_def Let_def split: prod.splits sum.splits)

lemma pm_forget_delegate: "pm_delegate (snd (pm_forget bl s i p)) = ms_forget s i (pm_delegate p)"
  by (simp add: pm_forget_def pm_persist_def split: prod.split)

lemma pm_write_blob:
  assumes "pm_write bl uuid now s x p = (Inr i, p')"
  shows "bl_set bl (memory_snapshot (pm_delegate p')) (pm_blob p) = (Inr (), pm_blob p')"
  using assms
  by (auto simp: pm_write_def pm_persist_def ms_write_def Let_def split: prod.splits sum.splits)

lemma pm_forget_blob:
  assumes "pm_forget bl s i p = (Inr (), p')"
  shows "bl_set bl (memory_snapshot (pm_delegate p')) (pm_blob p) = (Inr (), pm_blob p')"
  using assms by (auto simp: pm_forget_def pm_persist_def split: prod.splits)

interpretation persisted: memory_store "pm_write bl" "pm_search bm25" pm_get "pm_forget bl" persisted_ok
  for bl bm25
  apply unfold_locales
  subgoal unfolding persisted_ok_def using pm_write_delegate ms_write_ok by (metis snd_conv)
  subgoal unfolding persisted_ok_def using pm_forget_delegate memory_ok_forget by (metis snd_conv)
  subgoal unfolding pm_get_def by (rule ms_write_get) (rule pm_write_result)
  subgoal unfolding pm_get_def using pm_forget_delegate ms_get_forget by (metis snd_conv)
  subgoal unfolding pm_get_def by (simp add: pm_write_delegate pm_forget_delegate ms_get_write ms_get_forget)
  subgoal unfolding pm_search_def pm_get_def persisted_ok_def by (rule ms_search_recall)
  done

text \<open>What a blob store is documented to do: what was set last is what is got.\<close>

definition keeps_last :: "'b blob_store \<Rightarrow> bool" where
  "keeps_last bl \<longleftrightarrow> (\<forall>v b b'. bl_set bl v b = (Inr (), b') \<longrightarrow> bl_get bl b' = (Inr (Some v), b'))"

lemma ms_search_items: "ms_items m (scope_key s) = ms_items m' (scope_key s) \<Longrightarrow>
    ms_search bm25 s q n m = ms_search bm25 s q n m'"
  by (simp add: ms_search_def)

lemma reopen_blob:
  assumes "keeps_last bl" and "memory_ok m" and "bl_set bl (memory_snapshot m) b = (Inr (), b')"
  shows "\<exists>m'. pm_create bl b' = (Inr \<lparr>pm_blob = b', pm_delegate = m'\<rparr>, b') \<and>
    (\<forall>k. ms_items m' k = ms_items m k)"
proof -
  from assms(1,3) have "bl_get bl b' = (Inr (Some (memory_snapshot m)), b')"
    by (simp add: keeps_last_def)
  with restore_snapshot [OF assms(2)]
  have "pm_create bl b' = (Inr \<lparr>pm_blob = b', pm_delegate = filter (\<lambda>(k, d). d \<noteq> []) m\<rparr>, b')"
    by (simp add: pm_create_def)
  moreover have "dict_ok m" using assms(2) by (simp add: memory_ok_def)
  ultimately show ?thesis using ms_items_filter by blast
qed

section \<open>Properties\<close>

lemma persisted_write_effect_parts:
  assumes "pm_write bl uuid now s x p = (Inr i, p1)"
  shows "pm_get s i p1 = Some (stored_item uuid now x)"
    and "scope_key s' \<noteq> scope_key s \<or> j \<noteq> i \<Longrightarrow> pm_get s' j p1 = pm_get s' j p"
    and "pm_forget bl s i p1 = (Inr (), p2) \<Longrightarrow> pm_get s i p2 = None"
    and "ms_write uuid now s x (pm_delegate p) = (Inr i, pm_delegate p1)"
  using persisted.write_then_get [OF assms] persisted.write_get [OF assms, of s' j]
    persisted.write_forget_get [OF assms] pm_write_result [OF assms]
  by auto

text \<open>a write that returns is what the store holds: the returned id reads back the stored item
  (a generated id for an empty one, the write time for a missing one, no score), forgetting it
  removes it, and no other id and no other scope is affected, in memory and persisted alike.\<close>

lemma persisted_write_effect:
  assumes "pm_write bl uuid now s x p = (Inr i, p1)"
  shows "pm_get s i p1 = Some (stored_item uuid now x) \<and>
    (\<forall>s' j. scope_key s' \<noteq> scope_key s \<or> j \<noteq> i \<longrightarrow> pm_get s' j p1 = pm_get s' j p) \<and>
    (\<forall>p2. pm_forget bl s i p1 = (Inr (), p2) \<longrightarrow> pm_get s i p2 = None) \<and>
    ms_write uuid now s x (pm_delegate p) = (Inr i, pm_delegate p1)"
  using persisted_write_effect_parts [OF assms] by blast

definition dict_blob :: "pydict option blob_store" where
  "dict_blob = \<lparr>bl_get = (\<lambda>b. (Inr b, b)), bl_set = (\<lambda>v b. (Inr (), Some v))\<rparr>"

definition demo_now :: datetime where
  "demo_now = \<lparr>dt_year = 2026, dt_month = 8, dt_day = 26, dt_hour = 9, dt_minute = 30, dt_second = 0,
     dt_us = 0, dt_offset = Some 0\<rparr>"

definition demo_memory :: "pystr option \<Rightarrow> pystr \<Rightarrow> memory_item" where
  "demo_memory i c = \<lparr>mi_id = i, mi_content = c, mi_metadata = [], mi_created_at = None, mi_score = None\<rparr>"

definition fresh_memory :: "pydict option persisted_memory" where
  "fresh_memory = \<lparr>pm_blob = None, pm_delegate = []\<rparr>"

lemma demo_pm_write:
  "pm_write dict_blob [117] demo_now s (demo_memory i c) p =
     (let x = stored_item [117] demo_now (demo_memory i c);
          m = put_item (scope_key s) (the (mi_id x)) x (pm_delegate p)
      in (Inr (the (mi_id x)), \<lparr>pm_blob = Some (memory_snapshot m), pm_delegate = m\<rparr>))"
  by (simp add: pm_write_def ms_write_def pm_persist_def dict_blob_def Let_def)

lemma demo_stored_id: "mi_id (stored_item [117] demo_now (demo_memory None c)) = Some [117]"
  by (simp add: stored_item_def demo_memory_def)

lemma persisted_write_effect_witness:
  "pm_get (agent_scope [97]) [117] (snd (pm_write dict_blob [117] demo_now (agent_scope [97])
     (demo_memory None [120]) fresh_memory)) = Some (stored_item [117] demo_now (demo_memory None [120]))"
  by (rule persisted_write_effect [where bl = dict_blob and uuid = "[117]" and now = demo_now
        and p = fresh_memory, THEN conjunct1])
    (simp add: demo_pm_write Let_def demo_stored_id)

text \<open>memory survives a restart. After a write or a forget that returned, a store created anew
  over the same blob answers every get and every search like the one that wrote it.\<close>

lemma persisted_restart:
  assumes "keeps_last bl" and "persisted_ok p" and "created_ok now x"
    and "pm_write bl uuid now s x p = (Inr i, p') \<or> pm_forget bl s i p = (Inr (), p')"
  shows "\<exists>p''. pm_create bl (pm_blob p') = (Inr p'', pm_blob p') \<and>
    (\<forall>s j. pm_get s j p'' = pm_get s j p') \<and>
    (\<forall>bm25 s q n. pm_search bm25 s q n p'' = pm_search bm25 s q n p')"
proof -
  have "persisted_ok p'" using assms(2-4) persisted.write_inv persisted.forget_inv by blast
  moreover have "bl_set bl (memory_snapshot (pm_delegate p')) (pm_blob p) = (Inr (), pm_blob p')"
    using assms(4) pm_write_blob pm_forget_blob by blast
  ultimately obtain m where "pm_create bl (pm_blob p') = (Inr \<lparr>pm_blob = pm_blob p', pm_delegate = m\<rparr>, pm_blob p')"
    and m: "\<forall>k. ms_items m k = ms_items (pm_delegate p') k"
    using reopen_blob [OF assms(1)] by (metis persisted_ok_def)
  moreover have "ms_search bm25 s q n m = ms_search bm25 s q n (pm_delegate p')" for bm25 s q n
    by (rule ms_search_items) (rule m [THEN spec])
  moreover have "ms_get s j m = ms_get s j (pm_delegate p')" for s j
    unfolding ms_get_def by (simp only: m [THEN spec])
  ultimately show ?thesis by (auto simp: pm_get_def pm_search_def)
qed

lemma persisted_restart_witness:
  "\<exists>p''. pm_create dict_blob (pm_blob (snd (pm_write dict_blob [117] demo_now (agent_scope [97])
       (demo_memory None [120]) fresh_memory))) =
     (Inr p'', pm_blob (snd (pm_write dict_blob [117] demo_now (agent_scope [97]) (demo_memory None [120]) fresh_memory)))"
proof -
  let ?w = "pm_write dict_blob [117] demo_now (agent_scope [97]) (demo_memory None [120]) fresh_memory"
  have k: "keeps_last dict_blob" by (simp add: keeps_last_def dict_blob_def)
  have p: "persisted_ok fresh_memory" by (simp add: persisted_ok_def fresh_memory_def)
  have c: "created_ok demo_now (demo_memory None [120])"
    by (simp add: created_ok_def demo_now_def demo_memory_def datetime_ok_def days_in_month_def day_us_def)
  have "?w = (Inr [117], snd ?w)"
    by (simp add: demo_pm_write Let_def demo_stored_id)
  then have "?w = (Inr [117], snd ?w) \<or>
      pm_forget dict_blob (agent_scope [97]) [117] fresh_memory = (Inr (), snd ?w)" by blast
  from persisted_restart [OF k p c this] show ?thesis by blast
qed

text \<open>C34: a search returns stored items of its scope and nothing else: each once, with its score,
  by falling score, at most as many as asked for (when the limit is not negative), whether the
  store is persisted or not.\<close>

theorem memory_search_sound:
  assumes "persisted_ok p" and "pm_search bm25 s q n p = Inr xs"
  shows "recall_ok (\<lambda>i. pm_get s i p) n xs \<and> ms_search bm25 s q n (pm_delegate p) = Inr xs"
  using persisted.search_recall [OF assms] assms(2) by (simp_all add: pm_search_def)

definition count_bm25 :: bm25_scores where
  "count_bm25 corpus q = Inr (map (\<lambda>doc. real (length (filter (\<lambda>t. t \<in> set q) doc))) corpus)"

lemma memory_search_sound_witness:
  "recall_ok (\<lambda>i. pm_get (agent_scope [97]) i
       \<lparr>pm_blob = (), pm_delegate = [(scope_key (agent_scope [97]), [([117], demo_memory (Some [117]) [])])]\<rparr>) 5
     [demo_memory (Some [117]) []\<lparr>mi_score := Some 0\<rparr>]"
  by (rule memory_search_sound [where ?bm25.0 = count_bm25 and q = "[]", THEN conjunct1])
    (simp_all add: persisted_ok_def memory_ok_def item_ok_def demo_memory_def pm_search_def ms_search_def
      wrap_in_memory_def ms_items_def dict_get_or_def count_bm25_def ranked_def slice_to_def tokenize_def)

text \<open>C35: a scope's memory depends on its own operations only: whatever other scopes write and
  forget, in any order and with any of the writes failing to persist, every get of the scope
  answers as before. Other scopes are those that differ in the user, the session, the agent or the team.\<close>

theorem memory_isolation:
  assumes "\<forall>e \<in> set es. \<not> same_holder (persisted.event_scope e) s"
  shows "pm_get s j (fold (persisted.history_step bl) es p) = pm_get s j p"
  using assms by (simp add: persisted.isolation scope_key_eq)

lemma memory_isolation_witness:
  "pm_get (agent_scope [97]) [117] (fold (persisted.history_step dict_blob)
      [Inl ([118], demo_now, agent_scope [98], demo_memory None [120]), Inr (agent_scope [98], [117])] fresh_memory) =
   pm_get (agent_scope [97]) [117] fresh_memory"
  by (rule memory_isolation) (simp add: agent_scope_def same_holder_def)

text \<open>a write whose blob store fails raises, but is not undone: the item can be read until the
  process ends and is gone after a restart.\<close>

lemma failed_persist_not_undone:
  assumes "bl_set bl (memory_snapshot (snd (ms_write uuid now s x (pm_delegate p)))) (pm_blob p) = (Inl e, pm_blob p)"
    and "mi_id (stored_item uuid now x) = Some i"
  shows "fst (pm_write bl uuid now s x p) = Inl e \<and>
    pm_get s i (snd (pm_write bl uuid now s x p)) = Some (stored_item uuid now x) \<and>
    pm_blob (snd (pm_write bl uuid now s x p)) = pm_blob p"
  using assms ms_get_write [of s i uuid now s x "pm_delegate p"]
  by (auto simp: pm_write_def pm_persist_def pm_get_def ms_write_def Let_def)

lemma failed_persist_not_undone_witness:
  "pm_get (agent_scope [97]) [117] (snd (pm_write (dict_blob\<lparr>bl_set := \<lambda>v b. (Inl (raised OSError []), b)\<rparr>)
     [117] demo_now (agent_scope [97]) (demo_memory None [120]) fresh_memory)) =
   Some (stored_item [117] demo_now (demo_memory None [120]))"
  by (rule failed_persist_not_undone [where e = "raised OSError []", THEN conjunct2, THEN conjunct1])
    (simp_all add: demo_stored_id)

end
