(* ===== verification/Compactor.thy ===== *)
theory Compactor
  imports PyText
begin

text \<open>
  \<^verbatim>\<open>src/fabrica/memory/compactor.py\<close>: the recency compactor keeps the newest messages that fit the
  budget, has everything older summarised, scores the summary and retries at most once.

  A summarizer is a parameter: a function of the messages and the token target over a state of
  its own, which may raise. Floats are reals. \<^verbatim>\<open>\d\<close> is a decimal digit of Unicode 15, the database
  of Python 3.12.
\<close>

datatype role = System | User | Assistant | ToolRole

record message =
  msg_role :: role
  msg_content :: pystr
  msg_tokens :: int

record compaction_result =
  cr_summary :: pystr
  cr_preserved :: "message list"
  cr_tokens_before :: int
  cr_tokens_after :: int
  cr_validation_score :: "real option"
  cr_degraded :: bool

section \<open>Scoring a summary\<close>

definition stopwords :: "pystr list" where
  "stopwords = map u
     [''the'', ''a'', ''an'', ''and'', ''or'', ''but'', ''is'', ''are'', ''was'', ''were'', ''be'', ''been'',
      ''to'', ''of'', ''in'', ''on'', ''at'', ''for'', ''with'', ''as'', ''by'', ''that'', ''this'', ''it'',
      ''its'', ''we'', ''our'', ''you'', ''your'', ''they'', ''their'', ''i'', ''my'', ''me'', ''us'', ''have'',
      ''has'', ''had'', ''do'', ''does'', ''did'', ''not'', ''no'', ''any'', ''all'', ''one'', ''will'',
      ''would'', ''should'', ''can'', ''could'', ''just'', ''so'', ''if'', ''when'', ''what'', ''about'',
      ''want'', ''like'', ''get'', ''got'', ''good'', ''great'', ''some'', ''very'', ''also'', ''too'', ''than'',
      ''then'', ''there'', ''here'', ''from'', ''keep'', ''hard'', ''off'']"

definition word_char :: "nat \<Rightarrow> bool" where
  "word_char c \<longleftrightarrow> (97 \<le> c \<and> c \<le> 122) \<or> (65 \<le> c \<and> c \<le> 90) \<or> c = 39"

definition decimal_zeros :: "nat list" where
  "decimal_zeros =
     [0x30, 0x660, 0x6F0, 0x7C0, 0x966, 0x9E6, 0xA66, 0xAE6, 0xB66, 0xBE6, 0xC66, 0xCE6, 0xD66, 0xDE6,
      0xE50, 0xED0, 0xF20, 0x1040, 0x1090, 0x17E0, 0x1810, 0x1946, 0x19D0, 0x1A80, 0x1A90, 0x1B50,
      0x1BB0, 0x1C40, 0x1C50, 0xA620, 0xA8D0, 0xA900, 0xA9D0, 0xA9F0, 0xAA50, 0xABF0, 0xFF10, 0x104A0,
      0x10D30, 0x11066, 0x110F0, 0x11136, 0x111D0, 0x112F0, 0x11450, 0x114D0, 0x11650, 0x116C0,
      0x11730, 0x118E0, 0x11950, 0x11C50, 0x11D50, 0x11DA0, 0x11F50, 0x16A60, 0x16AC0, 0x16B50,
      0x1D7CE, 0x1D7D8, 0x1D7E2, 0x1D7EC, 0x1D7F6, 0x1E140, 0x1E2F0, 0x1E4F0, 0x1E950, 0x1FBF0]"

definition decimal_char :: "nat \<Rightarrow> bool" where
  "decimal_char c \<longleftrightarrow> (\<exists>z \<in> set decimal_zeros. z \<le> c \<and> c < z + 10)"

text \<open>The sets of words and numbers of a text, as lists without repetitions.\<close>

definition content_words :: "pystr \<Rightarrow> pystr list" where
  "content_words text =
     remdups (filter (\<lambda>w. w \<notin> set stopwords \<and> length w > 2)
       (runs_of word_char [] (concat (map lower_char text))))"

definition numbers :: "pystr \<Rightarrow> pystr list" where
  "numbers text = remdups (runs_of decimal_char [] text)"

fun role_str :: "role \<Rightarrow> pystr" where
  "role_str System = u ''system''"
| "role_str User = u ''user''"
| "role_str Assistant = u ''assistant''"
| "role_str ToolRole = u ''tool''"

definition joined :: "pystr \<Rightarrow> pystr list \<Rightarrow> pystr" where
  "joined sep xs = (case xs of [] \<Rightarrow> [] | y # ys \<Rightarrow> y @ concat (map (\<lambda>x. sep @ x) ys))"

definition message_text :: "message list \<Rightarrow> pystr" where
  "message_text ms = joined [10] (map (\<lambda>m. role_str (msg_role m) @ [58, 32] @ msg_content m) ms)"

definition retention :: "pystr list \<Rightarrow> pystr list \<Rightarrow> real" where
  "retention src kept =
     (if src = [] then 1 else real (length (filter (\<lambda>x. x \<in> set kept) src)) / real (length src))"

definition score_compaction :: "message list \<Rightarrow> pystr \<Rightarrow> real" where
  "score_compaction source summary =
     (let text = message_text source
      in 6 / 10 * retention (numbers text) (numbers summary) +
         4 / 10 * retention (content_words text) (content_words summary))"

lemma retention_bounds: "0 \<le> retention src kept" "retention src kept \<le> 1"
  by (simp_all add: retention_def)

lemma score_bounds: "0 \<le> score_compaction ms s" "score_compaction ms s \<le> 1"
proof -
  note b = retention_bounds [of "numbers (message_text ms)" "numbers s"]
    retention_bounds [of "content_words (message_text ms)" "content_words s"]
  show "0 \<le> score_compaction ms s" using b by (simp add: score_compaction_def Let_def)
  show "score_compaction ms s \<le> 1" using b by (simp add: score_compaction_def Let_def)
qed

lemma retention_full: "retention src kept = 1 \<longleftrightarrow> set src \<subseteq> set kept"
proof (cases "src = []")
  case False
  then have "retention src kept = 1 \<longleftrightarrow> length (filter (\<lambda>x. x \<in> set kept) src) = length src"
    by (auto simp: retention_def)
  also have "\<dots> \<longleftrightarrow> (\<forall>x \<in> set src. x \<in> set kept)"
    by (metis (mono_tags, lifting) filter_True length_filter_less less_irrefl)
  finally show ?thesis by blast
qed (simp add: retention_def)

section \<open>Which messages stay\<close>

fun select_back :: "int \<Rightarrow> int \<Rightarrow> message list \<Rightarrow> message list \<Rightarrow> int \<Rightarrow> message list \<times> int" where
  "select_back n budget [] acc t = (acc, t)"
| "select_back n budget (m # ms) acc t =
     (if int (length acc) \<ge> n then (acc, t)
      else if t + msg_tokens m > budget then (acc, t)
      else select_back n budget ms (acc @ [m]) (t + msg_tokens m))"

definition select_preserved :: "message list \<Rightarrow> int \<Rightarrow> int \<Rightarrow> message list \<times> int" where
  "select_preserved ms n budget =
     (case select_back n budget (rev ms) [] 0 of (acc, t) \<Rightarrow> (rev acc, t))"

definition tokens_of :: "message list \<Rightarrow> int" where
  "tokens_of ms = sum_list (map msg_tokens ms)"

section \<open>Compaction\<close>

record 's compactor =
  cp_summarize :: "message list \<Rightarrow> int \<Rightarrow> 's \<Rightarrow> pystr result \<times> 's"
  cp_preserve_last_n :: int
  cp_validate :: bool
  cp_validation_threshold :: real
  cp_retry :: "(message list \<Rightarrow> int \<Rightarrow> 's \<Rightarrow> pystr result \<times> 's) option"

definition default_validation_threshold :: real where "default_validation_threshold = 55 / 100"

definition compaction_error :: "exc \<Rightarrow> exc" where
  "compaction_error e = raised_from (Memory_exc CompactionError) [] e"

text \<open>The retry: which summary and score come out of it.\<close>

definition retried ::
    "'s compactor \<Rightarrow> message list \<Rightarrow> int \<Rightarrow> pystr \<Rightarrow> real \<Rightarrow> 's \<Rightarrow> (pystr \<times> real) result \<times> 's" where
  "retried cp older target best score s =
     (case cp_retry cp of
        None \<Rightarrow> (Inr (best, score), s)
      | Some retry \<Rightarrow>
          if \<not> score < cp_validation_threshold cp then (Inr (best, score), s)
          else (case retry older target s of
                  (Inl e, s') \<Rightarrow> (if is_Exception e then Inr (best, score) else Inl e, s')
                | (Inr other, s') \<Rightarrow>
                    let score' = score_compaction older other
                    in (Inr (if score' \<ge> score then (other, score') else (best, score)), s')))"

definition compact ::
    "'s compactor \<Rightarrow> message list \<Rightarrow> int \<Rightarrow> 's \<Rightarrow> compaction_result result \<times> 's" where
  "compact cp ms budget s =
     (let before = tokens_of ms;
          (preserved, kept) = select_preserved ms (cp_preserve_last_n cp) budget;
          older = slice_to (int (length ms) - int (length preserved)) ms
      in if older = [] then
           (Inr \<lparr>cr_summary = [], cr_preserved = preserved, cr_tokens_before = before,
                 cr_tokens_after = kept, cr_validation_score = None, cr_degraded = False\<rparr>, s)
         else
           let target = max 0 (budget - kept) in
           case cp_summarize cp older target s of
             (Inl e, s1) \<Rightarrow> (Inl (if is_Exception e then compaction_error e else e), s1)
           | (Inr summary, s1) \<Rightarrow>
               let after = kept + target in
               if \<not> cp_validate cp then
                 (Inr \<lparr>cr_summary = summary, cr_preserved = preserved, cr_tokens_before = before,
                       cr_tokens_after = after, cr_validation_score = None, cr_degraded = False\<rparr>, s1)
               else
                 (case retried cp older target summary (score_compaction older summary) s1 of
                    (Inl e, s2) \<Rightarrow> (Inl e, s2)
                  | (Inr (best, score), s2) \<Rightarrow>
                      (Inr \<lparr>cr_summary = best, cr_preserved = preserved, cr_tokens_before = before,
                            cr_tokens_after = after, cr_validation_score = Some score,
                            cr_degraded = (score < cp_validation_threshold cp)\<rparr>, s2)))"

definition null_compact :: "message list \<Rightarrow> int \<Rightarrow> 's \<Rightarrow> compaction_result result \<times> 's" where
  "null_compact ms budget s = (Inl (raised (Memory_exc CompactionUnavailableError) []), s)"

section \<open>The selection\<close>

text \<open>\<open>keeps_newest n b ms ps t\<close>: \<open>ps\<close> are the newest messages of \<open>ms\<close>, with \<open>t\<close> tokens, as many as
  the count and the budget admit.\<close>

definition keeps_newest :: "int \<Rightarrow> int \<Rightarrow> message list \<Rightarrow> message list \<Rightarrow> int \<Rightarrow> bool" where
  "keeps_newest n b ms ps t \<longleftrightarrow>
     suffix ps ms \<and> t = tokens_of ps \<and> (ps = [] \<or> (int (length ps) \<le> n \<and> t \<le> b)) \<and>
     (ps = ms \<or> int (length ps) \<ge> n \<or> t + msg_tokens (ms ! (length ms - length ps - 1)) > b)"

lemma select_back_spec:
  assumes "select_back n b ms acc t = (ps, t')"
    and "t = tokens_of acc" and "acc = [] \<or> (int (length acc) \<le> n \<and> t \<le> b)"
  shows "prefix ps (acc @ ms) \<and> prefix acc ps \<and> t' = tokens_of ps \<and>
    (ps = [] \<or> (int (length ps) \<le> n \<and> t' \<le> b)) \<and>
    (ps = acc @ ms \<or> int (length ps) \<ge> n \<or> t' + msg_tokens ((acc @ ms) ! length ps) > b)"
  using assms
proof (induction n b ms acc t rule: select_back.induct)
  case (2 n b m ms acc t)
  show ?case
  proof (cases "int (length acc) \<ge> n \<or> t + msg_tokens m > b")
    case True
    with 2(2) have "ps = acc" "t' = t" by (auto split: if_splits)
    with True 2(3,4) show ?thesis by (auto simp: nth_append)
  next
    case False
    with 2(2) have "select_back n b ms (acc @ [m]) (t + msg_tokens m) = (ps, t')" by simp
    moreover have "t + msg_tokens m = tokens_of (acc @ [m])" using 2(3) by (simp add: tokens_of_def)
    moreover have "int (length (acc @ [m])) \<le> n \<and> t + msg_tokens m \<le> b" using False by simp
    ultimately show ?thesis
      using 2(1) [of] False by (auto dest: append_prefixD)
  qed
qed (auto simp: tokens_of_def)

lemma select_preserved_spec:
  assumes "select_preserved ms n b = (ps, t)"
  shows "keeps_newest n b ms ps t"
proof -
  obtain acc where acc: "select_back n b (rev ms) [] 0 = (acc, t)" and ps: "ps = rev acc"
    using assms by (auto simp: select_preserved_def split: prod.splits)
  from select_back_spec [OF acc] have pre: "prefix acc (rev ms)" and t: "t = tokens_of acc"
    and bound: "acc = [] \<or> (int (length acc) \<le> n \<and> t \<le> b)"
    and stop: "acc = rev ms \<or> int (length acc) \<ge> n \<or> t + msg_tokens (rev ms ! length acc) > b"
    by (auto simp: tokens_of_def)
  have "length acc < length ms" if "acc \<noteq> rev ms"
    using that pre by (metis length_rev prefix_length_less prefix_order.le_less strict_prefix_def)
  then have "ps = ms \<or> int (length ps) \<ge> n \<or> t + msg_tokens (ms ! (length ms - length ps - 1)) > b"
    using stop by (cases "acc = rev ms") (auto simp: ps rev_nth)
  moreover have "tokens_of ps = tokens_of acc" by (simp add: ps tokens_of_def rev_map [symmetric])
  moreover have "suffix ps ms" using pre by (simp add: ps suffix_to_prefix)
  ultimately show ?thesis using t bound by (simp add: keeps_newest_def ps)
qed

lemma slice_older:
  assumes "suffix ps ms"
  shows "slice_to (int (length ms) - int (length ps)) ms @ ps = ms"
    and "slice_to (int (length ms) - int (length ps)) ms = [] \<longleftrightarrow> ps = ms"
proof -
  obtain xs where "ms = xs @ ps" using assms by (auto simp: suffix_def)
  then show "slice_to (int (length ms) - int (length ps)) ms @ ps = ms"
    and "slice_to (int (length ms) - int (length ps)) ms = [] \<longleftrightarrow> ps = ms"
    by (auto simp: slice_to_def)
qed

section \<open>Properties\<close>

text \<open>C37: a compaction that returns keeps the newest messages that the count and the budget admit,
  verbatim and as many as they admit, and reports the tokens before. The tokens it reports
  after are those of the kept messages when nothing is older, and the whole budget (or the kept
  tokens, if they are more) otherwise.\<close>

theorem compact_keeps_newest:
  assumes "compact cp ms budget s = (Inr r, s')"
  shows "\<exists>t. keeps_newest (cp_preserve_last_n cp) budget ms (cr_preserved r) t \<and>
    cr_tokens_before r = tokens_of ms \<and>
    cr_tokens_after r = (if cr_preserved r = ms then t else max t budget) \<and>
    (cr_preserved r = ms \<longrightarrow> cr_summary r = [] \<and> s' = s)"
proof -
  obtain ps t where sel: "select_preserved ms (cp_preserve_last_n cp) budget = (ps, t)"
    by (metis prod.exhaust)
  have k: "keeps_newest (cp_preserve_last_n cp) budget ms ps t" by (rule select_preserved_spec) (rule sel)
  then have "suffix ps ms" by (simp add: keeps_newest_def)
  note old = slice_older(2) [OF this]
  have "cr_preserved r = ps \<and> cr_tokens_before r = tokens_of ms \<and>
      cr_tokens_after r = (if ps = ms then t else max t budget) \<and> (ps = ms \<longrightarrow> cr_summary r = [] \<and> s' = s)"
    using assms sel old
    by (auto simp: compact_def Let_def split: prod.splits sum.splits if_splits)
  with k show ?thesis by auto
qed

definition demo_message :: "int \<Rightarrow> message" where
  "demo_message n = \<lparr>msg_role = User, msg_content = [53, 48], msg_tokens = n\<rparr>"

definition demo_compactor :: "pystr \<Rightarrow> pystr option \<Rightarrow> nat compactor" where
  "demo_compactor first second = \<lparr>cp_summarize = (\<lambda>ms t n. (Inr first, Suc n)), cp_preserve_last_n = 2,
     cp_validate = True, cp_validation_threshold = default_validation_threshold,
     cp_retry = map_option (\<lambda>x ms t n. (Inr x, Suc n)) second\<rparr>"

lemma compact_keeps_newest_witness:
  "\<exists>t. keeps_newest 2 10 [demo_message 4, demo_message 3] [demo_message 4, demo_message 3] t"
proof -
  have "compact (demo_compactor [] None) [demo_message 4, demo_message 3] 10 0 =
      (Inr \<lparr>cr_summary = [], cr_preserved = [demo_message 4, demo_message 3], cr_tokens_before = 7,
         cr_tokens_after = 7, cr_validation_score = None, cr_degraded = False\<rparr>, 0)"
    by (simp add: compact_def select_preserved_def demo_compactor_def demo_message_def tokens_of_def slice_to_def)
  from compact_keeps_newest [OF this] show ?thesis by (auto simp: demo_compactor_def)
qed

lemma compact_validation_parts:
  assumes "compact cp ms budget s = (Inr r, s')" and "cp_validate cp" and "cr_preserved r \<noteq> ms"
    and "older = slice_to (int (length ms) - int (length (cr_preserved r))) ms"
    and "cp_summarize cp older (max 0 (budget - tokens_of (cr_preserved r))) s = (Inr first, s1)"
  shows "cr_validation_score r = Some (score_compaction older (cr_summary r))"
    and "0 \<le> score_compaction older (cr_summary r) \<and> score_compaction older (cr_summary r) \<le> 1"
    and "score_compaction older first \<le> score_compaction older (cr_summary r)"
    and "cr_degraded r \<longleftrightarrow> score_compaction older (cr_summary r) < cp_validation_threshold cp"
    and "cp_validation_threshold cp \<le> score_compaction older first \<Longrightarrow> cr_summary r = first \<and> s' = s1"
proof -
  obtain ps t where sel: "select_preserved ms (cp_preserve_last_n cp) budget = (ps, t)"
    by (metis prod.exhaust)
  then have k: "keeps_newest (cp_preserve_last_n cp) budget ms ps t" by (rule select_preserved_spec)
  then have t: "t = tokens_of ps" and suf: "suffix ps ms" by (simp_all add: keeps_newest_def)
  have ps: "cr_preserved r = ps"
    using assms(1) sel by (auto simp: compact_def Let_def split: prod.splits sum.splits if_splits)
  then have older: "slice_to (int (length ms) - int (length ps)) ms = older"
    and summ: "cp_summarize cp older (max 0 (budget - t)) s = (Inr first, s1)"
    using assms(4,5) t by simp_all
  have ne: "older \<noteq> []" using assms(3,4) ps slice_older(2) [OF suf] by simp
  obtain score where
    ret: "retried cp older (max 0 (budget - t)) first (score_compaction older first) s1 = (Inr (cr_summary r, score), s')"
    and r: "cr_validation_score r = Some score" "cr_degraded r \<longleftrightarrow> score < cp_validation_threshold cp"
    using assms(1,2) sel older summ ne
    by (auto simp: compact_def Let_def split: prod.splits sum.splits)
  have score: "score = score_compaction older (cr_summary r) \<and> score_compaction older first \<le> score"
    "cp_validation_threshold cp \<le> score_compaction older first \<Longrightarrow> cr_summary r = first \<and> s' = s1"
    using ret by (auto simp: retried_def Let_def split: option.splits if_splits prod.splits sum.splits)
  with r score_bounds show "cr_validation_score r = Some (score_compaction older (cr_summary r))"
    and "0 \<le> score_compaction older (cr_summary r) \<and> score_compaction older (cr_summary r) \<le> 1"
    and "score_compaction older first \<le> score_compaction older (cr_summary r)"
    and "cr_degraded r \<longleftrightarrow> score_compaction older (cr_summary r) < cp_validation_threshold cp"
    and "cp_validation_threshold cp \<le> score_compaction older first \<Longrightarrow> cr_summary r = first \<and> s' = s1"
    by simp_all
qed

text \<open>validation never makes a result worse. When older messages were summarised and validation
  is on, the reported score is the score of the reported summary, lies between 0 and 1, is at
  least the score of the first summary, and the result is marked degraded exactly when it is
  below the threshold; the second summarizer is not called when the first summary reaches it.\<close>

lemma compact_validation:
  assumes "compact cp ms budget s = (Inr r, s')" and "cp_validate cp" and "cr_preserved r \<noteq> ms"
    and "older = slice_to (int (length ms) - int (length (cr_preserved r))) ms"
    and "cp_summarize cp older (max 0 (budget - tokens_of (cr_preserved r))) s = (Inr first, s1)"
  shows "cr_validation_score r = Some (score_compaction older (cr_summary r)) \<and>
    0 \<le> score_compaction older (cr_summary r) \<and> score_compaction older (cr_summary r) \<le> 1 \<and>
    score_compaction older first \<le> score_compaction older (cr_summary r) \<and>
    (cr_degraded r \<longleftrightarrow> score_compaction older (cr_summary r) < cp_validation_threshold cp) \<and>
    (cp_validation_threshold cp \<le> score_compaction older first \<longrightarrow> cr_summary r = first \<and> s' = s1)"
  using compact_validation_parts [OF assms] by blast

lemma compact_validation_witness:
  "0 \<le> score_compaction [demo_message 9] [120] \<and> score_compaction [demo_message 9] [120] \<le> 1"
proof -
  let ?cp = "demo_compactor [120] None" and ?ms = "[demo_message 9, demo_message 3]"
  have sel: "select_preserved ?ms 2 10 = ([demo_message 3], 3)"
    by (simp add: select_preserved_def demo_message_def)
  have old: "slice_to (int (length ?ms) - int (length [demo_message 3])) ?ms = [demo_message 9]"
    by (simp add: slice_to_def)
  have "compact ?cp ?ms 10 0 =
      (Inr \<lparr>cr_summary = [120], cr_preserved = [demo_message 3], cr_tokens_before = tokens_of ?ms,
         cr_tokens_after = 10, cr_validation_score = Some (score_compaction [demo_message 9] [120]),
         cr_degraded = (score_compaction [demo_message 9] [120] < default_validation_threshold)\<rparr>, 1)"
    using sel old by (simp add: compact_def retried_def demo_compactor_def Let_def)
  from compact_validation [OF this _ _ refl, of "[120]" 1] old show ?thesis
    by (simp add: demo_compactor_def)
qed

lemma compact_failures_parts:
  assumes "select_preserved ms (cp_preserve_last_n cp) budget = (ps, t)" and "ps \<noteq> ms"
    and "older = slice_to (int (length ms) - int (length ps)) ms"
  shows "cp_summarize cp older (max 0 (budget - t)) s = (Inl e, s1) \<Longrightarrow> is_Exception e \<Longrightarrow>
      compact cp ms budget s = (Inl (compaction_error e), s1)"
    and "cp_summarize cp older (max 0 (budget - t)) s = (Inr first, s1) \<Longrightarrow> cp_validate cp \<Longrightarrow>
      score_compaction older first < cp_validation_threshold cp \<Longrightarrow> cp_retry cp = Some retry \<Longrightarrow>
      retry older (max 0 (budget - t)) s1 = (Inl e, s2) \<Longrightarrow> is_Exception e \<Longrightarrow>
      \<exists>r. compact cp ms budget s = (Inr r, s2) \<and> cr_summary r = first \<and> cr_degraded r"
proof -
  have "suffix ps ms"
    using select_preserved_spec [OF assms(1)] by (simp add: keeps_newest_def)
  then have ne: "slice_to (int (length ms) - int (length ps)) ms \<noteq> []"
    using assms(2) slice_older(2) by blast
  note c = compact_def Let_def assms(1) assms(3) [symmetric] ne [folded assms(3)]
  show "cp_summarize cp older (max 0 (budget - t)) s = (Inl e, s1) \<Longrightarrow> is_Exception e \<Longrightarrow>
      compact cp ms budget s = (Inl (compaction_error e), s1)"
    by (simp add: c)
  show "cp_summarize cp older (max 0 (budget - t)) s = (Inr first, s1) \<Longrightarrow> cp_validate cp \<Longrightarrow>
      score_compaction older first < cp_validation_threshold cp \<Longrightarrow> cp_retry cp = Some retry \<Longrightarrow>
      retry older (max 0 (budget - t)) s1 = (Inl e, s2) \<Longrightarrow> is_Exception e \<Longrightarrow>
      \<exists>r. compact cp ms budget s = (Inr r, s2) \<and> cr_summary r = first \<and> cr_degraded r"
    by (simp add: c retried_def)
qed

text \<open>only the first summarizer's failure aborts a compaction, as a compaction error carrying
  its cause; a retry that raises leaves the first summary in place, marked degraded.\<close>

lemma compact_failures:
  assumes "select_preserved ms (cp_preserve_last_n cp) budget = (ps, t)" and "ps \<noteq> ms"
    and "older = slice_to (int (length ms) - int (length ps)) ms"
  shows "(\<forall>e s1. cp_summarize cp older (max 0 (budget - t)) s = (Inl e, s1) \<and> is_Exception e \<longrightarrow>
      compact cp ms budget s = (Inl (compaction_error e), s1)) \<and>
    (\<forall>first s1 retry e s2. cp_summarize cp older (max 0 (budget - t)) s = (Inr first, s1) \<and> cp_validate cp \<and>
      score_compaction older first < cp_validation_threshold cp \<and> cp_retry cp = Some retry \<and>
      retry older (max 0 (budget - t)) s1 = (Inl e, s2) \<and> is_Exception e \<longrightarrow>
      (\<exists>r. compact cp ms budget s = (Inr r, s2) \<and> cr_summary r = first \<and> cr_degraded r))"
  using compact_failures_parts [OF assms] by blast

lemma compact_failures_witness:
  "compact \<lparr>cp_summarize = (\<lambda>ms t n. (Inl (raised OSError []), Suc n)), cp_preserve_last_n = 0,
      cp_validate = True, cp_validation_threshold = 0, cp_retry = None\<rparr> [demo_message 9] 10 0 =
   (Inl (compaction_error (raised OSError [])), 1)"
  by (rule compact_failures [where ps = "[]" and t = 0, OF _ _ refl, THEN conjunct1, rule_format])
    (simp_all add: select_preserved_def exc_simps)

end
