(* ===== verification/MemoryManager.thy ===== *)
theory MemoryManager
  imports Observability WorkingMemory MemoryStore Compactor
begin

text \<open>
  \<^verbatim>\<open>src/fabrica/memory/manager.py\<close>: the facade over the working memory, the long-term store and
  the compactor. The long-term store is a record of its four operations (\<open>in_memory_api\<close> and
  \<open>persisted_api\<close> are the two stores of the program); a write and a search are traced.
\<close>

record 's long_term =
  lt_name :: pystr
  lt_write :: "scope \<Rightarrow> memory_item \<Rightarrow> 's \<Rightarrow> pystr result \<times> 's"
  lt_search :: "scope \<Rightarrow> pystr \<Rightarrow> int \<Rightarrow> 's \<Rightarrow> memory_item list result \<times> 's"
  lt_get :: "scope \<Rightarrow> pystr \<Rightarrow> 's \<Rightarrow> memory_item option"
  lt_forget :: "scope \<Rightarrow> pystr \<Rightarrow> 's \<Rightarrow> unit result \<times> 's"

definition in_memory_api :: "bm25_scores \<Rightarrow> pystr \<Rightarrow> datetime \<Rightarrow> memory_state long_term" where
  "in_memory_api bm25 uuid now =
     \<lparr>lt_name = u ''InMemoryMemoryStore'', lt_write = ms_write uuid now,
      lt_search = (\<lambda>s q n m. (ms_search bm25 s q n m, m)), lt_get = ms_get,
      lt_forget = (\<lambda>s i m. (Inr (), ms_forget s i m))\<rparr>"

definition persisted_api ::
    "'b blob_store \<Rightarrow> bm25_scores \<Rightarrow> pystr \<Rightarrow> datetime \<Rightarrow> 'b persisted_memory long_term" where
  "persisted_api bl bm25 uuid now =
     \<lparr>lt_name = u ''PersistedMemoryStore'', lt_write = pm_write bl uuid now,
      lt_search = (\<lambda>s q n p. (pm_search bm25 s q n p, p)), lt_get = pm_get, lt_forget = pm_forget bl\<rparr>"

record ('s, 'c) memory_manager =
  mm_working :: working_memory
  mm_long_term :: 's
  mm_compactor :: 'c

definition on_long_term :: "('s \<Rightarrow> 'a \<times> 's) \<Rightarrow> ('s, 'c) memory_manager \<Rightarrow> 'a \<times> ('s, 'c) memory_manager" where
  "on_long_term f mm = (case f (mm_long_term mm) of (r, s) \<Rightarrow> (r, mm\<lparr>mm_long_term := s\<rparr>))"

definition mm_remember ::
    "(pyval \<Rightarrow> int) \<Rightarrow> scope \<Rightarrow> pystr \<Rightarrow> pyval \<Rightarrow> ('s, 'c) memory_manager
     \<Rightarrow> unit result \<times> ('s, 'c) memory_manager" where
  "mm_remember getsizeof s key v mm =
     (case wm_remember getsizeof s key v (mm_working mm) of (r, w) \<Rightarrow> (r, mm\<lparr>mm_working := w\<rparr>))"

definition mm_recall :: "scope \<Rightarrow> pystr \<Rightarrow> ('s, 'c) memory_manager \<Rightarrow> pyval" where
  "mm_recall s key mm = wm_recall s key (mm_working mm)"

definition mm_compact ::
    "(message list \<Rightarrow> int \<Rightarrow> 'c \<Rightarrow> compaction_result result \<times> 'c) \<Rightarrow> message list \<Rightarrow> int
     \<Rightarrow> ('s, 'c) memory_manager \<Rightarrow> compaction_result result \<times> ('s, 'c) memory_manager" where
  "mm_compact cmp ms budget mm =
     (case cmp ms budget (mm_compactor mm) of (r, c) \<Rightarrow> (r, mm\<lparr>mm_compactor := c\<rparr>))"

definition scope_attributes :: "scope \<Rightarrow> pydict" where
  "scope_attributes s =
     [(u ''user_id'', opt_str (sc_user_id s)), (u ''session_id'', opt_str (sc_session_id s)),
      (u ''agent_id'', opt_str (sc_agent_id s)), (u ''team_id'', opt_str (sc_team_id s))]"

text \<open>\<^verbatim>\<open>sum(len(item.content.encode()) for item in items)\<close>: the first content that cannot be
  encoded raises.\<close>

fun volume_bytes :: "memory_item list \<Rightarrow> nat result" where
  "volume_bytes [] = Inr 0"
| "volume_bytes (x # xs) = rbind (utf8_len (mi_content x)) (\<lambda>n. rbind (volume_bytes xs) (\<lambda>m. Inr (n + m)))"

definition mm_write ::
    "'s long_term \<Rightarrow> scope \<Rightarrow> memory_item \<Rightarrow> (('s, 'c) memory_manager, pystr) io" where
  "mm_write lt s item =
     traced (u ''fabrica.memory.write'') [] None ((u ''backend'', PStr (lt_name lt)) # scope_attributes s)
       (\<lambda>sp.
          io_bind (io_lift (on_long_term (lt_write lt s item))) (\<lambda>i.
          io_bind (io_attr sp (u ''memory_id'') (PStr i)) (\<lambda>_.
          io_bind (io_lift (\<lambda>mm. (utf8_len (mi_content item), mm))) (\<lambda>n.
          io_bind (io_attr sp (u ''volume_bytes'') (PInt (int n))) (\<lambda>_. io_return i)))))"

definition mm_search ::
    "'s long_term \<Rightarrow> scope \<Rightarrow> pystr \<Rightarrow> int \<Rightarrow> (('s, 'c) memory_manager, memory_item list) io" where
  "mm_search lt s q n =
     traced (u ''fabrica.memory.search'') [] None
       ([(u ''backend'', PStr (lt_name lt)), (u ''query'', PStr q), (u ''limit'', PInt n)] @ scope_attributes s)
       (\<lambda>sp.
          io_bind (io_lift (on_long_term (lt_search lt s q n))) (\<lambda>xs.
          io_bind (io_attr sp (u ''result_count'') (PInt (int (length xs)))) (\<lambda>_.
          io_bind (io_lift (\<lambda>mm. (volume_bytes xs, mm))) (\<lambda>n.
          io_bind (io_attr sp (u ''volume_bytes'') (PInt (int n))) (\<lambda>_. io_return xs)))))"

definition mm_get :: "'s long_term \<Rightarrow> scope \<Rightarrow> pystr \<Rightarrow> ('s, 'c) memory_manager \<Rightarrow> memory_item option" where
  "mm_get lt s i mm = lt_get lt s i (mm_long_term mm)"

definition mm_forget ::
    "'s long_term \<Rightarrow> scope \<Rightarrow> pystr \<Rightarrow> ('s, 'c) memory_manager \<Rightarrow> unit result \<times> ('s, 'c) memory_manager" where
  "mm_forget lt s i = on_long_term (lt_forget lt s i)"

lemma mm_write_outcome:
  assumes "mm_write lt s item (t, mm) = (res, (t', mm'))"
  shows "mm' = snd (on_long_term (lt_write lt s item) mm)"
    and "res = rbind (fst (lt_write lt s item (mm_long_term mm))) (\<lambda>i. rbind (utf8_len (mi_content item)) (\<lambda>_. Inr i))"
proof -
  obtain r s' where w: "lt_write lt s item (mm_long_term mm) = (r, s')" by (metis prod.exhaust)
  from traced_result [OF assms [unfolded mm_write_def]] w
  have "mm' = snd (on_long_term (lt_write lt s item) mm) \<and>
      res = rbind r (\<lambda>i. rbind (utf8_len (mi_content item)) (\<lambda>_. Inr i))"
    by (cases r; cases "utf8_len (mi_content item)")
      (auto simp: io_defs on_long_term_def simp del: u_simps)
  with w show "mm' = snd (on_long_term (lt_write lt s item) mm)"
    and "res = rbind (fst (lt_write lt s item (mm_long_term mm))) (\<lambda>i. rbind (utf8_len (mi_content item)) (\<lambda>_. Inr i))"
    by simp_all
qed

section \<open>Properties\<close>

lemma manager_write_outcome_parts:
  assumes "mm_write lt s item (t, mm) = (res, (t', mm'))" and "lt_write lt s item (mm_long_term mm) = (Inr i, lt')"
  shows "mm_long_term mm' = lt'"
    and "c \<in> set (mi_content item) \<Longrightarrow> is_surrogate c \<Longrightarrow> \<exists>e. res = Inl e \<and> exc_isa UnicodeEncodeError e"
    and "\<forall>c \<in> set (mi_content item). \<not> is_surrogate c \<Longrightarrow> res = Inr i"
    and "calls_ok {} t t'"
proof -
  note out = mm_write_outcome [OF assms(1)]
  show "mm_long_term mm' = lt'" using out(1) assms(2) by (simp add: on_long_term_def)
  show "c \<in> set (mi_content item) \<Longrightarrow> is_surrogate c \<Longrightarrow> \<exists>e. res = Inl e \<and> exc_isa UnicodeEncodeError e"
    using out(2) assms(2) utf8_len_surrogate by (simp add: exc_simps)
  show "\<forall>c \<in> set (mi_content item). \<not> is_surrogate c \<Longrightarrow> res = Inr i"
    using out(2) assms(2) utf8_len_ok [of "mi_content item"] by auto
  have "well_traced {} (mm_write lt s item)"
    unfolding mm_write_def by (intro traced_intros) simp_all
  with assms(1) show "calls_ok {} t t'" by (metis fst_conv well_tracedD)
qed

text \<open>the span attributes of a write are computed after it. A write of a content with a lone
  surrogate raises a Unicode error although the item has been stored; every other write returns
  what the store returned. The tracer's calls are bracketed either way.\<close>

lemma manager_write_outcome:
  assumes "mm_write lt s item (t, mm) = (res, (t', mm'))" and "lt_write lt s item (mm_long_term mm) = (Inr i, lt')"
  shows "mm_long_term mm' = lt' \<and>
    ((\<exists>c \<in> set (mi_content item). is_surrogate c) \<longrightarrow> (\<exists>e. res = Inl e \<and> exc_isa UnicodeEncodeError e)) \<and>
    ((\<forall>c \<in> set (mi_content item). \<not> is_surrogate c) \<longrightarrow> res = Inr i) \<and>
    calls_ok {} t t'"
  using manager_write_outcome_parts [OF assms] by blast

lemma manager_write_outcome_witness:
  "\<exists>e. fst (mm_write (persisted_api dict_blob count_bm25 [117] demo_now) (agent_scope [97])
      (demo_memory None [0xD800]) (null_tracer, \<lparr>mm_working = new_working_memory 0, mm_long_term = fresh_memory,
        mm_compactor = ()\<rparr>)) = Inl e \<and> exc_isa UnicodeEncodeError e"
proof -
  let ?lt = "persisted_api dict_blob count_bm25 [117] demo_now" and ?i = "demo_memory None [0xD800]"
  let ?mm = "\<lparr>mm_working = new_working_memory 0, mm_long_term = fresh_memory, mm_compactor = ()\<rparr>"
  obtain res t' mm' where m: "mm_write ?lt (agent_scope [97]) ?i (null_tracer, ?mm) = (res, (t', mm'))"
    by (metis prod.exhaust)
  have "\<exists>lt'. lt_write ?lt (agent_scope [97]) ?i (mm_long_term ?mm) = (Inr [117], lt')"
    by (simp add: persisted_api_def demo_pm_write Let_def demo_stored_id)
  then obtain lt' where "lt_write ?lt (agent_scope [97]) ?i (mm_long_term ?mm) = (Inr [117], lt')" ..
  from manager_write_outcome [OF m this] m show ?thesis
    by (simp add: demo_memory_def is_surrogate_def)
qed

end
