(* ===== verification/PromptStore.thy ===== *)
theory PromptStore
  imports PyDatetime MemoryStore
begin

text \<open>
  \<^verbatim>\<open>src/fabrica/prompts/types.py\<close> and \<^verbatim>\<open>store.py\<close>: the template with its construction checks, the
  versioned in-memory store and the store persisted to a blob.

  The current time is an argument of \<open>ps_put\<close>; a blob is the record of operations of
  \<open>MemoryStore\<close>. A cache boundary is any value, as front matter may hold one. \<open>prompt_store\<close> is the
  contract the manager's cache relies on, \<open>atomic_prompt_store\<close> adds that a failing operation
  changes nothing; the in-memory store interprets the second, the persisted one only the first.
\<close>

section \<open>Templates\<close>

record template =
  pt_name :: pystr
  pt_version :: int
  pt_content :: pystr
  pt_metadata :: pydict
  pt_created_at :: "datetime option"
  pt_cacheable :: bool
  pt_cache_boundary :: pyval

definition max_prompt_content_bytes :: int where "max_prompt_content_bytes = 256 * 1024"

text \<open>\<^verbatim>\<open>0 <= boundary <= len(content)\<close>: only numbers compare with an integer.\<close>

definition boundary_in_range :: "pyval \<Rightarrow> pystr \<Rightarrow> bool result" where
  "boundary_in_range b content =
     (case py_num b of
        None \<Rightarrow> Inl (raised TypeError [])
      | Some r \<Rightarrow> Inr (0 \<le> r \<and> r \<le> real (length content)))"

text \<open>The constructor with its \<^verbatim>\<open>__post_init__\<close>.\<close>

definition make_template ::
    "pystr \<Rightarrow> int \<Rightarrow> pystr \<Rightarrow> pydict \<Rightarrow> datetime option \<Rightarrow> bool \<Rightarrow> pyval \<Rightarrow> template result" where
  "make_template name version content metadata created_at cacheable boundary =
     rbind (utf8_len content) (\<lambda>n.
       if int n > max_prompt_content_bytes
       then Inl (raised (Prompt_exc PromptTooLargeError) [PStr name, PInt (int n)])
       else rbind (if boundary = PNone then Inr True else boundary_in_range boundary content) (\<lambda>ok.
         if \<not> ok
         then Inl (raised (Prompt_exc InvalidCacheBoundaryError) [PStr name, boundary, PInt (int (length content))])
         else Inr \<lparr>pt_name = name, pt_version = version, pt_content = content, pt_metadata = metadata,
                   pt_created_at = created_at, pt_cacheable = cacheable, pt_cache_boundary = boundary\<rparr>))"

section \<open>The in-memory store\<close>

type_synonym prompts = "(pystr, (int, template) dict) dict"

definition versions_of :: "prompts \<Rightarrow> pystr \<Rightarrow> (int, template) dict" where
  "versions_of st name = dict_get_or st name []"

text \<open>\<^verbatim>\<open>max(ks, default=0)\<close>\<close>

definition max_or_0 :: "int list \<Rightarrow> int" where
  "max_or_0 ks = (case ks of [] \<Rightarrow> 0 | k # ks \<Rightarrow> fold max ks k)"

definition put_error :: "exc \<Rightarrow> exc" where
  "put_error e =
     (if exc_isa (Prompt_exc PromptTooLargeError) e \<or> exc_isa (Prompt_exc InvalidCacheBoundaryError) e then e
      else if is_Exception e then raised_from (Prompt_exc PromptBackendError) [] e
      else e)"

definition ps_put ::
    "datetime \<Rightarrow> pystr \<Rightarrow> pystr \<Rightarrow> pydict option \<Rightarrow> bool \<Rightarrow> pyval \<Rightarrow> prompts \<Rightarrow> template result \<times> prompts" where
  "ps_put now name content metadata cacheable boundary st =
     (let st1 = dict_setdefault name [] st;
          versions = versions_of st1 name;
          next_version = max_or_0 (dict_keys versions) + 1
      in case make_template name next_version content (case metadata of None \<Rightarrow> [] | Some m \<Rightarrow> m)
                (Some now) cacheable boundary of
           Inl e \<Rightarrow> (Inl (put_error e), st1)
         | Inr t \<Rightarrow> (Inr t, dict_set name (dict_set next_version t versions) st1))"

definition ps_get :: "pystr \<Rightarrow> int option \<Rightarrow> prompts \<Rightarrow> template option" where
  "ps_get name version st =
     (let versions = versions_of st name
      in if versions = [] then None
         else (case version of
                 None \<Rightarrow> dict_get versions (max_or_0 (dict_keys versions))
               | Some v \<Rightarrow> dict_get versions v))"

definition ps_list_versions :: "pystr \<Rightarrow> prompts \<Rightarrow> int list" where
  "ps_list_versions name st = sort (dict_keys (versions_of st name))"

definition ps_list_names :: "prompts \<Rightarrow> pystr list" where
  "ps_list_names st = dict_keys st"

definition ps_delete :: "pystr \<Rightarrow> int option \<Rightarrow> prompts \<Rightarrow> prompts" where
  "ps_delete name version st =
     (case version of
        None \<Rightarrow> dict_pop name st
      | Some v \<Rightarrow>
          (case dict_get st name of
             None \<Rightarrow> st
           | Some versions \<Rightarrow> dict_set name (dict_pop v versions) st))"

section \<open>Snapshots\<close>

text \<open>\<^verbatim>\<open>int(s)\<close> on the strings \<^verbatim>\<open>str\<close> writes; \<^verbatim>\<open>int\<close> reads further spellings, which here are value
  errors.\<close>

definition read_nat :: "pystr \<Rightarrow> int result" where
  "read_nat s =
     (if s \<noteq> [] \<and> list_all is_digit s then Inr (int (digits_value s)) else Inl (raised ValueError [PStr s]))"

definition read_int :: "pystr \<Rightarrow> int result" where
  "read_int s = (if s \<noteq> [] \<and> hd s = 45 then map_sum id uminus (read_nat (tl s)) else read_nat s)"

definition template_val :: "template \<Rightarrow> pyval" where
  "template_val t =
     PDict [(u ''content'', PStr (pt_content t)), (u ''metadata'', PDict (pt_metadata t)),
            (u ''created_at'', case pt_created_at t of None \<Rightarrow> PNone | Some d \<Rightarrow> PStr (isoformat d)),
            (u ''cacheable'', PBool (pt_cacheable t)), (u ''cache_boundary'', pt_cache_boundary t)]"

definition prompt_snapshot :: "prompts \<Rightarrow> pydict" where
  "prompt_snapshot st =
     [(u ''templates'',
       PDict (map (\<lambda>(name, versions).
                (name, PDict (map (\<lambda>(v, t). (str_int v, template_val t)) versions))) st))]"

text \<open>\<^verbatim>\<open>v.items()\<close>: only a mapping has it. A content that is not a string has no \<^verbatim>\<open>encode\<close>; metadata
  and flags of other types, which Python would keep, are refused with a type error.\<close>

definition py_items :: "pyval \<Rightarrow> pydict result" where
  "py_items v = (case v of PDict d \<Rightarrow> Inr d | _ \<Rightarrow> Inl (raised OtherError []))"

definition read_template :: "pystr \<Rightarrow> pystr \<Rightarrow> pyval \<Rightarrow> template result" where
  "read_template name vs fs =
     rbind (rbind (get_item fs (u ''created_at'')) read_created_at) (\<lambda>created.
     rbind (read_int vs) (\<lambda>version.
     rbind (get_item fs (u ''content'')) (\<lambda>content.
     rbind (get_item fs (u ''metadata'')) (\<lambda>metadata.
     rbind (get_item fs (u ''cacheable'')) (\<lambda>cacheable.
     rbind (get_item fs (u ''cache_boundary'')) (\<lambda>boundary.
       case (content, metadata, cacheable) of
         (PStr c, PDict m, PBool b) \<Rightarrow> make_template name version c m created b boundary
       | (PStr c, _, _) \<Rightarrow> Inl (raised TypeError [])
       | _ \<Rightarrow> Inl (raised OtherError [])))))))"

fun restore_versions :: "pystr \<Rightarrow> pydict \<Rightarrow> prompts \<Rightarrow> unit result \<times> prompts" where
  "restore_versions name [] st = (Inr (), st)"
| "restore_versions name ((vs, fs) # rest) st =
     (case read_template name vs fs of
        Inl e \<Rightarrow> (Inl e, st)
      | Inr t \<Rightarrow> restore_versions name rest (nested_put name (pt_version t) t st))"

fun restore_names :: "pydict \<Rightarrow> prompts \<Rightarrow> unit result \<times> prompts" where
  "restore_names [] st = (Inr (), st)"
| "restore_names ((name, versions) # rest) st =
     (case py_items versions of
        Inl e \<Rightarrow> (Inl e, st)
      | Inr vs \<Rightarrow>
          (case restore_versions name vs st of
             (Inl e, st') \<Rightarrow> (Inl e, st')
           | (Inr _, st') \<Rightarrow> restore_names rest st'))"

definition restore_prompt_snapshot :: "pydict \<Rightarrow> prompts \<Rightarrow> unit result \<times> prompts" where
  "restore_prompt_snapshot blob st =
     (case py_items (dict_get_or blob (u ''templates'') (PDict [])) of
        Inl e \<Rightarrow> (Inl e, st)
      | Inr ns \<Rightarrow> restore_names ns st)"

section \<open>The persisted store\<close>

record 'b persisted_prompts =
  pp_blob :: 'b
  pp_delegate :: prompts

definition pp_create :: "'b blob_store \<Rightarrow> 'b \<Rightarrow> 'b persisted_prompts result \<times> 'b" where
  "pp_create bl b =
     (case bl_get bl b of
        (Inl e, b1) \<Rightarrow> (Inl e, b1)
      | (Inr None, b1) \<Rightarrow> (Inr \<lparr>pp_blob = b1, pp_delegate = []\<rparr>, b1)
      | (Inr (Some blob), b1) \<Rightarrow>
          (case restore_prompt_snapshot blob [] of
             (Inl e, _) \<Rightarrow> (Inl e, b1)
           | (Inr _, st) \<Rightarrow> (Inr \<lparr>pp_blob = b1, pp_delegate = st\<rparr>, b1)))"

definition pp_persist :: "'b blob_store \<Rightarrow> 'b persisted_prompts \<Rightarrow> unit result \<times> 'b persisted_prompts" where
  "pp_persist bl p =
     (case bl_set bl (prompt_snapshot (pp_delegate p)) (pp_blob p) of (r, b) \<Rightarrow> (r, p\<lparr>pp_blob := b\<rparr>))"

definition pp_put ::
    "'b blob_store \<Rightarrow> datetime \<Rightarrow> pystr \<Rightarrow> pystr \<Rightarrow> pydict option \<Rightarrow> bool \<Rightarrow> pyval \<Rightarrow> 'b persisted_prompts
     \<Rightarrow> template result \<times> 'b persisted_prompts" where
  "pp_put bl now name content metadata cacheable boundary p =
     (case ps_put now name content metadata cacheable boundary (pp_delegate p) of
        (Inl e, st) \<Rightarrow> (Inl e, p\<lparr>pp_delegate := st\<rparr>)
      | (Inr t, st) \<Rightarrow>
          (case pp_persist bl (p\<lparr>pp_delegate := st\<rparr>) of
             (Inl e, p') \<Rightarrow> (Inl e, p')
           | (Inr _, p') \<Rightarrow> (Inr t, p')))"

definition pp_get :: "pystr \<Rightarrow> int option \<Rightarrow> 'b persisted_prompts \<Rightarrow> template option" where
  "pp_get name version p = ps_get name version (pp_delegate p)"

definition pp_list_versions :: "pystr \<Rightarrow> 'b persisted_prompts \<Rightarrow> int list" where
  "pp_list_versions name p = ps_list_versions name (pp_delegate p)"

definition pp_list_names :: "'b persisted_prompts \<Rightarrow> pystr list" where
  "pp_list_names p = ps_list_names (pp_delegate p)"

definition pp_delete ::
    "'b blob_store \<Rightarrow> pystr \<Rightarrow> int option \<Rightarrow> 'b persisted_prompts \<Rightarrow> unit result \<times> 'b persisted_prompts" where
  "pp_delete bl name version p = pp_persist bl (p\<lparr>pp_delegate := ps_delete name version (pp_delegate p)\<rparr>)"

section \<open>Lookups\<close>

lemma max_or_0_Max: "ks \<noteq> [] \<Longrightarrow> max_or_0 ks = Max (set ks)"
  by (cases ks) (simp_all only: max_or_0_def list.case Max.set_eq_fold)

lemma next_version_new: "max_or_0 ks + 1 \<notin> set ks"
proof
  assume *: "max_or_0 ks + 1 \<in> set ks"
  then have "ks \<noteq> []" by auto
  with Max_ge [OF finite_set *] show False by (simp add: max_or_0_Max)
qed

lemma max_or_0_append: "max_or_0 (ks @ [max_or_0 ks + 1]) = max_or_0 ks + 1"
  by (cases "ks = []") (simp add: max_or_0_def, simp add: max_or_0_Max max_def)

lemma versions_of_setdefault [simp]: "versions_of (dict_setdefault name [] st) n = versions_of st n"
  by (auto simp: versions_of_def dict_get_or_def map_of_dict_setdefault split: option.split)

lemma versions_of_set [simp]: "versions_of (dict_set name vs st) n = (if n = name then vs else versions_of st n)"
  by (simp add: versions_of_def dict_get_or_def map_of_dict_set)

lemma versions_of_pop [simp]: "versions_of (dict_pop name st) n = (if n = name then [] else versions_of st n)"
  by (simp add: versions_of_def dict_get_or_def map_of_dict_pop)

lemma ps_get_Some: "ps_get n (Some v) st = dict_get (versions_of st n) v"
  by (simp add: ps_get_def Let_def)

lemma ps_get_cong: "versions_of st n = versions_of st' n \<Longrightarrow> ps_get n v st = ps_get n v st'"
  by (simp add: ps_get_def)

lemma ps_delete_versions:
  "versions_of (ps_delete name v st) n =
     (if n = name then (case v of None \<Rightarrow> [] | Some k \<Rightarrow> dict_pop k (versions_of st n)) else versions_of st n)"
  by (auto simp: ps_delete_def versions_of_def dict_get_or_def map_of_dict_set map_of_dict_pop
      split: option.split)

text \<open>A put that succeeds adds the next version and is the latest; one that fails leaves every
  lookup as it was.\<close>

lemma make_template_fields:
  "make_template name v c m cr ca b = Inr t \<Longrightarrow>
     pt_name t = name \<and> pt_version t = v \<and> pt_content t = c \<and> pt_metadata t = m \<and> pt_created_at t = cr \<and>
     pt_cacheable t = ca \<and> pt_cache_boundary t = b"
  by (auto simp: make_template_def rbind_def split: sum.splits if_splits)

lemma ps_put_Inr:
  assumes "ps_put now name content metadata cacheable boundary st = (Inr t, st')"
  shows "versions_of st' n =
      (if n = name then versions_of st name @ [(pt_version t, t)] else versions_of st n)"
    and "pt_version t = max_or_0 (dict_keys (versions_of st name)) + 1"
    and "make_template name (pt_version t) content (case metadata of None \<Rightarrow> [] | Some m \<Rightarrow> m) (Some now)
           cacheable boundary = Inr t"
proof -
  let ?v = "max_or_0 (dict_keys (versions_of st name)) + 1"
  have mk: "make_template name ?v content (case metadata of None \<Rightarrow> [] | Some m \<Rightarrow> m) (Some now) cacheable boundary = Inr t"
    and st': "st' = dict_set name (dict_set ?v t (versions_of st name)) (dict_setdefault name [] st)"
    using assms by (auto simp: ps_put_def Let_def split: sum.splits)
  have v: "pt_version t = ?v" using make_template_fields [OF mk] by simp
  have "dict_set ?v t (versions_of st name) = versions_of st name @ [(?v, t)]"
    by (rule keys_dict_set_new) (rule next_version_new)
  then show "versions_of st' n =
      (if n = name then versions_of st name @ [(pt_version t, t)] else versions_of st n)"
    using st' v by simp
  show "pt_version t = ?v" by (rule v)
  show "make_template name (pt_version t) content (case metadata of None \<Rightarrow> [] | Some m \<Rightarrow> m) (Some now)
           cacheable boundary = Inr t"
    using mk v by simp
qed

lemma ps_put_Inl:
  assumes "ps_put now name content metadata cacheable boundary st = (Inl e, st')"
  shows "versions_of st' n = versions_of st n"
  using assms by (auto simp: ps_put_def Let_def split: sum.splits)

lemma ps_put_get:
  assumes "ps_put now name content metadata cacheable boundary st = (Inr t, st')"
  shows "ps_get n v st' = (if n = name \<and> (v = None \<or> v = Some (pt_version t)) then Some t else ps_get n v st)"
    and "ps_get name (Some (pt_version t)) st = None"
proof -
  let ?vs = "versions_of st name"
  note put = ps_put_Inr [OF assms]
  have new: "pt_version t \<notin> set (dict_keys ?vs)" unfolding put(2) by (rule next_version_new)
  then have none: "dict_get ?vs (pt_version t) = None" by (simp add: dict_get_None_iff)
  then show "ps_get name (Some (pt_version t)) st = None" by (simp add: ps_get_Some)
  have latest: "max_or_0 (dict_keys (?vs @ [(pt_version t, t)])) = pt_version t"
    using max_or_0_append [of "dict_keys ?vs"] by (simp add: put(2))
  show "ps_get n v st' = (if n = name \<and> (v = None \<or> v = Some (pt_version t)) then Some t else ps_get n v st)"
  proof (cases "n = name")
    case True
    with put(1) have vs: "versions_of st' n = ?vs @ [(pt_version t, t)]" by simp
    show ?thesis
    proof (cases v)
      case None
      then show ?thesis using True vs latest none by (simp add: ps_get_def Let_def map_add_def)
    next
      case (Some k)
      have "ps_get n v st' = dict_get (?vs @ [(pt_version t, t)]) k" using Some vs by (simp only: ps_get_Some)
      also have "\<dots> = (if k = pt_version t then Some t else dict_get ?vs k)"
        using none by (auto simp: map_add_def split: option.split)
      finally show ?thesis using True Some by (simp add: ps_get_Some)
    qed
  next
    case False
    then have "versions_of st' n = versions_of st n" using put(1) by simp
    then show ?thesis using False by (auto intro: ps_get_cong)
  qed
qed

section \<open>Well-formed stores\<close>

definition template_ok :: "pystr \<Rightarrow> int \<Rightarrow> template \<Rightarrow> bool" where
  "template_ok name v t \<longleftrightarrow>
     make_template name v (pt_content t) (pt_metadata t) (pt_created_at t) (pt_cacheable t) (pt_cache_boundary t) = Inr t \<and>
     (case pt_created_at t of None \<Rightarrow> True | Some d \<Rightarrow> datetime_ok d)"

definition versions_ok :: "pystr \<Rightarrow> (int, template) dict \<Rightarrow> bool" where
  "versions_ok name vs \<longleftrightarrow> dict_ok vs \<and> (\<forall>(v, t) \<in> set vs. template_ok name v t)"

definition prompts_ok :: "prompts \<Rightarrow> bool" where
  "prompts_ok st \<longleftrightarrow> dict_ok st \<and> (\<forall>(name, vs) \<in> set st. versions_ok name vs)"

lemma prompts_ok_empty [simp]: "prompts_ok []"
  by (simp add: prompts_ok_def)

lemma versions_ok_empty [simp]: "versions_ok name []"
  by (simp add: versions_ok_def)

lemma versions_ok_of: "prompts_ok st \<Longrightarrow> versions_ok name (versions_of st name)"
  by (auto simp: versions_of_def dict_get_or_def prompts_ok_def dest: map_of_SomeD split: option.split)

lemma prompts_ok_set: "prompts_ok st \<Longrightarrow> versions_ok name vs \<Longrightarrow> prompts_ok (dict_set name vs st)"
  using set_dict_set [of name vs st] by (fastforce simp: prompts_ok_def)

lemma prompts_ok_setdefault: "prompts_ok st \<Longrightarrow> prompts_ok (dict_setdefault name [] st)"
  by (simp add: dict_setdefault_def prompts_ok_set split: option.split)

lemma prompts_ok_put:
  assumes "prompts_ok st" and "datetime_ok now" and "ps_put now name content metadata cacheable boundary st = (r, st')"
  shows "prompts_ok st'"
proof (cases r)
  case (Inl e)
  with assms show ?thesis by (auto simp: ps_put_def Let_def prompts_ok_setdefault split: sum.splits)
next
  case (Inr t)
  let ?v = "max_or_0 (dict_keys (versions_of st name)) + 1"
  from assms(3) Inr have
    mk: "make_template name ?v content (case metadata of None \<Rightarrow> [] | Some m \<Rightarrow> m) (Some now) cacheable boundary = Inr t"
    and st': "st' = dict_set name (dict_set ?v t (versions_of st name)) (dict_setdefault name [] st)"
    by (auto simp: ps_put_def Let_def split: sum.splits)
  have "template_ok name ?v t"
    using mk make_template_fields [OF mk] assms(2) by (simp add: template_ok_def)
  then have "versions_ok name (dict_set ?v t (versions_of st name))"
    using versions_ok_of [OF assms(1)] set_dict_set [of ?v t "versions_of st name"]
    by (fastforce simp: versions_ok_def)
  then show ?thesis unfolding st' by (intro prompts_ok_set prompts_ok_setdefault assms(1))
qed

lemma prompts_ok_delete: "prompts_ok st \<Longrightarrow> prompts_ok (ps_delete name v st)"
proof (cases v)
  case None
  assume "prompts_ok st"
  then show ?thesis using None set_dict_pop [of name st] by (auto simp: ps_delete_def prompts_ok_def)
next
  case (Some k)
  assume ok: "prompts_ok st"
  show ?thesis
  proof (cases "dict_get st name")
    case None
    with Some ok show ?thesis by (simp add: ps_delete_def)
  next
    case vs: (Some vs)
    then have "versions_of st name = vs" by (simp add: versions_of_def dict_get_or_def)
    with versions_ok_of [OF ok, of name] have "versions_ok name (dict_pop k vs)"
      using set_dict_pop [of k vs] by (auto simp: versions_ok_def)
    with Some vs ok show ?thesis by (simp add: ps_delete_def prompts_ok_set)
  qed
qed

section \<open>The contract of a store\<close>

locale prompt_store =
  fixes s_put :: "datetime \<Rightarrow> pystr \<Rightarrow> pystr \<Rightarrow> pydict option \<Rightarrow> bool \<Rightarrow> pyval \<Rightarrow> 's \<Rightarrow> template result \<times> 's"
    and s_get :: "pystr \<Rightarrow> int option \<Rightarrow> 's \<Rightarrow> template option"
    and s_delete :: "pystr \<Rightarrow> int option \<Rightarrow> 's \<Rightarrow> unit result \<times> 's"
    and s_inv :: "'s \<Rightarrow> bool"
  assumes put_inv: "s_inv s \<Longrightarrow> datetime_ok now \<Longrightarrow> s_put now n c m b cb s = (r, s') \<Longrightarrow> s_inv s'"
    and delete_inv: "s_inv s \<Longrightarrow> s_delete n v s = (dr, s') \<Longrightarrow> s_inv s'"
    and put_new: "s_put now n c m b cb s = (Inr t, s') \<Longrightarrow>
      pt_name t = n \<and> pt_content t = c \<and> s_get n (Some (pt_version t)) s = None"
    and put_get: "s_put now n c m b cb s = (Inr t, s') \<Longrightarrow>
      s_get n' v s' = (if n' = n \<and> (v = None \<or> v = Some (pt_version t)) then Some t else s_get n' v s)"
    and delete_other: "s_delete n v s = (Inr (), s') \<Longrightarrow> n' \<noteq> n \<Longrightarrow> s_get n' v' s' = s_get n' v' s"
    and delete_gone: "s_delete n v s = (Inr (), s') \<Longrightarrow>
      s_get n (Some k) s' = (if v = None \<or> v = Some k then None else s_get n (Some k) s)"

locale atomic_prompt_store = prompt_store s_put s_get s_delete s_inv
  for s_put :: "datetime \<Rightarrow> pystr \<Rightarrow> pystr \<Rightarrow> pydict option \<Rightarrow> bool \<Rightarrow> pyval \<Rightarrow> 's \<Rightarrow> template result \<times> 's"
    and s_get s_delete s_inv +
  assumes put_fails: "s_put now n c m b cb s = (Inl e, s') \<Longrightarrow> s_get n' v s' = s_get n' v s"
    and delete_total: "\<exists>s'. s_delete n v s = (Inr (), s')"

interpretation in_memory_prompts: atomic_prompt_store ps_put ps_get
  "\<lambda>n v st. (Inr (), ps_delete n v st)" prompts_ok
  apply unfold_locales
  subgoal by (rule prompts_ok_put)
  subgoal by (auto intro: prompts_ok_delete)
  subgoal using make_template_fields [OF ps_put_Inr(3)] ps_put_get(2) by blast
  subgoal by (rule ps_put_get(1))
  subgoal by (auto intro!: ps_get_cong simp: ps_delete_versions)
  subgoal for n v s s' k by (cases v) (auto simp: ps_get_Some ps_delete_versions map_of_dict_pop)
  subgoal by (rule ps_get_cong) (rule ps_put_Inl)
  subgoal by simp
  done

lemma pp_put_Inr:
  assumes "pp_put bl now n c m b cb p = (Inr t, p')"
  shows "ps_put now n c m b cb (pp_delegate p) = (Inr t, pp_delegate p')"
    and "bl_set bl (prompt_snapshot (pp_delegate p')) (pp_blob p) = (Inr (), pp_blob p')"
  using assms by (auto simp: pp_put_def pp_persist_def split: prod.splits sum.splits)

lemma pp_put_delegate:
  "pp_delegate (snd (pp_put bl now n c m b cb p)) = snd (ps_put now n c m b cb (pp_delegate p))"
  by (auto simp: pp_put_def pp_persist_def split: prod.splits sum.splits)

lemma pp_delete_delegate: "pp_delegate (snd (pp_delete bl n v p)) = ps_delete n v (pp_delegate p)"
  by (simp add: pp_delete_def pp_persist_def split: prod.split)

lemma pp_delete_Inr:
  "pp_delete bl n v p = (Inr (), p') \<Longrightarrow>
     bl_set bl (prompt_snapshot (pp_delegate p')) (pp_blob p) = (Inr (), pp_blob p')"
  by (auto simp: pp_delete_def pp_persist_def split: prod.splits)

definition persisted_prompts_ok :: "'b persisted_prompts \<Rightarrow> bool" where
  "persisted_prompts_ok p \<longleftrightarrow> prompts_ok (pp_delegate p)"

interpretation persisted_prompts: prompt_store "pp_put bl" pp_get "pp_delete bl" persisted_prompts_ok for bl
  apply unfold_locales
  subgoal unfolding persisted_prompts_ok_def using pp_put_delegate prompts_ok_put by (metis snd_conv prod.collapse)
  subgoal unfolding persisted_prompts_ok_def using pp_delete_delegate prompts_ok_delete by (metis snd_conv)
  subgoal unfolding pp_get_def by (rule in_memory_prompts.put_new) (rule pp_put_Inr)
  subgoal unfolding pp_get_def by (rule in_memory_prompts.put_get) (rule pp_put_Inr)
  subgoal unfolding pp_get_def using pp_delete_delegate in_memory_prompts.delete_other by (metis snd_conv)
  subgoal unfolding pp_get_def using pp_delete_delegate in_memory_prompts.delete_gone by (metis snd_conv)
  done

section \<open>The snapshot round trip\<close>

lemma dec_digits: "list_all is_digit (dec n) \<and> dec n \<noteq> [] \<and> digits_value (dec n) = n"
proof (induction n rule: dec.induct)
  case (1 n)
  show ?case
  proof (cases "n < 10")
    case True
    then show ?thesis by (simp add: dec.simps [of n] is_digit_def digits_value_def)
  next
    case False
    with 1 show ?thesis
      by (simp add: dec.simps [of n] is_digit_def digits_value_def)
  qed
qed

lemma read_nat_dec: "read_nat (dec n) = Inr (int n)"
  using dec_digits [of n] by (simp add: read_nat_def)

lemma dec_hd: "hd (dec n) \<noteq> 45"
  using dec_digits [of n] by (cases "dec n") (auto simp: is_digit_def)

lemma read_int_str: "read_int (str_int z) = Inr z"
  using dec_hd [of "nat z"] dec_digits [of "nat z"] by (simp add: read_int_def str_int_def read_nat_dec)

lemma read_template_val:
  assumes "template_ok name v t"
  shows "read_template name (str_int v) (template_val t) = Inr t \<and> pt_version t = v"
proof -
  have "read_created_at (case pt_created_at t of None \<Rightarrow> PNone | Some d \<Rightarrow> PStr (isoformat d)) = Inr (pt_created_at t)"
    using assms isoformat_nonempty
    by (auto simp: read_created_at_def template_ok_def fromisoformat_isoformat split: option.splits)
  moreover have "make_template name v (pt_content t) (pt_metadata t) (pt_created_at t) (pt_cacheable t) (pt_cache_boundary t) = Inr t"
    using assms by (simp add: template_ok_def)
  ultimately show ?thesis
    using make_template_fields [of name v "pt_content t" "pt_metadata t" "pt_created_at t" "pt_cacheable t" "pt_cache_boundary t" t]
    by (simp add: read_template_def template_val_def get_item_def read_int_str)
qed

lemma restore_versions_snapshot:
  assumes "name \<notin> set (dict_keys st)" and "dict_ok (vs0 @ vs)" and "\<forall>(v, t) \<in> set vs. template_ok name v t"
  shows "restore_versions name (map (\<lambda>(v, t). (str_int v, template_val t)) vs)
      (if vs0 = [] then st else st @ [(name, vs0)]) =
    (Inr (), if vs0 @ vs = [] then st else st @ [(name, vs0 @ vs)])"
  using assms(2,3)
proof (induction vs arbitrary: vs0)
  case (Cons vt vs)
  obtain v t where vt: "vt = (v, t)" by (metis prod.exhaust)
  with Cons.prems(2) have r: "read_template name (str_int v) (template_val t) = Inr t" "pt_version t = v"
    using read_template_val by auto
  have "nested_put name v t (if vs0 = [] then st else st @ [(name, vs0)]) = st @ [(name, vs0 @ [(v, t)])]"
    using assms(1) Cons.prems(1) vt by (auto simp: nested_put_new nested_put_last)
  then show ?case
    using Cons.IH [of "vs0 @ [vt]"] Cons.prems vt r by simp
qed simp

lemma restore_names_snapshot:
  assumes "dict_ok (st0 @ st)" and "\<forall>(name, vs) \<in> set st. versions_ok name vs"
  shows "restore_names (map (\<lambda>(name, vs). (name, PDict (map (\<lambda>(v, t). (str_int v, template_val t)) vs))) st) st0 =
    (Inr (), st0 @ filter (\<lambda>(name, vs). vs \<noteq> []) st)"
  using assms
proof (induction st arbitrary: st0)
  case (Cons nv st)
  obtain name vs where nv: "nv = (name, vs)" by (metis prod.exhaust)
  have "restore_versions name (map (\<lambda>(v, t). (str_int v, template_val t)) vs) st0 =
      (Inr (), if vs = [] then st0 else st0 @ [(name, vs)])"
    using restore_versions_snapshot [of name st0 "[]" vs] Cons.prems nv by (simp add: versions_ok_def)
  moreover have "dict_ok ((if vs = [] then st0 else st0 @ [(name, vs)]) @ st)" using Cons.prems nv by auto
  ultimately show ?case
    using Cons.IH [of "if vs = [] then st0 else st0 @ [(name, vs)]"] Cons.prems nv
    by (auto simp: py_items_def)
qed simp

lemma restore_prompts:
  assumes "prompts_ok st"
  shows "restore_prompt_snapshot (prompt_snapshot st) [] = (Inr (), filter (\<lambda>(name, vs). vs \<noteq> []) st)"
  using restore_names_snapshot [of "[]" st] assms
  by (simp add: restore_prompt_snapshot_def prompt_snapshot_def dict_get_or_def py_items_def prompts_ok_def)

lemma versions_of_filter: "dict_ok st \<Longrightarrow> versions_of (filter (\<lambda>(name, vs). vs \<noteq> []) st) n = versions_of st n"
proof (induction st)
  case (Cons nv st)
  obtain name vs where nv: "nv = (name, vs)" by (metis prod.exhaust)
  with Cons.prems have out: "dict_get st name = None" "dict_ok st" by (simp_all add: map_of_eq_None_iff)
  from Cons.IH [OF out(2)] nv out(1) show ?case
    by (cases "n = name") (simp_all add: versions_of_def dict_get_or_def)
qed (simp add: versions_of_def)

section \<open>Properties\<close>

lemma prompt_put_effect_parts:
  shows "ps_put now name content metadata cacheable boundary st = (Inr t, st') \<Longrightarrow>
      pt_content t = content \<and> ps_get name (Some (pt_version t)) st = None \<and>
      (\<forall>k \<in> set (ps_list_versions name st). k < pt_version t) \<and>
      ps_get n v st' = (if n = name \<and> (v = None \<or> v = Some (pt_version t)) then Some t else ps_get n v st)"
    and "ps_put now name content metadata cacheable boundary st = (Inl e, st') \<Longrightarrow>
      ps_get n v st' = ps_get n v st \<and> ps_list_versions n st' = ps_list_versions n st"
proof -
  show "pt_content t = content \<and> ps_get name (Some (pt_version t)) st = None \<and>
      (\<forall>k \<in> set (ps_list_versions name st). k < pt_version t) \<and>
      ps_get n v st' = (if n = name \<and> (v = None \<or> v = Some (pt_version t)) then Some t else ps_get n v st)"
    if put: "ps_put now name content metadata cacheable boundary st = (Inr t, st')"
  proof -
    have "k < pt_version t" if "k \<in> set (ps_list_versions name st)" for k
    proof -
      from that have k: "k \<in> set (dict_keys (versions_of st name))" by (simp add: ps_list_versions_def)
      then have "k \<le> max_or_0 (dict_keys (versions_of st name))"
        by (subst max_or_0_Max) (auto intro: Max_ge)
      then show ?thesis by (simp add: ps_put_Inr(2) [OF put])
    qed
    then show ?thesis
      using in_memory_prompts.put_new [OF put] in_memory_prompts.put_get [OF put] by blast
  qed
  show "ps_get n v st' = ps_get n v st \<and> ps_list_versions n st' = ps_list_versions n st"
    if "ps_put now name content metadata cacheable boundary st = (Inl e, st')"
    using in_memory_prompts.put_fails [OF that] ps_put_Inl [OF that] by (simp add: ps_list_versions_def)
qed

text \<open>a put assigns the next version. A put that returns is the new latest template, under a
  version one above every existing one of that name and free before, with the content it was
  given; no other version and no other name changes. A put that raises changes no lookup.\<close>

lemma prompt_put_effect:
  "(\<forall>t st'. ps_put now name content metadata cacheable boundary st = (Inr t, st') \<longrightarrow>
      pt_content t = content \<and> ps_get name (Some (pt_version t)) st = None \<and>
      (\<forall>k \<in> set (ps_list_versions name st). k < pt_version t) \<and>
      (\<forall>n v. ps_get n v st' = (if n = name \<and> (v = None \<or> v = Some (pt_version t)) then Some t else ps_get n v st))) \<and>
    (\<forall>e st'. ps_put now name content metadata cacheable boundary st = (Inl e, st') \<longrightarrow>
      (\<forall>n v. ps_get n v st' = ps_get n v st \<and> ps_list_versions n st' = ps_list_versions n st))"
  by (intro conjI allI impI; (drule prompt_put_effect_parts(1) | drule prompt_put_effect_parts(2));
      (elim conjE)?; assumption)

definition demo_template :: "int \<Rightarrow> pystr \<Rightarrow> template" where
  "demo_template v c = \<lparr>pt_name = [112], pt_version = v, pt_content = c, pt_metadata = [],
     pt_created_at = Some demo_now, pt_cacheable = False, pt_cache_boundary = PNone\<rparr>"

lemma demo_make: "make_template [112] v [120] [] (Some demo_now) False PNone = Inr (demo_template v [120])"
  by (simp add: make_template_def utf8_len_def utf8_encode_def utf8_char_def is_surrogate_def
      max_prompt_content_bytes_def demo_template_def)

lemma demo_put:
  "ps_put demo_now [112] [120] None False PNone [([112], [(1, demo_template 1 [])])] =
     (Inr (demo_template 2 [120]), [([112], [(1, demo_template 1 []), (2, demo_template 2 [120])])])"
  by (simp add: ps_put_def dict_setdefault_def versions_of_def dict_get_or_def max_or_0_def demo_make Let_def)

lemma prompt_put_effect_witness:
  "ps_get [112] None [([112], [(1, demo_template 1 []), (2, demo_template 2 [120])])] = Some (demo_template 2 [120])"
  using prompt_put_effect [of demo_now "[112]" "[120]" None False PNone "[([112], [(1, demo_template 1 [])])]"]
  by (simp add: demo_put)

text \<open>prompts survive a restart. After a put or a delete that returned, a store created anew
  over the same blob answers every get and every version list like the one that wrote it.\<close>

lemma prompts_restart:
  assumes "keeps_last bl" and "persisted_prompts_ok p" and "datetime_ok now"
    and "pp_put bl now name c m b cb p = (Inr t, p') \<or> pp_delete bl name v p = (Inr (), p')"
  shows "\<exists>p''. pp_create bl (pp_blob p') = (Inr p'', pp_blob p') \<and>
    (\<forall>n v. pp_get n v p'' = pp_get n v p') \<and> (\<forall>n. pp_list_versions n p'' = pp_list_versions n p')"
proof -
  have ok: "prompts_ok (pp_delegate p')"
    using assms(2-4) persisted_prompts.put_inv persisted_prompts.delete_inv
    by (auto simp: persisted_prompts_ok_def)
  have "bl_set bl (prompt_snapshot (pp_delegate p')) (pp_blob p) = (Inr (), pp_blob p')"
    using assms(4) pp_put_Inr(2) pp_delete_Inr by blast
  with assms(1) have "bl_get bl (pp_blob p') = (Inr (Some (prompt_snapshot (pp_delegate p'))), pp_blob p')"
    by (simp add: keeps_last_def)
  with restore_prompts [OF ok]
  have "pp_create bl (pp_blob p') =
      (Inr \<lparr>pp_blob = pp_blob p', pp_delegate = filter (\<lambda>(name, vs). vs \<noteq> []) (pp_delegate p')\<rparr>, pp_blob p')"
    by (simp add: pp_create_def)
  moreover have "dict_ok (pp_delegate p')" using ok by (simp add: prompts_ok_def)
  note versions_of_filter [OF this]
  ultimately show ?thesis
    by (simp add: pp_get_def pp_list_versions_def ps_list_versions_def ps_get_def)
qed

definition fresh_prompts :: "pydict option persisted_prompts" where
  "fresh_prompts = \<lparr>pp_blob = None, pp_delegate = []\<rparr>"

lemma demo_datetime_ok: "datetime_ok demo_now"
  by (simp add: datetime_ok_def demo_now_def days_in_month_def day_us_def)

lemma prompts_restart_witness:
  "\<exists>p''. pp_create dict_blob (pp_blob (snd (pp_delete dict_blob [112] None fresh_prompts))) =
     (Inr p'', pp_blob (snd (pp_delete dict_blob [112] None fresh_prompts)))"
proof -
  have k: "keeps_last dict_blob" by (simp add: keeps_last_def dict_blob_def)
  have p: "persisted_prompts_ok fresh_prompts" by (simp add: persisted_prompts_ok_def fresh_prompts_def)
  have "pp_delete dict_blob [112] None fresh_prompts = (Inr (), snd (pp_delete dict_blob [112] None fresh_prompts))"
    by (simp add: pp_delete_def pp_persist_def dict_blob_def)
  then have "pp_put dict_blob demo_now [112] [] None False PNone fresh_prompts =
        (Inr (demo_template 1 []), snd (pp_delete dict_blob [112] None fresh_prompts)) \<or>
      pp_delete dict_blob [112] None fresh_prompts = (Inr (), snd (pp_delete dict_blob [112] None fresh_prompts))"
    by blast
  from prompts_restart [OF k p demo_datetime_ok this] show ?thesis by blast
qed

text \<open>a refused put is visible. A put under a new name that raises (here: a content over the
  ceiling, in UTF-8 bytes) leaves the name in the list of names, without any version.\<close>

lemma refused_put_lists_name:
  assumes "dict_get st name = None" and "utf8_len content = Inr n" and "max_prompt_content_bytes < int n"
  shows "\<exists>e st'. ps_put now name content metadata cacheable boundary st = (Inl e, st') \<and>
    exc_isa (Prompt_exc PromptTooLargeError) e \<and>
    name \<notin> set (ps_list_names st) \<and> name \<in> set (ps_list_names st') \<and> ps_list_versions name st' = []"
proof -
  have new: "name \<notin> set (dict_keys st)" using assms(1) by (simp add: dict_get_None_iff)
  have "put_error (raised (Prompt_exc PromptTooLargeError) vs) = raised (Prompt_exc PromptTooLargeError) vs" for vs
    by (simp add: put_error_def exc_simps)
  then have "ps_put now name content metadata cacheable boundary st =
      (Inl (raised (Prompt_exc PromptTooLargeError) [PStr name, PInt (int n)]), dict_setdefault name [] st)"
    using assms by (simp add: ps_put_def make_template_def)
  moreover have "versions_of (dict_setdefault name [] st) name = []"
    using assms(1) by (simp only: versions_of_setdefault) (simp add: versions_of_def dict_get_or_def)
  ultimately show ?thesis
    using new
    by (auto simp: ps_list_names_def ps_list_versions_def exc_simps keys_dict_setdefault [simplified])
qed

lemma utf8_len_replicate: "utf8_len (replicate n 120) = Inr n"
  by (simp add: utf8_len_def utf8_encode_def is_surrogate_def utf8_char_def)

lemma refused_put_lists_name_witness:
  "\<exists>e st'. ps_put demo_now [112] (replicate 262145 120) None False PNone [] = (Inl e, st') \<and>
     [112] \<in> set (ps_list_names st')"
proof -
  have "dict_get ([] :: prompts) [112] = None" "max_prompt_content_bytes < int 262145"
    by (simp_all add: max_prompt_content_bytes_def)
  from refused_put_lists_name [OF this(1) utf8_len_replicate this(2)] show ?thesis by blast
qed

end
