(* ===== verification/PromptManager.thy ===== *)
theory PromptManager
  imports Observability PromptStore
begin

text \<open>
  \<^verbatim>\<open>src/fabrica/prompts/manager.py\<close>: the read cache over a prompt store, and loading a
  \<^verbatim>\<open>PROMPT.md\<close> file.

  The store is a record of its operations. \<^verbatim>\<open>yaml.safe_load\<close> and what \<^verbatim>\<open>read_text\<close> returns are
  parameters; a mapping of front matter has string keys. The lemmas on the cache are proved in
  the locales of the store's contract and hold for both stores by interpretation.
\<close>

record 's prompt_api =
  pa_put :: "pystr \<Rightarrow> pystr \<Rightarrow> pydict option \<Rightarrow> bool \<Rightarrow> pyval \<Rightarrow> 's \<Rightarrow> template result \<times> 's"
  pa_get :: "pystr \<Rightarrow> int option \<Rightarrow> 's \<Rightarrow> template option"
  pa_list_versions :: "pystr \<Rightarrow> 's \<Rightarrow> int list"
  pa_list_names :: "'s \<Rightarrow> pystr list"
  pa_delete :: "pystr \<Rightarrow> int option \<Rightarrow> 's \<Rightarrow> unit result \<times> 's"

definition in_memory_prompt_api :: "datetime \<Rightarrow> prompts prompt_api" where
  "in_memory_prompt_api now =
     \<lparr>pa_put = ps_put now, pa_get = ps_get, pa_list_versions = ps_list_versions,
      pa_list_names = ps_list_names, pa_delete = (\<lambda>n v st. (Inr (), ps_delete n v st))\<rparr>"

definition persisted_prompt_api :: "'b blob_store \<Rightarrow> datetime \<Rightarrow> 'b persisted_prompts prompt_api" where
  "persisted_prompt_api bl now =
     \<lparr>pa_put = pp_put bl now, pa_get = pp_get, pa_list_versions = pp_list_versions,
      pa_list_names = pp_list_names, pa_delete = pp_delete bl\<rparr>"

type_synonym cache = "(pystr \<times> int option, template) dict"

record 's prompt_manager =
  pg_store :: 's
  pg_cache :: cache

definition new_prompt_manager :: "'s \<Rightarrow> 's prompt_manager" where
  "new_prompt_manager s = \<lparr>pg_store = s, pg_cache = []\<rparr>"

section \<open>Operations\<close>

definition opt_int :: "int option \<Rightarrow> pyval" where
  "opt_int v = (case v of None \<Rightarrow> PNone | Some i \<Rightarrow> PInt i)"

text \<open>The lookup: whether it was a hit, the template, and the cache after it.\<close>

definition cached_lookup ::
    "'s prompt_api \<Rightarrow> pystr \<Rightarrow> int option \<Rightarrow> 's prompt_manager \<Rightarrow> template option \<times> 's prompt_manager" where
  "cached_lookup api name version g =
     (case dict_get (pg_cache g) (name, version) of
        Some t \<Rightarrow> (Some t, g)
      | None \<Rightarrow>
          (case pa_get api name version (pg_store g) of
             None \<Rightarrow> (None, g)
           | Some t \<Rightarrow> (Some t, g\<lparr>pg_cache := dict_set (name, version) t (pg_cache g)\<rparr>)))"

definition is_hit :: "pystr \<Rightarrow> int option \<Rightarrow> 's prompt_manager \<Rightarrow> bool" where
  "is_hit name version g \<longleftrightarrow> dict_get (pg_cache g) (name, version) \<noteq> None"

definition content_volume :: "template option \<Rightarrow> nat result" where
  "content_volume t = (case t of None \<Rightarrow> Inr 0 | Some t \<Rightarrow> utf8_len (pt_content t))"

definition pg_get ::
    "'s prompt_api \<Rightarrow> pystr \<Rightarrow> int option \<Rightarrow> ('s prompt_manager, template option) io" where
  "pg_get api name version =
     traced (u ''fabrica.prompt.get'') [] None
       [(u ''prompt_name'', PStr name), (u ''version'', opt_int version)]
       (\<lambda>sp.
          io_bind (io_lift (\<lambda>g. (Inr (is_hit name version g), g))) (\<lambda>hit.
          io_bind (io_attr sp (u ''cache_hit'') (PBool hit)) (\<lambda>_.
          io_bind (io_lift (\<lambda>g. case cached_lookup api name version g of (t, g') \<Rightarrow> (Inr t, g'))) (\<lambda>t.
          io_bind (io_lift (\<lambda>g. (content_volume t, g))) (\<lambda>n.
          io_bind (io_attr sp (u ''volume_bytes'') (PInt (int n))) (\<lambda>_. io_return t))))))"

text \<open>The store's put and what it does to the cache.\<close>

definition store_and_cache ::
    "'s prompt_api \<Rightarrow> pystr \<Rightarrow> pystr \<Rightarrow> pydict option \<Rightarrow> bool \<Rightarrow> pyval \<Rightarrow> 's prompt_manager
     \<Rightarrow> template result \<times> 's prompt_manager" where
  "store_and_cache api name content metadata cacheable boundary g =
     (case pa_put api name content metadata cacheable boundary (pg_store g) of
        (Inl e, s) \<Rightarrow> (Inl e, g\<lparr>pg_store := s\<rparr>)
      | (Inr t, s) \<Rightarrow>
          (Inr t, g\<lparr>pg_store := s,
                    pg_cache := dict_set (name, Some (pt_version t)) t (dict_pop (name, None) (pg_cache g))\<rparr>))"

definition pg_put ::
    "'s prompt_api \<Rightarrow> pystr \<Rightarrow> pystr \<Rightarrow> pydict option \<Rightarrow> bool \<Rightarrow> pyval \<Rightarrow> ('s prompt_manager, template) io" where
  "pg_put api name content metadata cacheable boundary =
     traced (u ''fabrica.prompt.put'') [] None [(u ''prompt_name'', PStr name)]
       (\<lambda>sp.
          io_bind (io_lift (store_and_cache api name content metadata cacheable boundary)) (\<lambda>t.
          io_bind (io_attr sp (u ''version'') (PInt (pt_version t))) (\<lambda>_.
          io_bind (io_lift (\<lambda>g. (utf8_len content, g))) (\<lambda>n.
          io_bind (io_attr sp (u ''volume_bytes'') (PInt (int n))) (\<lambda>_. io_return t)))))"

definition pg_list_versions :: "'s prompt_api \<Rightarrow> pystr \<Rightarrow> 's prompt_manager \<Rightarrow> int list" where
  "pg_list_versions api name g = pa_list_versions api name (pg_store g)"

definition pg_list_names :: "'s prompt_api \<Rightarrow> 's prompt_manager \<Rightarrow> pystr list" where
  "pg_list_names api g = pa_list_names api (pg_store g)"

definition pg_delete ::
    "'s prompt_api \<Rightarrow> pystr \<Rightarrow> int option \<Rightarrow> 's prompt_manager \<Rightarrow> unit result \<times> 's prompt_manager" where
  "pg_delete api name version g =
     (case pa_delete api name version (pg_store g) of
        (Inl e, s) \<Rightarrow> (Inl e, g\<lparr>pg_store := s\<rparr>)
      | (Inr _, s) \<Rightarrow>
          (Inr (), g\<lparr>pg_store := s, pg_cache := filter (\<lambda>(k, _). fst k \<noteq> name) (pg_cache g)\<rparr>))"

section \<open>Loading a file\<close>

record prompt_file =
  pf_name :: pystr
  pf_content :: pystr
  pf_cacheable :: bool
  pf_cache_boundary :: pyval
  pf_metadata :: pydict

definition parse_error :: exc where
  "parse_error = raised (Prompt_exc PromptParseError) []"

definition is_YAMLError :: "exc \<Rightarrow> bool" where
  "is_YAMLError e \<longleftrightarrow> exc_isa YAMLError e"

text \<open>Everything up to the calls of get and put. \<open>text\<close> is what reading the file gave.\<close>

definition parse_prompt_file :: "(pystr \<Rightarrow> pyval result) \<Rightarrow> pystr result \<Rightarrow> prompt_file result" where
  "parse_prompt_file yaml_load raw =
     (case raw of
        Inl e \<Rightarrow> Inl (if exc_isa OSError e then Exc (Prompt_exc PromptParseError) [] (Some e) else e)
      | Inr txt \<Rightarrow>
          (case frontmatter txt of
             None \<Rightarrow> Inl parse_error
           | Some (head, body) \<Rightarrow>
               (case yaml_load head of
                  Inl e \<Rightarrow> Inl (if is_YAMLError e then Exc (Prompt_exc PromptParseError) [] (Some e) else e)
                | Inr v \<Rightarrow>
                    (case (if py_truthy v then v else PDict []) of
                       PDict fm \<Rightarrow>
                         (case dict_get_or fm (u ''name'') PNone of
                            PStr name \<Rightarrow>
                              if name = [] then Inl parse_error
                              else Inr \<lparr>pf_name = name, pf_content = body,
                                pf_cacheable = py_truthy (dict_get_or fm (u ''cacheable'') (PBool False)),
                                pf_cache_boundary = dict_get_or fm (u ''cache_boundary'') PNone,
                                pf_metadata = filter (\<lambda>(k, v). k \<notin> {u ''name'', u ''cacheable'', u ''cache_boundary''}) fm\<rparr>
                          | _ \<Rightarrow> Inl parse_error)
                     | _ \<Rightarrow> Inl parse_error))))"

definition same_prompt :: "template \<Rightarrow> prompt_file \<Rightarrow> bool" where
  "same_prompt t f \<longleftrightarrow>
     pt_content t = pf_content f \<and> pt_cacheable t = pf_cacheable f \<and>
     py_eq (pt_cache_boundary t) (pf_cache_boundary f) \<and>
     py_eq (PDict (pt_metadata t)) (PDict (pf_metadata f))"

definition pg_load ::
    "'s prompt_api \<Rightarrow> (pystr \<Rightarrow> pyval result) \<Rightarrow> pystr result \<Rightarrow> ('s prompt_manager, template) io" where
  "pg_load api yaml_load raw =
     (case parse_prompt_file yaml_load raw of
        Inl e \<Rightarrow> io_raise e
      | Inr f \<Rightarrow>
          io_bind (pg_get api (pf_name f) None) (\<lambda>existing.
            case existing of
              Some t \<Rightarrow>
                if same_prompt t f then io_return t
                else pg_put api (pf_name f) (pf_content f) (Some (pf_metadata f)) (pf_cacheable f) (pf_cache_boundary f)
            | None \<Rightarrow>
                pg_put api (pf_name f) (pf_content f) (Some (pf_metadata f)) (pf_cacheable f) (pf_cache_boundary f)))"

section \<open>Outcomes without the tracing\<close>

lemma pg_get_outcome:
  assumes "pg_get api name version (t, g) = (res, (t', g'))"
  shows "g' = snd (cached_lookup api name version g)"
    and "res = rbind (content_volume (fst (cached_lookup api name version g)))
           (\<lambda>_. Inr (fst (cached_lookup api name version g)))"
proof -
  obtain x h where l: "cached_lookup api name version g = (x, h)" by (metis prod.exhaust)
  from traced_result [OF assms [unfolded pg_get_def]] l
  have "g' = h \<and> res = rbind (content_volume x) (\<lambda>_. Inr x)"
    by (cases "content_volume x") (auto simp: io_defs simp del: u_simps)
  with l show "g' = snd (cached_lookup api name version g)"
    and "res = rbind (content_volume (fst (cached_lookup api name version g)))
           (\<lambda>_. Inr (fst (cached_lookup api name version g)))"
    by simp_all
qed

lemma pg_put_outcome:
  assumes "pg_put api name content metadata cacheable boundary (t, g) = (res, (t', g'))"
  shows "g' = snd (store_and_cache api name content metadata cacheable boundary g)"
    and "res = rbind (fst (store_and_cache api name content metadata cacheable boundary g))
           (\<lambda>x. rbind (utf8_len content) (\<lambda>_. Inr x))"
proof -
  obtain r h where l: "store_and_cache api name content metadata cacheable boundary g = (r, h)"
    by (metis prod.exhaust)
  from traced_result [OF assms [unfolded pg_put_def]] l
  have "g' = h \<and> res = rbind r (\<lambda>x. rbind (utf8_len content) (\<lambda>_. Inr x))"
    by (cases r; cases "utf8_len content") (auto simp: io_defs simp del: u_simps)
  with l show "g' = snd (store_and_cache api name content metadata cacheable boundary g)"
    and "res = rbind (fst (store_and_cache api name content metadata cacheable boundary g))
           (\<lambda>x. rbind (utf8_len content) (\<lambda>_. Inr x))"
    by simp_all
qed

section \<open>Coherence of the cache\<close>

text \<open>\<open>coherent get g\<close>: what the cache holds is what the store would answer.\<close>

definition coherent :: "(pystr \<Rightarrow> int option \<Rightarrow> 's \<Rightarrow> template option) \<Rightarrow> 's prompt_manager \<Rightarrow> bool" where
  "coherent get g \<longleftrightarrow>
     (\<forall>n v t. dict_get (pg_cache g) (n, v) = Some t \<longrightarrow> get n v (pg_store g) = Some t)"

text \<open>A history is a list of operations with the time each is run at.\<close>

datatype prompt_op =
    Get pystr "int option"
  | Put pystr pystr "pydict option" bool pyval
  | Delete pystr "int option"

fun run_op :: "'s prompt_api \<Rightarrow> prompt_op \<Rightarrow> 's prompt_manager \<Rightarrow> template option result \<times> 's prompt_manager" where
  "run_op api (Get n v) g = (case cached_lookup api n v g of (t, g') \<Rightarrow> (Inr t, g'))"
| "run_op api (Put n c m b cb) g =
     (case store_and_cache api n c m b cb g of (r, g') \<Rightarrow> (map_sum id Some r, g'))"
| "run_op api (Delete n v) g =
     (case pg_delete api n v g of (r, g') \<Rightarrow> (map_sum id (\<lambda>_. None) r, g'))"

text \<open>The operations of the history, as long as each returns.\<close>

fun run_ops :: "(datetime \<Rightarrow> 's prompt_api) \<Rightarrow> (datetime \<times> prompt_op) list \<Rightarrow> 's prompt_manager
    \<Rightarrow> 's prompt_manager option" where
  "run_ops api [] g = Some g"
| "run_ops api ((now, op) # ops) g =
     (case run_op (api now) op g of
        (Inl _, _) \<Rightarrow> None
      | (Inr _, g') \<Rightarrow> run_ops api ops g')"

text \<open>All operations, the failing ones too.\<close>

definition run_all :: "(datetime \<Rightarrow> 's prompt_api) \<Rightarrow> (datetime \<times> prompt_op) list \<Rightarrow> 's prompt_manager
    \<Rightarrow> 's prompt_manager" where
  "run_all api ops g = fold (\<lambda>(now, op) g. snd (run_op (api now) op g)) ops g"

lemma map_of_filter_key:
  "dict_get (filter (\<lambda>(k, _). P k) d) k = (if P k then dict_get d k else None)"
  by (induction d) auto

context prompt_store
begin

definition serves :: "(datetime \<Rightarrow> 's prompt_api) \<Rightarrow> bool" where
  "serves api \<longleftrightarrow> (\<forall>now. pa_put (api now) = s_put now \<and> pa_get (api now) = s_get \<and> pa_delete (api now) = s_delete)"

lemma lookup_coherent:
  assumes "serves api" and "coherent s_get g"
  shows "fst (cached_lookup (api now) n v g) = s_get n v (pg_store g)"
    and "coherent s_get (snd (cached_lookup (api now) n v g))"
    and "pg_store (snd (cached_lookup (api now) n v g)) = pg_store g"
  using assms
  by (auto simp: cached_lookup_def coherent_def serves_def map_of_dict_set split: option.split)

lemma put_coherent:
  assumes "serves api" and "coherent s_get g" and "store_and_cache (api now) n c m b cb g = (Inr t, g')"
  shows "coherent s_get g'"
proof -
  from assms(1,3) obtain s where put: "s_put now n c m b cb (pg_store g) = (Inr t, s)"
    and g': "g' = g\<lparr>pg_store := s, pg_cache := dict_set (n, Some (pt_version t)) t (dict_pop (n, None) (pg_cache g))\<rparr>"
    by (auto simp: store_and_cache_def serves_def split: prod.splits sum.splits)
  have "s_get n' v s = Some x" if h: "dict_get (pg_cache g') (n', v) = Some x" for n' v x
  proof -
    consider "(n', v) = (n, Some (pt_version t))" "x = t"
      | "(n', v) \<noteq> (n, Some (pt_version t))" "(n', v) \<noteq> (n, None)" "dict_get (pg_cache g) (n', v) = Some x"
      using h by (auto simp: g' map_of_dict_set map_of_dict_pop split: if_splits)
    then show ?thesis
      using assms(2) put_get [OF put, of n' v] by cases (auto simp: coherent_def)
  qed
  then show ?thesis by (simp add: coherent_def g')
qed

lemma delete_coherent:
  assumes "serves api" and "coherent s_get g" and "pg_delete (api now) n v g = (Inr (), g')"
  shows "coherent s_get g'"
proof -
  from assms(1,3) obtain s where del: "s_delete n v (pg_store g) = (Inr (), s)"
    and g': "g' = g\<lparr>pg_store := s, pg_cache := filter (\<lambda>(k, _). fst k \<noteq> n) (pg_cache g)\<rparr>"
    by (auto simp: pg_delete_def serves_def split: prod.splits sum.splits)
  show ?thesis
    using assms(2) delete_other [OF del]
    by (auto simp: coherent_def g' map_of_filter_key split: if_splits)
qed

lemma op_coherent:
  assumes "serves api" and "coherent s_get g" and "run_op (api now) op g = (Inr x, g')"
  shows "coherent s_get g'"
proof (cases op)
  case (Get n v)
  then have "g' = snd (cached_lookup (api now) n v g)" using assms(3) by (auto split: prod.splits)
  then show ?thesis using lookup_coherent(2) [OF assms(1,2)] by simp
next
  case (Put n c m b cb)
  then obtain t where "store_and_cache (api now) n c m b cb g = (Inr t, g')"
    using assms(3) by (cases "fst (store_and_cache (api now) n c m b cb g)") (auto split: prod.splits)
  then show ?thesis by (rule put_coherent [OF assms(1,2)])
next
  case (Delete n v)
  then have "pg_delete (api now) n v g = (Inr (), g')"
    using assms(3) by (cases "fst (pg_delete (api now) n v g)") (auto split: prod.splits)
  then show ?thesis by (rule delete_coherent [OF assms(1,2)])
qed

lemma ops_coherent:
  assumes "serves api" and "coherent s_get g" and "run_ops api ops g = Some g'"
  shows "coherent s_get g'"
  using assms(2,3)
proof (induction ops arbitrary: g)
  case (Cons nop ops)
  obtain now op where nop: "nop = (now, op)" by (metis prod.exhaust)
  obtain r g1 where r: "run_op (api now) op g = (r, g1)" by (metis prod.exhaust)
  from Cons.prems(2) nop r obtain x where x: "r = Inr x" "run_ops api ops g1 = Some g'"
    by (cases r) auto
  from op_coherent [OF assms(1) Cons.prems(1)] r x(1) have "coherent s_get g1" by blast
  then show ?case using Cons.IH x(2) by blast
qed simp

end

context atomic_prompt_store
begin

text \<open>Over a store whose failing operations change nothing, coherence survives those too.\<close>

lemma run_op_coherent:
  assumes "serves api" and "coherent s_get g"
  shows "coherent s_get (snd (run_op (api now) op g))"
proof (cases "fst (run_op (api now) op g)")
  case (Inr x)
  then have "run_op (api now) op g = (Inr x, snd (run_op (api now) op g))" by (metis prod.collapse)
  then show ?thesis by (rule op_coherent [OF assms])
next
  case (Inl e)
  show ?thesis
  proof (cases op)
    case (Get n v)
    with Inl show ?thesis by (auto split: prod.splits)
  next
    case (Put n c m b cb)
    obtain r s where put: "s_put now n c m b cb (pg_store g) = (r, s)" by (metis prod.exhaust)
    with Inl Put assms(1) obtain e' where "r = Inl e'"
      by (cases r) (auto simp: store_and_cache_def serves_def)
    with put put_fails have "s_get n' v s = s_get n' v (pg_store g)" for n' v by blast
    with Inl Put assms put \<open>r = Inl e'\<close> show ?thesis
      by (auto simp: store_and_cache_def serves_def coherent_def)
  next
    case (Delete n v)
    obtain s where "s_delete n v (pg_store g) = (Inr (), s)" using delete_total by blast
    with Inl Delete assms(1) show ?thesis by (auto simp: pg_delete_def serves_def)
  qed
qed

lemma run_all_coherent:
  "serves api \<Longrightarrow> coherent s_get g \<Longrightarrow> coherent s_get (run_all api ops g)"
proof (induction ops arbitrary: g)
  case (Cons nop ops)
  then show ?case using run_op_coherent by (cases nop) (simp add: run_all_def)
qed (simp add: run_all_def)

end

lemma in_memory_serves: "in_memory_prompts.serves in_memory_prompt_api"
  by (simp add: in_memory_prompts.serves_def in_memory_prompt_api_def)

lemma persisted_serves: "persisted_prompts.serves bl (persisted_prompt_api bl)"
  by (simp add: persisted_prompts.serves_def persisted_prompt_api_def)

lemma new_manager_coherent: "coherent get (new_prompt_manager s)"
  by (simp add: coherent_def new_prompt_manager_def)

section \<open>Properties\<close>

text \<open>C27: over the in-memory store the cache is never stale: after any sequence of gets, puts and
  deletes, failing ones included, a get answers what the store answers.\<close>

theorem in_memory_cache_coherent:
  assumes "g = run_all in_memory_prompt_api ops (new_prompt_manager st)"
  shows "fst (cached_lookup (in_memory_prompt_api now) n v g) = ps_get n v (pg_store g)"
  unfolding assms
  by (rule in_memory_prompts.lookup_coherent(1) [OF in_memory_serves])
    (intro in_memory_prompts.run_all_coherent in_memory_serves new_manager_coherent)

lemma in_memory_cache_coherent_witness:
  "fst (cached_lookup (in_memory_prompt_api demo_now) [112] None
      (run_all in_memory_prompt_api [(demo_now, Get [112] None), (demo_now, Delete [112] None)]
        (new_prompt_manager [([112], [(1, demo_template 1 [])])]))) =
   ps_get [112] None (pg_store (run_all in_memory_prompt_api
      [(demo_now, Get [112] None), (demo_now, Delete [112] None)]
        (new_prompt_manager [([112], [(1, demo_template 1 [])])])))"
  by (rule in_memory_cache_coherent) (rule refl)

text \<open>over the persisted store the cache is right while every operation returns: after any
  sequence of them, a get answers what the store answers.\<close>

lemma persisted_cache_coherent:
  assumes "run_ops (persisted_prompt_api bl) ops (new_prompt_manager p) = Some g"
  shows "fst (cached_lookup (persisted_prompt_api bl now) n v g) = pp_get n v (pg_store g)"
  by (rule persisted_prompts.lookup_coherent(1) [OF persisted_serves])
    (rule persisted_prompts.ops_coherent [OF persisted_serves new_manager_coherent assms])

lemma persisted_cache_coherent_witness:
  "\<exists>g. run_ops (persisted_prompt_api dict_blob) [(demo_now, Delete [112] None)] (new_prompt_manager fresh_prompts) = Some g \<and>
     fst (cached_lookup (persisted_prompt_api dict_blob demo_now) [112] None g) = pp_get [112] None (pg_store g)"
proof -
  have "\<exists>g. run_ops (persisted_prompt_api dict_blob) [(demo_now, Delete [112] None)] (new_prompt_manager fresh_prompts) = Some g"
    by (simp add: persisted_prompt_api_def pg_delete_def pp_delete_def pp_persist_def dict_blob_def new_prompt_manager_def)
  with persisted_cache_coherent show ?thesis by blast
qed

text \<open>a put that fails to persist makes the cache stale. The store has the new version, the
  caller sees an exception, and the manager, which does not touch its cache on that path, goes on
  answering the old latest template.\<close>

lemma failed_put_stales_cache:
  assumes "ps_put now n c m b cb (pp_delegate (pg_store g)) = (Inr t, st)"
    and "bl_set bl (prompt_snapshot st) (pp_blob (pg_store g)) = (Inl e, b')"
    and "dict_get (pg_cache g) (n, None) = Some old"
  shows "\<exists>g'. store_and_cache (persisted_prompt_api bl now) n c m b cb g = (Inl e, g') \<and>
    fst (cached_lookup (persisted_prompt_api bl now) n None g') = Some old \<and>
    pp_get n None (pg_store g') = Some t"
proof -
  have "pp_put bl now n c m b cb (pg_store g) =
      (Inl e, (pg_store g)\<lparr>pp_delegate := st, pp_blob := b'\<rparr>)"
    using assms(1,2) by (simp add: pp_put_def pp_persist_def)
  then have "store_and_cache (persisted_prompt_api bl now) n c m b cb g =
      (Inl e, g\<lparr>pg_store := (pg_store g)\<lparr>pp_delegate := st, pp_blob := b'\<rparr>\<rparr>)"
    by (simp add: store_and_cache_def persisted_prompt_api_def)
  then show ?thesis
    using assms(3) in_memory_prompts.put_get [OF assms(1), of n None]
    by (simp add: cached_lookup_def pp_get_def)
qed

lemma failed_put_stales_cache_witness:
  "\<exists>g'. store_and_cache (persisted_prompt_api (dict_blob\<lparr>bl_set := \<lambda>v b. (Inl (raised OSError []), b)\<rparr>) demo_now)
      [112] [120] None False PNone
      \<lparr>pg_store = \<lparr>pp_blob = None, pp_delegate = [([112], [(1, demo_template 1 [])])]\<rparr>,
        pg_cache = [(([112], None), demo_template 1 [])]\<rparr> = (Inl (raised OSError []), g') \<and>
    pp_get [112] None (pg_store g') = Some (demo_template 2 [120])"
  using failed_put_stales_cache [of demo_now "[112]" "[120]" None False PNone
      "\<lparr>pg_store = \<lparr>pp_blob = None, pp_delegate = [([112], [(1, demo_template 1 [])])]\<rparr>,
        pg_cache = [(([112], None), demo_template 1 [])]\<rparr>" "demo_template 2 [120]"
      "[([112], [(1, demo_template 1 []), (2, demo_template 2 [120])])]"
      "dict_blob\<lparr>bl_set := \<lambda>v b. (Inl (raised OSError []), b)\<rparr>" "raised OSError []" None "demo_template 1 []"]
  by (auto simp: demo_put)

lemma pg_load_step:
  assumes "pg_load api yaml_load raw (tr, g) = (Inr t, (tr', g'))" and "parse_prompt_file yaml_load raw = Inr f"
  shows "(\<exists>n. cached_lookup api (pf_name f) None g = (Some t, g') \<and> same_prompt t f \<and> utf8_len (pt_content t) = Inr n) \<or>
    (\<exists>n. store_and_cache api (pf_name f) (pf_content f) (Some (pf_metadata f)) (pf_cacheable f) (pf_cache_boundary f)
       (snd (cached_lookup api (pf_name f) None g)) = (Inr t, g') \<and> utf8_len (pf_content f) = Inr n)"
proof -
  let ?put = "pg_put api (pf_name f) (pf_content f) (Some (pf_metadata f)) (pf_cacheable f) (pf_cache_boundary f)"
  obtain x tr1 g1 where get: "pg_get api (pf_name f) None (tr, g) = (x, (tr1, g1))" by (metis prod.exhaust)
  note getd = pg_get_outcome [OF get]
  have putd: "\<exists>n. store_and_cache api (pf_name f) (pf_content f) (Some (pf_metadata f)) (pf_cacheable f) (pf_cache_boundary f) g1
      = (Inr t, g') \<and> utf8_len (pf_content f) = Inr n" if "?put (tr1, g1) = (Inr t, (tr', g'))"
    using pg_put_outcome [OF that]
    by (auto simp: rbind_def prod_eq_iff split: sum.splits)
  from assms get obtain ex where ex: "x = Inr ex" by (cases x) (auto simp: pg_load_def io_defs)
  with getd(2) obtain n where n: "fst (cached_lookup api (pf_name f) None g) = ex" "content_volume ex = Inr n"
    by (auto simp: rbind_def split: sum.splits)
  show ?thesis
  proof (cases "\<exists>t'. ex = Some t' \<and> same_prompt t' f")
    case True
    with assms get ex n getd(1) show ?thesis
      by (auto simp: pg_load_def io_defs content_volume_def prod_eq_iff)
  next
    case False
    with assms get ex have "?put (tr1, g1) = (Inr t, (tr', g'))"
      by (cases ex) (auto simp: pg_load_def io_defs)
    from putd [OF this] getd(1) show ?thesis by auto
  qed
qed

lemma pg_load_same:
  assumes "parse_prompt_file yaml_load raw = Inr f" and "fst (cached_lookup api (pf_name f) None g) = Some t"
    and "same_prompt t f" and "utf8_len (pt_content t) = Inr n"
  shows "\<exists>tr'. pg_load api yaml_load raw (tr, g) = (Inr t, (tr', snd (cached_lookup api (pf_name f) None g)))"
proof -
  obtain x tr1 g1 where get: "pg_get api (pf_name f) None (tr, g) = (x, (tr1, g1))" by (metis prod.exhaust)
  from pg_get_outcome [OF get] assms(2,4)
  have "x = Inr (Some t)" "g1 = snd (cached_lookup api (pf_name f) None g)"
    by (simp_all add: content_volume_def)
  with assms get show ?thesis by (auto simp: pg_load_def io_defs)
qed

text \<open>loading an unchanged file again does nothing. After a load that returned a template, a
  second load of the same text returns the same template and puts nothing into the store.\<close>

lemma load_idempotent:
  assumes "coherent ps_get g"
    and "pg_load (in_memory_prompt_api now) yaml_load raw (tr, g) = (Inr t, (tr', g'))"
  shows "\<exists>tr2 g2. pg_load (in_memory_prompt_api now') yaml_load raw (tr', g') = (Inr t, (tr2, g2)) \<and>
    pg_store g2 = pg_store g'"
proof -
  let ?api = in_memory_prompt_api
  from assms(2) obtain f where f: "parse_prompt_file yaml_load raw = Inr f"
    by (cases "parse_prompt_file yaml_load raw") (auto simp: pg_load_def io_defs)
  note look = in_memory_prompts.lookup_coherent [OF in_memory_serves]
  have "coherent ps_get g' \<and> ps_get (pf_name f) None (pg_store g') = Some t \<and> same_prompt t f \<and>
      (\<exists>n. utf8_len (pt_content t) = Inr n)"
    using pg_load_step [OF assms(2) f]
  proof (elim disjE exE conjE)
    fix n
    assume "cached_lookup (?api now) (pf_name f) None g = (Some t, g')" "same_prompt t f" "utf8_len (pt_content t) = Inr n"
    then show ?thesis using look [OF assms(1), of now "pf_name f" None] by simp
  next
    fix n
    let ?g = "snd (cached_lookup (?api now) (pf_name f) None g)"
    assume put: "store_and_cache (?api now) (pf_name f) (pf_content f) (Some (pf_metadata f)) (pf_cacheable f)
        (pf_cache_boundary f) ?g = (Inr t, g')" and n: "utf8_len (pf_content f) = Inr n"
    have "coherent ps_get g'"
      by (rule in_memory_prompts.put_coherent [OF in_memory_serves look(2) [OF assms(1)] put])
    moreover from put have ps: "ps_put now (pf_name f) (pf_content f) (Some (pf_metadata f)) (pf_cacheable f)
        (pf_cache_boundary f) (pg_store ?g) = (Inr t, pg_store g')"
      by (auto simp: store_and_cache_def in_memory_prompt_api_def split: prod.splits sum.splits)
    ultimately show ?thesis
      using in_memory_prompts.put_get [OF ps, of "pf_name f" None] make_template_fields [OF ps_put_Inr(3) [OF ps]] n
      by (simp add: same_prompt_def)
  qed
  then obtain n where g': "coherent ps_get g'" "ps_get (pf_name f) None (pg_store g') = Some t" "same_prompt t f"
    "utf8_len (pt_content t) = Inr n" by blast
  from look [OF g'(1), of now' "pf_name f" None] g'(2)
  have l: "fst (cached_lookup (?api now') (pf_name f) None g') = Some t"
    "pg_store (snd (cached_lookup (?api now') (pf_name f) None g')) = pg_store g'" by simp_all
  from pg_load_same [OF f l(1) g'(3,4), of tr'] l(2) show ?thesis by blast
qed

definition demo_yaml :: "pystr \<Rightarrow> pyval result" where
  "demo_yaml s = Inr (PDict [(u ''name'', PStr [112])])"

definition demo_raw :: "pystr result" where
  "demo_raw = Inr [45, 45, 45, 10, 97, 10, 45, 45, 45, 10, 120]"

lemma demo_parse:
  "parse_prompt_file demo_yaml demo_raw =
     Inr \<lparr>pf_name = [112], pf_content = [120], pf_cacheable = False, pf_cache_boundary = PNone, pf_metadata = []\<rparr>"
  by (simp add: parse_prompt_file_def demo_raw_def demo_yaml_def demo_frontmatter dict_get_or_def)

lemma load_idempotent_witness:
  "\<exists>t tr g tr2 g2. pg_load (in_memory_prompt_api demo_now) demo_yaml demo_raw (tr, g) = (Inr t, (tr2, g2)) \<and>
     pg_store g2 = pg_store g"
proof -
  let ?g = "new_prompt_manager [([112], [(1, demo_template 1 [120])])]"
  have "fst (cached_lookup (in_memory_prompt_api demo_now) [112] None ?g) = Some (demo_template 1 [120])"
    by (simp add: cached_lookup_def new_prompt_manager_def in_memory_prompt_api_def ps_get_def versions_of_def
        dict_get_or_def max_or_0_def)
  moreover have "utf8_len (pt_content (demo_template 1 [120])) = Inr 1"
    by (simp add: demo_template_def utf8_len_def utf8_encode_def utf8_char_def is_surrogate_def)
  ultimately obtain tr' where "pg_load (in_memory_prompt_api demo_now) demo_yaml demo_raw (null_tracer, ?g) =
      (Inr (demo_template 1 [120]), (tr', snd (cached_lookup (in_memory_prompt_api demo_now) [112] None ?g)))"
    using pg_load_same [OF demo_parse, of "in_memory_prompt_api demo_now" ?g "demo_template 1 [120]" 1 null_tracer]
    by (auto simp: same_prompt_def demo_template_def)
  from load_idempotent [OF new_manager_coherent this, of demo_now] show ?thesis by blast
qed

end
