(* ===== verification/ShimRunner.thy ===== *)
theory ShimRunner
  imports GuestProtocol ScopeModel
begin

text \<open>
  The two backends that run the guest shim as a process: the guest's side (\<^verbatim>\<open>_guest_shim.py\<close>), the host's
  side (\<^verbatim>\<open>_shim_runner.py\<close>), the plain subprocess of Tier 0 (\<^verbatim>\<open>subprocess_backend.py\<close>), the one wrapped in
  \<^verbatim>\<open>srt\<close> of Tier 1 (\<^verbatim>\<open>srt_backend.py\<close>, \<^verbatim>\<open>network_policy.py\<close>) and the choice between the backends
  (\<^verbatim>\<open>dispatch.py\<close>).

  The host sees a child: it asks, exits with its two streams, or hangs, each after some time. Whatever a
  child sends is served; the shim's own child is one of them. The race between the serving task and the
  end of the process is decided by the times: \<open>cost\<close> says how long a tool call takes. The operating
  system is the parameter \<open>shim_env\<close>.
\<close>

section \<open>The guest\<close>

datatype child =
    Asks real pyval "pyval \<Rightarrow> child"
  | Exits real "nat list" "nat list"
  | Hangs

definition call_request :: "pystr \<Rightarrow> pydict \<Rightarrow> pyval" where
  "call_request tool params = PDict [(u ''tool'', PStr tool), (u ''params'', PDict params)]"

definition trailer :: "pystr option \<Rightarrow> nat \<Rightarrow> pyval" where
  "trailer msg n =
     PDict [(u ''success'', PBool (msg = None)),
            (u ''error_message'', (case msg of None \<Rightarrow> PNone | Some m \<Rightarrow> PStr m)),
            (u ''tool_call_count'', PInt (int n))]"

text \<open>\<^verbatim>\<open>main()\<close>: \<open>tb\<close> is the traceback the interpreter writes when the captured output cannot be encoded. A
  trailer holds no float.\<close>

primrec guest_shim :: "(exc \<Rightarrow> nat list) \<Rightarrow> prog \<Rightarrow> nat \<Rightarrow> child" where
  "guest_shim tb (Finish d out err msg) n =
     (case utf8_encode out of
        Inl e \<Rightarrow> Exits d [] (err @ tb e)
      | Inr bs \<Rightarrow> Exits d bs (err @ json_dumps (\<lambda>_. []) (trailer msg n) @ [10]))"
| "guest_shim tb (Abort d err) n = Exits d [] err"
| "guest_shim tb (CallTool d tool params k) n =
     Asks d (call_request tool params) (\<lambda>reply. guest_shim tb (k reply) (Suc n))"
| "guest_shim tb Forever n = Hangs"

section \<open>Serving a child\<close>

datatype served = Exited "nat list" "nat list" | Overran | ServeFailed exc

text \<open>\<^verbatim>\<open>request["tool"]\<close>, \<^verbatim>\<open>request["params"]\<close>; a tool or parameters of other types are refused here with a
  \<^verbatim>\<open>TypeError\<close>, where the callbacks of the managers would answer or raise.\<close>

definition subscript :: "pyval \<Rightarrow> pystr \<Rightarrow> pyval result" where
  "subscript v k =
     (case v of
        PDict d \<Rightarrow> (case dict_get d k of None \<Rightarrow> Inl (raised KeyError [PStr k]) | Some x \<Rightarrow> Inr x)
      | _ \<Rightarrow> Inl (raised TypeError []))"

definition read_request :: "pyval \<Rightarrow> (pystr \<times> pydict) result" where
  "read_request req =
     rbind (subscript req (u ''tool'')) (\<lambda>tool. rbind (subscript req (u ''params'')) (\<lambda>params.
       case (tool, params) of (PStr s, PDict d) \<Rightarrow> Inr (s, d) | _ \<Rightarrow> Inl (raised TypeError [])))"

definition tool_timeout :: exc where
  "tool_timeout = raised (Sandbox_exc SandboxToolCallTimeoutError) []"

text \<open>One call, with the time that is left: what it comes to and how long it took. A call that is cut off is
  taken to have had its whole effect; one with no time at all is never started.\<close>

definition serve_call ::
    "'t tool_callback \<Rightarrow> (pystr \<Rightarrow> pydict \<Rightarrow> 't \<Rightarrow> real) \<Rightarrow> real \<Rightarrow> real option \<Rightarrow> pystr \<Rightarrow> pydict \<Rightarrow> 't
     \<Rightarrow> (served + pydict \<times> real) \<times> 't" where
  "serve_call cb cost left limit tool params t =
     (case limit of
        None \<Rightarrow>
          (case cb tool params t of (r, t') \<Rightarrow>
             (if cost tool params t > left then Inl Overran
              else (case r of Inl e \<Rightarrow> Inl (ServeFailed e) | Inr reply \<Rightarrow> Inr (reply, cost tool params t)), t'))
      | Some l \<Rightarrow>
          if l \<le> 0 then (Inl (ServeFailed tool_timeout), t)
          else (case cb tool params t of (r, t') \<Rightarrow>
             (if min l (cost tool params t) > left then Inl Overran
              else if cost tool params t > l then Inl (ServeFailed tool_timeout)
              else (case r of
                      Inl e \<Rightarrow> Inl (ServeFailed (if exc_isa TimeoutError e then tool_timeout else e))
                    | Inr reply \<Rightarrow> Inr (reply, cost tool params t)), t')))"

primrec serve ::
    "child \<Rightarrow> 't tool_callback \<Rightarrow> (pystr \<Rightarrow> pydict \<Rightarrow> 't \<Rightarrow> real) \<Rightarrow> real \<Rightarrow> real option \<Rightarrow> 't \<Rightarrow> served \<times> 't" where
  "serve (Asks d req k) cb cost left limit t =
     (if d > left then (Overran, t)
      else (case read_request req of
              Inl e \<Rightarrow> (ServeFailed e, t)
            | Inr (tool, params) \<Rightarrow>
                (case serve_call cb cost (left - d) limit tool params t of
                   (Inl s, t') \<Rightarrow> (s, t')
                 | (Inr (reply, c), t') \<Rightarrow> serve (k (PDict reply)) cb cost (left - d - c) limit t')))"
| "serve (Exits d out err) cb cost left limit t = (if d > left then (Overran, t) else (Exited out err, t))"
| "serve Hangs cb cost left limit t = (Overran, t)"

section \<open>The result\<close>

definition parse_trailer :: "(pystr \<Rightarrow> pyval result) \<Rightarrow> nat list \<Rightarrow> pydict option result" where
  "parse_trailer loads stderr =
     (let lines = filter (\<lambda>l. \<not> blank l) (split_lines [] (utf8_decode stderr)) in
      if lines = [] then Inr None
      else (case loads (last lines) of
              Inl e \<Rightarrow> (if exc_isa JSONDecodeError e then Inr None else Inl e)
            | Inr v \<Rightarrow>
                Inr (case v of
                       PDict d \<Rightarrow>
                         (if list_all (\<lambda>k. dict_get d k \<noteq> None) [u ''success'', u ''error_message'', u ''tool_call_count'']
                          then Some d else None)
                     | _ \<Rightarrow> None)))"

definition limited_stdout :: "nat list \<Rightarrow> pystr \<times> bool" where
  "limited_stdout bs = (utf8_decode (slice_to max_stdout_bytes bs), int (length bs) > max_stdout_bytes)"

text \<open>The fields of the trailer are taken as they are; here the two of another type are read as their truth
  value and as none.\<close>

definition trailer_result :: "pydict \<Rightarrow> nat list \<Rightarrow> real \<Rightarrow> real \<Rightarrow> run_result" where
  "trailer_result d stdout cpu ms =
     \<lparr>rr_success = py_truthy (dict_get_or d (u ''success'') PNone),
      rr_stdout = fst (limited_stdout stdout), rr_stdout_truncated = snd (limited_stdout stdout),
      rr_error_message = (case dict_get_or d (u ''error_message'') PNone of PStr s \<Rightarrow> Some s | _ \<Rightarrow> None),
      rr_cpu_seconds = cpu, rr_duration_ms = ms,
      rr_tool_call_count = (case dict_get_or d (u ''tool_call_count'') PNone of PInt i \<Rightarrow> i | _ \<Rightarrow> 0)\<rparr>"

definition crashed :: exc where
  "crashed = raised (Sandbox_exc SandboxCrashedError) []"

definition run_timeout :: exc where
  "run_timeout = raised (Sandbox_exc SandboxTimeoutError) []"

definition served_result :: "(pystr \<Rightarrow> pyval result) \<Rightarrow> real \<Rightarrow> real \<Rightarrow> served \<Rightarrow> run_result result" where
  "served_result loads cpu ms s =
     (case s of
        Overran \<Rightarrow> Inl run_timeout
      | ServeFailed e \<Rightarrow> Inl e
      | Exited out err \<Rightarrow>
          (case parse_trailer loads err of
             Inl e \<Rightarrow> Inl e
           | Inr None \<Rightarrow> Inl crashed
           | Inr (Some d) \<Rightarrow> Inr (trailer_result d out cpu ms)))"

section \<open>The backends\<close>

record 'w shim_env =
  se_uuid8 :: "'w \<Rightarrow> pystr \<times> 'w"
  se_spawn :: "pystr list \<Rightarrow> 'w \<Rightarrow> (nat list \<Rightarrow> child) result \<times> 'w"
  se_unlink :: "pystr \<Rightarrow> 'w \<Rightarrow> unit result \<times> 'w"
  se_write_text :: "pystr \<Rightarrow> pystr \<Rightarrow> 'w \<Rightarrow> unit result \<times> 'w"
  se_rmtree :: "pystr \<Rightarrow> 'w \<Rightarrow> 'w"
  se_which :: "pystr \<Rightarrow> 'w \<Rightarrow> pystr option"
  se_shim_exists :: "'w \<Rightarrow> bool"
  se_python :: pystr
  se_times :: "'w \<Rightarrow> real \<times> real"

definition shim_module :: pystr where "shim_module = u ''fabrica.sandbox._guest_shim''"

text \<open>\<^verbatim>\<open>run_shimmed_subprocess\<close>: the process is started on nothing yet, and is a child once it has its input. The code
  is encoded between the start and the \<^verbatim>\<open>try\<close>; from then on the socket file is removed, however the process ended.\<close>

definition run_shimmed ::
    "'w shim_env \<Rightarrow> (pystr \<Rightarrow> pyval result) \<Rightarrow> (pystr \<Rightarrow> pydict \<Rightarrow> 't \<Rightarrow> real) \<Rightarrow> pystr list \<Rightarrow> pystr \<Rightarrow> pystr
     \<Rightarrow> 't tool_callback \<Rightarrow> real \<Rightarrow> real option \<Rightarrow> 'w \<times> 't \<Rightarrow> run_result result \<times> ('w \<times> 't)" where
  "run_shimmed env loads cost wrapper ipc code cb tmo limit = (\<lambda>(w, t).
     case se_spawn env (wrapper @ [se_python env, u ''-m'', shim_module, u ''ipc://'' @ ipc]) w of
       (Inl e, w1) \<Rightarrow> (Inl e, (w1, t))
     | (Inr start, w1) \<Rightarrow>
         (case utf8_encode code of
            Inl e \<Rightarrow> (Inl e, (w1, t))
          | Inr bytes \<Rightarrow>
              (case serve (start bytes) cb cost tmo limit t of
                 (s, t') \<Rightarrow>
                   (case se_unlink env ipc w1 of
                      (Inl e, w2) \<Rightarrow> (Inl e, (w2, t'))
                    | (Inr _, w2) \<Rightarrow>
                        (case se_times env w2 of (cpu, ms) \<Rightarrow> (served_result loads cpu ms s, (w2, t')))))))"

definition sock_path :: "pystr \<Rightarrow> pystr \<Rightarrow> pystr" where
  "sock_path dir i = dir @ u ''/'' @ i @ u ''.sock''"

definition boot_tier :: "'w shim_env \<Rightarrow> nat \<Rightarrow> 'w \<Rightarrow> real \<times> (handle result \<times> 'w)" where
  "boot_tier env tier w = (case se_uuid8 env w of (i, w') \<Rightarrow> (0, (Inr \<lparr>h_id = i, h_tier = tier\<rparr>, w')))"

definition subprocess_sandbox ::
    "'w shim_env \<Rightarrow> (pystr \<Rightarrow> pyval result) \<Rightarrow> (pystr \<Rightarrow> pydict \<Rightarrow> 't \<Rightarrow> real) \<Rightarrow> pystr \<Rightarrow> ('w, 't) sandbox" where
  "subprocess_sandbox env loads cost dir =
     \<lparr>sb_tier = 0,
      sb_boot_clean = boot_tier env 0,
      sb_execute = \<lambda>h code cb tmo limit. run_shimmed env loads cost [] (sock_path dir (h_id h)) code cb tmo limit,
      sb_terminate = \<lambda>h. se_unlink env (sock_path dir (h_id h)),
      sb_health_check = \<lambda>w. (Inr (se_shim_exists env w), w),
      sb_close = \<lambda>w. (Inr (), w)\<rparr>"

section \<open>The network policy and Tier 1\<close>

text \<open>A policy is the set of its domains, as a list without order or repetition; \<^verbatim>\<open>str.strip\<close> is \<open>strip\<close>.\<close>

definition strip :: "pystr \<Rightarrow> pystr" where
  "strip s = rev (dropWhile is_space (rev (dropWhile is_space s)))"

record network_policy =
  np_allowed_domains :: "pystr list"

definition no_network :: network_policy where "no_network = \<lparr>np_allowed_domains = []\<rparr>"

definition from_scope_hosts :: "pystr list \<Rightarrow> network_policy" where
  "from_scope_hosts hosts = \<lparr>np_allowed_domains = remdups (map strip (filter (\<lambda>h. strip h \<noteq> []) hosts))\<rparr>"

definition np_is_empty :: "network_policy \<Rightarrow> bool" where
  "np_is_empty p \<longleftrightarrow> length (np_allowed_domains p) = 0"

definition srt_network_config :: "network_policy \<Rightarrow> pystr option \<Rightarrow> bool \<Rightarrow> pydict" where
  "srt_network_config p unix_socket all_unix_sockets =
     [(u ''allowedDomains'', PList (map PStr (sort (np_allowed_domains p)))), (u ''deniedDomains'', PList []),
      (u ''strictAllowlist'', PBool True)]
     @ (case unix_socket of None \<Rightarrow> [] | Some s \<Rightarrow> [(u ''allowUnixSockets'', PList [PStr s])])
     @ (if all_unix_sockets then [(u ''allowAllUnixSockets'', PBool True)] else [])"

record srt_config =
  sr_policy :: network_policy
  sr_deny_read :: "pystr list"
  sr_all_unix_sockets :: bool
  sr_socket_dir :: pystr
  sr_write_allow :: pystr

definition new_srt_config ::
    "network_policy \<Rightarrow> pystr list option \<Rightarrow> pystr option \<Rightarrow> bool \<Rightarrow> pystr \<Rightarrow> srt_config" where
  "new_srt_config policy deny_read write_allow all_sockets uuid8 =
     (let dir = u ''/tmp/fabrica-srt-'' @ uuid8 in
      \<lparr>sr_policy = policy,
       sr_deny_read = (case deny_read of Some (p # ps) \<Rightarrow> p # ps | _ \<Rightarrow> [u ''~/.ssh'', u ''~/.aws'']),
       sr_all_unix_sockets = all_sockets, sr_socket_dir = dir,
       sr_write_allow = (case write_allow of Some (c # cs) \<Rightarrow> c # cs | _ \<Rightarrow> dir)\<rparr>)"

definition srt_build_settings :: "srt_config \<Rightarrow> pystr \<Rightarrow> pyval" where
  "srt_build_settings cfg ipc =
     PDict [(u ''filesystem'', PDict [(u ''denyRead'', PList (map PStr (sr_deny_read cfg))),
               (u ''allowWrite'', PList [PStr (sr_write_allow cfg)]), (u ''denyWrite'', PList [])]),
            (u ''network'', PDict (srt_network_config (sr_policy cfg) (Some ipc) (sr_all_unix_sockets cfg)))]"

definition settings_path :: "pystr \<Rightarrow> pystr \<Rightarrow> pystr" where
  "settings_path dir i = dir @ u ''/'' @ i @ u ''-settings.json''"

definition srt_execute ::
    "'w shim_env \<Rightarrow> (pystr \<Rightarrow> pyval result) \<Rightarrow> (pystr \<Rightarrow> pydict \<Rightarrow> 't \<Rightarrow> real) \<Rightarrow> srt_config \<Rightarrow> handle \<Rightarrow> pystr
     \<Rightarrow> 't tool_callback \<Rightarrow> real \<Rightarrow> real option \<Rightarrow> 'w \<times> 't \<Rightarrow> run_result result \<times> ('w \<times> 't)" where
  "srt_execute env loads cost cfg h code cb tmo limit = (\<lambda>(w, t).
     let ipc = sock_path (sr_socket_dir cfg) (h_id h); settings = settings_path (sr_socket_dir cfg) (h_id h) in
     case se_write_text env settings (json_dumps (\<lambda>_. []) (srt_build_settings cfg ipc)) w of
       (Inl e, w1) \<Rightarrow> (Inl e, (w1, t))
     | (Inr _, w1) \<Rightarrow>
         (case run_shimmed env loads cost [u ''srt'', u ''--settings'', settings, u ''--''] ipc code cb tmo limit (w1, t) of
            (r, (w2, t')) \<Rightarrow>
              (case se_unlink env settings w2 of
                 (Inl e, w3) \<Rightarrow> (Inl e, (w3, t'))
               | (Inr _, w3) \<Rightarrow> (r, (w3, t')))))"

definition srt_terminate :: "'w shim_env \<Rightarrow> srt_config \<Rightarrow> handle \<Rightarrow> 'w \<Rightarrow> unit result \<times> 'w" where
  "srt_terminate env cfg h w =
     (case se_unlink env (sock_path (sr_socket_dir cfg) (h_id h)) w of
        (Inl e, w1) \<Rightarrow> (Inl e, w1)
      | (Inr _, w1) \<Rightarrow> se_unlink env (settings_path (sr_socket_dir cfg) (h_id h)) w1)"

definition srt_binary_available :: "'w shim_env \<Rightarrow> 'w \<Rightarrow> bool" where
  "srt_binary_available env w \<longleftrightarrow> se_which env (u ''srt'') w \<noteq> None"

definition srt_sandbox ::
    "'w shim_env \<Rightarrow> (pystr \<Rightarrow> pyval result) \<Rightarrow> (pystr \<Rightarrow> pydict \<Rightarrow> 't \<Rightarrow> real) \<Rightarrow> srt_config \<Rightarrow> ('w, 't) sandbox" where
  "srt_sandbox env loads cost cfg =
     \<lparr>sb_tier = 1,
      sb_boot_clean = boot_tier env 1,
      sb_execute = srt_execute env loads cost cfg,
      sb_terminate = srt_terminate env cfg,
      sb_health_check = \<lambda>w. (Inr (srt_binary_available env w \<and> se_shim_exists env w), w),
      sb_close = \<lambda>w. (Inr (), se_rmtree env (sr_socket_dir cfg) w)\<rparr>"

section \<open>The choice of a backend\<close>

record host_facts =
  hf_system :: pystr
  hf_exists :: "pystr \<Rightarrow> bool"
  hf_environ :: "pystr \<Rightarrow> pystr option"
  hf_srt :: bool

datatype backend_choice =
    Firecracker pystr pystr pystr
  | Srt network_policy
  | Subprocess

definition fc_env :: "host_facts \<Rightarrow> string \<Rightarrow> pystr" where
  "fc_env hf k = (case hf_environ hf (u k) of None \<Rightarrow> [] | Some v \<Rightarrow> v)"

definition firecracker_available :: "host_facts \<Rightarrow> bool" where
  "firecracker_available hf \<longleftrightarrow>
     hf_system hf = u ''Linux'' \<and> hf_exists hf (u ''/dev/kvm'') \<and>
     fc_env hf ''FABRICA_FC_BINARY'' \<noteq> [] \<and> fc_env hf ''FABRICA_FC_KERNEL'' \<noteq> [] \<and> fc_env hf ''FABRICA_FC_ROOTFS'' \<noteq> [] \<and>
     hf_exists hf (fc_env hf ''FABRICA_FC_KERNEL'') \<and> hf_exists hf (fc_env hf ''FABRICA_FC_ROOTFS'')"

definition select_sandbox_backend :: "host_facts \<Rightarrow> network_policy option \<Rightarrow> backend_choice" where
  "select_sandbox_backend hf policy =
     (if firecracker_available hf then
        Firecracker (fc_env hf ''FABRICA_FC_BINARY'') (fc_env hf ''FABRICA_FC_KERNEL'') (fc_env hf ''FABRICA_FC_ROOTFS'')
      else if hf_srt hf then Srt (case policy of None \<Rightarrow> no_network | Some p \<Rightarrow> p)
      else Subprocess)"

fun choice_tier :: "backend_choice \<Rightarrow> nat" where
  "choice_tier (Firecracker b k r) = 2"
| "choice_tier (Srt p) = 1"
| "choice_tier Subprocess = 0"

section \<open>The end of a run\<close>

text \<open>The program keeps within the time: no step, call or answer exceeds what is left.\<close>

primrec in_time ::
    "prog \<Rightarrow> 't tool_callback \<Rightarrow> (pystr \<Rightarrow> pydict \<Rightarrow> 't \<Rightarrow> real) \<Rightarrow> real \<Rightarrow> real option \<Rightarrow> 't \<Rightarrow> bool" where
  "in_time (Finish d out err msg) cb cost left limit t \<longleftrightarrow> d \<le> left"
| "in_time (Abort d err) cb cost left limit t \<longleftrightarrow> d \<le> left"
| "in_time Forever cb cost left limit t \<longleftrightarrow> False"
| "in_time (CallTool d tool params k) cb cost left limit t \<longleftrightarrow>
     d \<le> left \<and> cost tool params t \<le> left - d \<and>
     (case limit of None \<Rightarrow> True | Some l \<Rightarrow> 0 < l \<and> cost tool params t \<le> l) \<and>
     (case cb tool params t of
        (Inl e, t') \<Rightarrow> True
      | (Inr reply, t') \<Rightarrow> in_time (k (PDict reply)) cb cost (left - d - cost tool params t) limit t')"

text \<open>What a program leaves on its error stream when it finishes.\<close>

primrec prog_stderr :: "prog \<Rightarrow> 't tool_callback \<Rightarrow> 't \<Rightarrow> nat list" where
  "prog_stderr (Finish d out err msg) cb t = err"
| "prog_stderr (Abort d err) cb t = err"
| "prog_stderr Forever cb t = []"
| "prog_stderr (CallTool d tool params k) cb t =
     (case cb tool params t of (Inl e, t') \<Rightarrow> [] | (Inr reply, t') \<Rightarrow> prog_stderr (k (PDict reply)) cb t')"

lemma read_call_request: "read_request (call_request tool params) = Inr (tool, params)"
  by (simp add: read_request_def call_request_def subscript_def)

lemma serve_call_in_time:
  assumes "cost tool params t \<le> left" "case limit of None \<Rightarrow> True | Some l \<Rightarrow> 0 < l \<and> cost tool params t \<le> l"
    and "cb tool params t = (Inr reply, t')"
  shows "serve_call cb cost left limit tool params t = (Inr (reply, cost tool params t), t')"
  using assms by (auto simp: serve_call_def split: option.splits)

lemma serve_guest:
  assumes "run_prog p cb n t = (Ended out msg m, t')" "in_time p cb cost left limit t"
  shows "serve (guest_shim tb p n) cb cost left limit t =
    (case utf8_encode out of
       Inl e \<Rightarrow> Exited [] (prog_stderr p cb t @ tb e)
     | Inr bs \<Rightarrow> Exited bs (prog_stderr p cb t @ json_dumps (\<lambda>_. []) (trailer msg m) @ [10]), t')"
  using assms
proof (induction p arbitrary: n t left)
  case (Finish d out' err msg')
  then show ?case by (auto split: sum.splits)
next
  case (CallTool d tool params k)
  from CallTool.prems(1) obtain reply t1 where call: "cb tool params t = (Inr reply, t1)"
    and rest: "run_prog (k (PDict reply)) cb (Suc n) t1 = (Ended out msg m, t')"
    by (auto split: prod.splits sum.splits)
  from CallTool.prems(2) call have tm: "d \<le> left" "cost tool params t \<le> left - d"
    "case limit of None \<Rightarrow> True | Some l \<Rightarrow> 0 < l \<and> cost tool params t \<le> l"
    and rt: "in_time (k (PDict reply)) cb cost (left - d - cost tool params t) limit t1" by auto
  have pe: "prog_stderr (CallTool d tool params k) cb t = prog_stderr (k (PDict reply)) cb t1" using call by simp
  have "serve (guest_shim tb (CallTool d tool params k) n) cb cost left limit t =
      serve (guest_shim tb (k (PDict reply)) (Suc n)) cb cost (left - d - cost tool params t) limit t1"
    using tm(1) serve_call_in_time [of cost tool params t "left - d" limit cb reply t1] tm(2,3) call
    by (simp add: read_call_request)
  also have "\<dots> = (case utf8_encode out of
       Inl e \<Rightarrow> Exited [] (prog_stderr (k (PDict reply)) cb t1 @ tb e)
     | Inr bs \<Rightarrow> Exited bs (prog_stderr (k (PDict reply)) cb t1 @ json_dumps (\<lambda>_. []) (trailer msg m) @ [10]), t')"
    by (rule CallTool.IH [OF _ rest rt]) simp
  finally show ?case by (simp only: pe)
qed auto

lemma trailer_text: "plain (json_dumps (\<lambda>_. []) (trailer msg m))" "json_dumps (\<lambda>_. []) (trailer msg m) \<noteq> []"
  "\<not> blank (json_dumps (\<lambda>_. []) (trailer msg m))"
proof -
  show "plain (json_dumps (\<lambda>_. []) (trailer msg m))" by (rule json_dumps_plain) simp
  show "json_dumps (\<lambda>_. []) (trailer msg m) \<noteq> []" by (simp add: trailer_def)
  have "123 \<in> set (json_dumps (\<lambda>_. []) (trailer msg m))" by (simp add: trailer_def)
  then show "\<not> blank (json_dumps (\<lambda>_. []) (trailer msg m))"
    by (auto simp: blank_def list_all_iff is_space_def intro!: bexI [of _ 123])
qed

lemma parse_trailer_guest:
  assumes "unfinished [] (utf8_decode err) = []"
    and "loads (json_dumps (\<lambda>_. []) (trailer msg m)) = Inr (trailer msg m)"
  shows "\<exists>d. parse_trailer loads (err @ json_dumps (\<lambda>_. []) (trailer msg m) @ [10]) = Inr (Some d) \<and> trailer msg m = PDict d"
  using last_line [OF trailer_text, of err msg m] assms
  by (auto simp: parse_trailer_def Let_def trailer_def simp del: json_dumps.simps)

lemma parse_trailer_unfinished:
  assumes "exc_isa JSONDecodeError e"
    and "loads (rev (unfinished [] (utf8_decode err)) @ json_dumps (\<lambda>_. []) (trailer msg m)) = Inl e"
  shows "parse_trailer loads (err @ json_dumps (\<lambda>_. []) (trailer msg m) @ [10]) = Inr None"
  using last_line [OF trailer_text, of err msg m] assms
  by (auto simp: parse_trailer_def Let_def simp del: json_dumps.simps)

lemma utf8_decode_length: "length (utf8_decode bs) \<le> length bs"
proof (induction bs rule: utf8_decode.induct)
  case (2 b bs)
  show ?case
  proof (cases "b < 0x80")
    case True
    with 2 show ?thesis by (simp add: utf8_decode_ascii)
  next
    case False
    show ?thesis
    proof (cases "utf8_lead b")
      case None
      with 2 False show ?thesis by (simp add: utf8_decode.simps(2))
    next
      case (Some q)
      obtain n lo hi bits where q: "q = (n, lo, hi, bits)" by (cases q)
      have l: "utf8_lead b = Some (n, lo, hi, bits)" using Some q by simp
      from 2(3) [OF False l refl refl refl] utf8_conts_length [of n lo hi bits bs]
      have "length (utf8_decode (snd (utf8_conts n lo hi bits bs))) \<le> length bs" by linarith
      with False l show ?thesis by (simp add: utf8_decode.simps(2))
    qed
  qed
qed simp

lemma limited_short:
  assumes "utf8_encode out = Inr bs" "\<forall>c \<in> set out. c \<le> 0x10FFFF" "length bs \<le> 65536"
  shows "limited_stdout bs = (out, False)"
  using assms utf8_decode_encode [OF assms(1,2)] by (auto simp: limited_stdout_def slice_to_def max_stdout_bytes_def)

lemma limited_length: "int (length (fst (limited_stdout bs))) \<le> max_stdout_bytes"
proof -
  have "length (slice_to max_stdout_bytes bs) \<le> nat max_stdout_bytes"
    by (simp add: slice_to_def max_stdout_bytes_def)
  with utf8_decode_length [of "slice_to max_stdout_bytes bs"] show ?thesis
    by (simp add: limited_stdout_def max_stdout_bytes_def)
qed

text \<open>The result a program that ended should come to.\<close>

definition told :: "pystr \<Rightarrow> pystr option \<Rightarrow> nat \<Rightarrow> real \<times> real \<Rightarrow> run_result" where
  "told out msg n used =
     \<lparr>rr_success = (msg = None), rr_stdout = out, rr_stdout_truncated = False, rr_error_message = msg,
      rr_cpu_seconds = fst used, rr_duration_ms = snd used, rr_tool_call_count = int n\<rparr>"

lemma trailer_result_told:
  assumes "trailer msg n = PDict d" "limited_stdout bs = (out, False)"
  shows "trailer_result d bs cpu ms = told out msg n (cpu, ms)"
  using assms by (auto simp: trailer_def trailer_result_def told_def dict_get_or_def split: option.splits)

lemma served_result_told:
  assumes "utf8_encode out = Inr bs" "\<forall>c \<in> set out. c \<le> 0x10FFFF" "length bs \<le> 65536"
    and "unfinished [] (utf8_decode err) = []"
    and "loads (json_dumps (\<lambda>_. []) (trailer msg m)) = Inr (trailer msg m)"
  shows "served_result loads cpu ms (Exited bs (err @ json_dumps (\<lambda>_. []) (trailer msg m) @ [10])) = Inr (told out msg m (cpu, ms))"
proof -
  from parse_trailer_guest [where loads = loads and err = err and msg = msg and m = m] assms(4,5) obtain d
    where "parse_trailer loads (err @ json_dumps (\<lambda>_. []) (trailer msg m) @ [10]) = Inr (Some d)" and d: "trailer msg m = PDict d"
    by blast
  with trailer_result_told [OF d limited_short [OF assms(1-3)]] show ?thesis by (simp add: served_result_def)
qed

text \<open>The host's side of a run that was served, whatever the wrapper.\<close>

lemma run_shimmed_served:
  assumes "utf8_encode code = Inr bytes"
    and "se_spawn env (wrapper @ [se_python env, u ''-m'', shim_module, u ''ipc://'' @ ipc]) w = (Inr start, w1)" "start bytes = c"
    and "serve c cb cost tmo limit t = (s, t')" and "se_unlink env ipc w1 = (Inr x, w2)"
  shows "run_shimmed env loads cost wrapper ipc code cb tmo limit (w, t) =
    (served_result loads (fst (se_times env w2)) (snd (se_times env w2)) s, (w2, t'))"
  using assms by (simp add: run_shimmed_def split: prod.split)

lemma serve_guest_failed:
  assumes "serve (guest_shim tb p n) cb cost left limit t = (ServeFailed e, t')"
    and "\<forall>tool params t. \<exists>reply. fst (cb tool params t) = Inr reply"
  shows "e = tool_timeout"
  using assms(1)
proof (induction p arbitrary: n left t)
  case (CallTool d tool params k)
  obtain reply t1 where call: "cb tool params t = (Inr reply, t1)" using assms(2) by (metis prod.collapse)
  show ?case
  proof (cases "fst (serve_call cb cost (left - d) limit tool params t)")
    case (Inl s)
    with CallTool.prems call show ?thesis
      by (cases "left < d") (auto simp: read_call_request serve_call_def split: prod.splits option.splits if_splits)
  next
    case (Inr rc)
    then obtain c where "serve_call cb cost (left - d) limit tool params t = (Inr (reply, c), t1)"
      using call by (auto simp: serve_call_def split: option.splits if_splits)
    with CallTool.prems CallTool.IH [OF rangeI] show ?thesis by (auto simp: read_call_request split: if_splits)
  qed
qed (auto split: sum.splits if_splits)

lemma serve_unlimited:
  assumes "serve (guest_shim tb p n) cb cost left limit t = (ServeFailed e, t')"
    and "\<forall>tool params t. \<exists>reply. fst (cb tool params t) = Inr reply"
  shows "limit \<noteq> None"
  using assms(1)
proof (induction p arbitrary: n left t)
  case (CallTool d tool params k)
  obtain reply t1 where call: "cb tool params t = (Inr reply, t1)" using assms(2) by (metis prod.collapse)
  with CallTool.prems CallTool.IH [OF rangeI] show ?case
    by (cases limit) (auto simp: read_call_request serve_call_def split: if_splits)
qed (auto split: sum.splits if_splits)

lemma served_failures:
  assumes s: "serve (guest_shim tb p 0) cb cost tmo limit t = (s, t')"
    and tools: "\<forall>tool params t. \<exists>reply. fst (cb tool params t) = Inr reply"
    and json: "\<forall>s e. loads s = Inl e \<longrightarrow> exc_isa JSONDecodeError e"
  shows "case served_result loads cpu ms s of
      Inl e \<Rightarrow> e = run_timeout \<or> e = crashed \<or> limit \<noteq> None \<and> e = tool_timeout
    | Inr r \<Rightarrow> True"
proof -
  have failed: "e = tool_timeout \<and> limit \<noteq> None" if "s = ServeFailed e" for e
    using serve_guest_failed [OF _ tools] serve_unlimited [OF _ tools] s that by blast
  have "parse_trailer loads err \<noteq> Inl e" for err e
    using json by (auto simp: parse_trailer_def Let_def split: sum.split)
  then show ?thesis
    using failed by (auto simp: served_result_def split: served.split sum.splits option.split)
qed

section \<open>What a run comes to\<close>

text \<open>A world for the witnesses: the files there are; a program that calls one tool and prints.\<close>

definition demo_prog :: prog where
  "demo_prog = CallTool 1 (u ''add'') [] (\<lambda>reply. Finish 1 (u ''hi'') [] None)"

definition demo_shim_env :: "prog \<Rightarrow> pystr list shim_env" where
  "demo_shim_env p =
     \<lparr>se_uuid8 = \<lambda>w. (u ''0a1b2c3d'', w),
      se_spawn = \<lambda>argv w. (Inr (\<lambda>input. guest_shim (\<lambda>e. []) p 0), w),
      se_unlink = \<lambda>path w. (Inr (), removeAll path w),
      se_write_text = \<lambda>path s w. (Inr (), path # w),
      se_rmtree = \<lambda>path w. w, se_which = \<lambda>name w. None, se_shim_exists = \<lambda>w. True, se_python = u ''python'',
      se_times = \<lambda>w. (1, 2)\<rparr>"

definition demo_loads :: "pystr option \<Rightarrow> nat \<Rightarrow> pystr \<Rightarrow> pyval result" where
  "demo_loads msg n s =
     (if s = json_dumps (\<lambda>_. []) (trailer msg n) then Inr (trailer msg n) else Inl (raised JSONDecodeError []))"

definition demo_tools :: "nat tool_callback" where
  "demo_tools tool params t = (Inr [(u ''success'', PBool True)], Suc t)"

text \<open>C32: Tier 0 reports faithfully what a program did. If the process starts and runs the shim on the
  program, the program ends by itself within the time limits with its output and error (no exception:
  no error), its output fits the limit, the last line on its error stream is finished, and the trailer is
  read back as it was written, then \<^verbatim>\<open>execute()\<close> returns exactly that: success if and only if no exception
  ended the program, its text, its message and the number of tool calls it made, the tools having seen the
  calls of the program in order.\<close>

theorem tier0_faithful:
  assumes run: "run_prog p cb 0 t = (Ended out msg n, t')" "in_time p cb cost tmo limit t"
    and out: "utf8_encode out = Inr bs" "\<forall>c \<in> set out. c \<le> 0x10FFFF" "length bs \<le> 65536"
    and err: "unfinished [] (utf8_decode (prog_stderr p cb t)) = []"
    and json: "loads (json_dumps (\<lambda>_. []) (trailer msg n)) = Inr (trailer msg n)"
    and start: "utf8_encode code = Inr bytes"
      "se_spawn env [se_python env, u ''-m'', shim_module, u ''ipc://'' @ sock_path dir (h_id h)] w = (Inr started, wa)"
      "started bytes = guest_shim tb p 0"
    and unlink: "se_unlink env (sock_path dir (h_id h)) wa = (Inr x, wb)"
  shows "sb_execute (subprocess_sandbox env loads cost dir) h code cb tmo limit (w, t) =
    (Inr (told out msg n (se_times env wb)), (wb, t'))"
proof -
  have s: "serve (guest_shim tb p 0) cb cost tmo limit t =
      (Exited bs (prog_stderr p cb t @ json_dumps (\<lambda>_. []) (trailer msg n) @ [10]), t')"
    using serve_guest [OF run, of tb] out(1) by simp
  from run_shimmed_served [where wrapper = "[]" and start = started and loads = loads, OF start(1) _ start(3) s unlink] start(2)
    served_result_told [where loads = loads and err = "prog_stderr p cb t" and msg = msg and m = n] out err json
  show ?thesis by (simp add: subprocess_sandbox_def)
qed

theorem tier0_faithful_witness:
  "sb_execute (subprocess_sandbox (demo_shim_env demo_prog) (demo_loads None 1) (\<lambda>tool params t. 1) (u ''/tmp''))
     \<lparr>h_id = u ''a'', h_tier = 0\<rparr> (u ''x'') demo_tools 5 None ([], 0) =
    (Inr (told (u ''hi'') None 1 (1, 2)), ([], 1))"
  using tier0_faithful [where p = demo_prog and cb = demo_tools and t = 0 and out = "u ''hi''" and msg = None and n = 1
      and t' = 1 and cost = "\<lambda>tool params t. 1" and tmo = 5 and limit = None and bs = "u ''hi''"
      and loads = "demo_loads None 1" and code = "u ''x''" and bytes = "u ''x''" and env = "demo_shim_env demo_prog"
      and dir = "u ''/tmp''" and h = "\<lparr>h_id = u ''a'', h_tier = 0\<rparr>" and w = "[]" and tb = "\<lambda>e. []" and wa = "[]"
      and started = "\<lambda>input. guest_shim (\<lambda>e. []) demo_prog 0" and x = "()" and wb = "[]"]
  by (simp add: demo_prog_def demo_tools_def demo_loads_def demo_shim_env_def utf8_encode_def is_surrogate_def utf8_char_def)

text \<open>C18: text the program leaves on its error stream without a line break swallows the trailer: the shim
  writes its trailer behind it on the same line, the line is no JSON, and a run that ended well (no
  exception, all calls answered, in time) is reported as a crash of the sandbox. Every successful program
  becomes a failure by writing a word to \<^verbatim>\<open>sys.stderr\<close>.\<close>

theorem unfinished_stderr_crashes:
  assumes run: "run_prog p cb 0 t = (Ended out msg n, t')" "in_time p cb cost tmo limit t"
    and out: "utf8_encode out = Inr bs"
    and json: "exc_isa JSONDecodeError e"
      "loads (rev (unfinished [] (utf8_decode (prog_stderr p cb t))) @ json_dumps (\<lambda>_. []) (trailer msg n)) = Inl e"
    and start: "utf8_encode code = Inr bytes"
      "se_spawn env [se_python env, u ''-m'', shim_module, u ''ipc://'' @ sock_path dir (h_id h)] w = (Inr started, wa)"
      "started bytes = guest_shim tb p 0"
    and unlink: "se_unlink env (sock_path dir (h_id h)) wa = (Inr x, wb)"
  shows "sb_execute (subprocess_sandbox env loads cost dir) h code cb tmo limit (w, t) = (Inl crashed, (wb, t'))"
proof -
  have s: "serve (guest_shim tb p 0) cb cost tmo limit t =
      (Exited bs (prog_stderr p cb t @ json_dumps (\<lambda>_. []) (trailer msg n) @ [10]), t')"
    using serve_guest [OF run, of tb] out by simp
  from run_shimmed_served [where wrapper = "[]" and start = started and loads = loads, OF start(1) _ start(3) s unlink] start(2)
    parse_trailer_unfinished [where loads = loads and err = "prog_stderr p cb t" and msg = msg and m = n, OF json]
  show ?thesis by (simp add: subprocess_sandbox_def served_result_def)
qed

theorem unfinished_stderr_crashes_witness:
  "sb_execute (subprocess_sandbox (demo_shim_env (Finish 1 (u ''hi'') (u ''warned'') None)) (\<lambda>s. Inl (raised JSONDecodeError []))
      (\<lambda>tool params t. 1) (u ''/tmp'')) \<lparr>h_id = u ''a'', h_tier = 0\<rparr> (u ''x'') demo_tools 5 None ([], 0) =
    (Inl crashed, ([], 0))"
  using unfinished_stderr_crashes [where p = "Finish 1 (u ''hi'') (u ''warned'') None" and cb = demo_tools and t = 0
      and out = "u ''hi''" and msg = None and n = 0 and t' = 0 and cost = "\<lambda>tool params t. 1" and tmo = 5 and limit = None
      and bs = "u ''hi''" and loads = "\<lambda>s. Inl (raised JSONDecodeError [])" and e = "raised JSONDecodeError []"
      and code = "u ''x''" and bytes = "u ''x''" and env = "demo_shim_env (Finish 1 (u ''hi'') (u ''warned'') None)"
      and dir = "u ''/tmp''" and h = "\<lparr>h_id = u ''a'', h_tier = 0\<rparr>" and w = "[]" and tb = "\<lambda>e. []" and wa = "[]"
      and started = "\<lambda>input. guest_shim (\<lambda>e. []) (Finish 1 (u ''hi'') (u ''warned'') None) 0" and x = "()" and wb = "[]"]
  by (simp add: demo_tools_def demo_shim_env_def utf8_encode_def is_surrogate_def utf8_char_def exc_simps)

text \<open>how a run on the shim can fail. Once the process is started on a program and no tool call raises,
  the only failures are the three of the sandbox: the run exceeded its time, a tool call exceeded its own
  limit, or the process ended without a trailer. If JSON text that cannot be read is reported as such and the
  socket can be removed, nothing else leaves the run, whatever the program prints, writes or asks.\<close>

lemma shim_failures:
  assumes start: "utf8_encode code = Inr bytes"
      "se_spawn env (wrapper @ [se_python env, u ''-m'', shim_module, u ''ipc://'' @ ipc]) w = (Inr started, wa)"
      "started bytes = guest_shim tb p 0"
    and unlink: "se_unlink env ipc wa = (Inr x, wb)"
    and tools: "\<forall>tool params t. \<exists>reply. fst (cb tool params t) = Inr reply"
    and json: "\<forall>s e. loads s = Inl e \<longrightarrow> exc_isa JSONDecodeError e"
  shows "case fst (run_shimmed env loads cost wrapper ipc code cb tmo limit (w, t)) of
      Inl e \<Rightarrow> e = run_timeout \<or> e = crashed \<or> limit \<noteq> None \<and> e = tool_timeout
    | Inr r \<Rightarrow> True"
proof -
  obtain s t' where s: "serve (guest_shim tb p 0) cb cost tmo limit t = (s, t')" by (cases "serve (guest_shim tb p 0) cb cost tmo limit t")
  from run_shimmed_served [where loads = loads, OF start s unlink] served_failures [OF s tools json]
  show ?thesis by simp
qed

theorem shim_failures_witness:
  "case fst (run_shimmed (demo_shim_env Forever) (\<lambda>s. Inl (raised JSONDecodeError [])) (\<lambda>tool params t. 1) [] (u ''s'') (u ''x'')
      demo_tools 5 None ([], 0)) of
      Inl e \<Rightarrow> e = run_timeout \<or> e = crashed \<or> (None :: real option) \<noteq> None \<and> e = tool_timeout
    | Inr r \<Rightarrow> True"
  by (rule shim_failures [where bytes = "u ''x''" and wa = "[]" and x = "()" and wb = "[]" and tb = "\<lambda>e. []" and p = Forever
      and started = "\<lambda>input. guest_shim (\<lambda>e. []) Forever 0"])
     (auto simp: demo_tools_def demo_shim_env_def utf8_encode_def is_surrogate_def utf8_char_def exc_simps)

text \<open>no child, however much it writes, makes the host keep more than 64 Ki characters of its output,
  whatever backend runs it; and every error it causes is a value of the run.\<close>

lemma stdout_bounded:
  "case fst (run_shimmed env loads cost wrapper ipc code cb tmo limit wt) of
     Inl e \<Rightarrow> True
   | Inr r \<Rightarrow> int (length (rr_stdout r)) \<le> max_stdout_bytes"
  using limited_length
  by (auto simp: run_shimmed_def served_result_def trailer_result_def split: sum.splits prod.splits served.splits option.splits)

text \<open>the settings Tier 1 gives \<^verbatim>\<open>srt\<close> enforce the scope's hosts and nothing more. For a policy made from
  the scope's hosts, the allowed domains are exactly the hosts that are not blank, without the blanks around
  them, each once and in order; nothing is denied beside the strict allow list, the only socket named is the
  run's own, and what may be written is one directory; a scope without hosts allows no domain.\<close>

lemma srt_scope_network:
  "\<exists>net fsys ds.
     srt_build_settings (new_srt_config (from_scope_hosts hosts) deny allow False i) ipc =
       PDict [(u ''filesystem'', PDict fsys), (u ''network'', PDict net)] \<and>
     dict_get net (u ''allowedDomains'') = Some (PList (map PStr ds)) \<and>
     sorted ds \<and> distinct ds \<and> set ds = {strip h | h. h \<in> set hosts \<and> strip h \<noteq> []} \<and>
     dict_get net (u ''strictAllowlist'') = Some (PBool True) \<and>
     dict_get net (u ''deniedDomains'') = Some (PList []) \<and>
     dict_get net (u ''allowUnixSockets'') = Some (PList [PStr ipc]) \<and>
     dict_get net (u ''allowAllUnixSockets'') = None \<and>
     (\<exists>d. dict_get fsys (u ''allowWrite'') = Some (PList [PStr d]) \<and> d \<noteq> [])"
proof -
  let ?ds = "sort (np_allowed_domains (from_scope_hosts hosts))"
  have "set ?ds = {strip h | h. h \<in> set hosts \<and> strip h \<noteq> []}" "sorted ?ds" "distinct ?ds"
    by (auto simp: from_scope_hosts_def)
  then show ?thesis
    by (intro exI [of _ "srt_network_config (from_scope_hosts hosts) (Some ipc) False"]
        exI [of _ "[(u ''denyRead'', PList (map PStr (sr_deny_read (new_srt_config (from_scope_hosts hosts) deny allow False i)))),
          (u ''allowWrite'', PList [PStr (sr_write_allow (new_srt_config (from_scope_hosts hosts) deny allow False i))]),
          (u ''denyWrite'', PList [])]"] exI [of _ ?ds])
      (simp add: srt_build_settings_def srt_network_config_def new_srt_config_def Let_def split: option.split list.split)
qed

text \<open>A result without the times the host measured.\<close>

definition without_times :: "run_result result \<Rightarrow> run_result result" where
  "without_times r = map_sum id (\<lambda>x. x\<lparr>rr_cpu_seconds := 0, rr_duration_ms := 0\<rparr>) r"

lemma served_result_times:
  "without_times (served_result loads cpu ms s) = without_times (served_result loads cpu' ms' s)"
  by (auto simp: without_times_def served_result_def trailer_result_def split: served.split sum.split option.split)

text \<open>C24: Tier 1 does what Tier 0 does. If the process started is the same child in both (wrapped in \<^verbatim>\<open>srt\<close> in
  one), and the settings and sockets can be written and removed, the two backends give the same result, times
  aside, errors included; the tools see the same calls and end in the same state; and Tier 1 leaves the host as
  it is after its socket and its settings file were removed, whatever came of the run.\<close>

theorem tier1_agrees:
  assumes "utf8_encode code = Inr bytes"
    and "se_spawn env [se_python env, u ''-m'', shim_module, u ''ipc://'' @ sock_path dir (h_id h)] w = (Inr started, wa)"
    and "se_unlink env (sock_path dir (h_id h)) wa = (Inr x, wb)"
    and "ipc = sock_path (sr_socket_dir cfg) (h_id k)" "settings = settings_path (sr_socket_dir cfg) (h_id k)"
    and "se_write_text env settings (json_dumps (\<lambda>_. []) (srt_build_settings cfg ipc)) v = (Inr x', va)"
    and "se_spawn env ([u ''srt'', u ''--settings'', settings, u ''--''] @
          [se_python env, u ''-m'', shim_module, u ''ipc://'' @ ipc]) va = (Inr wrapped, vb)" "wrapped bytes = started bytes"
    and "se_unlink env ipc vb = (Inr y, vc)" "se_unlink env settings vc = (Inr y', vd)"
  shows "without_times (fst (sb_execute (subprocess_sandbox env loads cost dir) h code cb tmo limit (w, t))) =
      without_times (fst (sb_execute (srt_sandbox env loads cost cfg) k code cb tmo limit (v, t))) \<and>
    snd (snd (sb_execute (subprocess_sandbox env loads cost dir) h code cb tmo limit (w, t))) =
      snd (snd (sb_execute (srt_sandbox env loads cost cfg) k code cb tmo limit (v, t))) \<and>
    fst (snd (sb_execute (srt_sandbox env loads cost cfg) k code cb tmo limit (v, t))) = vd"
proof -
  obtain s t' where s: "serve (started bytes) cb cost tmo limit t = (s, t')" by (cases "serve (started bytes) cb cost tmo limit t")
  from run_shimmed_served [where wrapper = "[]" and start = started and loads = loads, OF assms(1) _ refl s assms(3)] assms(2)
  have "sb_execute (subprocess_sandbox env loads cost dir) h code cb tmo limit (w, t) =
      (served_result loads (fst (se_times env wb)) (snd (se_times env wb)) s, (wb, t'))"
    by (simp add: subprocess_sandbox_def)
  moreover from run_shimmed_served [where loads = loads, OF assms(1,7,8) s assms(9)] assms(4-6,10)
  have "sb_execute (srt_sandbox env loads cost cfg) k code cb tmo limit (v, t) =
      (served_result loads (fst (se_times env vc)) (snd (se_times env vc)) s, (vd, t'))"
    by (simp add: srt_sandbox_def srt_execute_def Let_def)
  ultimately show ?thesis using served_result_times by simp
qed

theorem tier1_agrees_witness:
  "fst (snd (sb_execute (srt_sandbox (demo_shim_env demo_prog) (demo_loads None 1) (\<lambda>tool params t. 1)
      (new_srt_config no_network None None False (u ''0'')))
      \<lparr>h_id = u ''a'', h_tier = 1\<rparr> (u ''x'') demo_tools 5 None ([], 0))) = []"
  using tier1_agrees [where code = "u ''x''" and bytes = "u ''x''" and env = "demo_shim_env demo_prog" and dir = "u ''/tmp''"
      and h = "\<lparr>h_id = u ''a'', h_tier = 0\<rparr>" and w = "[]" and started = "\<lambda>input. guest_shim (\<lambda>e. []) demo_prog 0"
      and wrapped = "\<lambda>input. guest_shim (\<lambda>e. []) demo_prog 0" and wa = "[]" and x = "()"
      and wb = "[]" and cfg = "new_srt_config no_network None None False (u ''0'')" and k = "\<lparr>h_id = u ''a'', h_tier = 1\<rparr>"
      and ipc = "sock_path (sr_socket_dir (new_srt_config no_network None None False (u ''0''))) (u ''a'')"
      and settings = "settings_path (sr_socket_dir (new_srt_config no_network None None False (u ''0''))) (u ''a'')"
      and x' = "()" and v = "[]" and va = "[settings_path (sr_socket_dir (new_srt_config no_network None None False (u ''0''))) (u ''a'')]"
      and vb = "[settings_path (sr_socket_dir (new_srt_config no_network None None False (u ''0''))) (u ''a'')]"
      and vc = "[settings_path (sr_socket_dir (new_srt_config no_network None None False (u ''0''))) (u ''a'')]" and y = "()"
      and y' = "()" and vd = "[]" and loads = "demo_loads None 1" and cost = "\<lambda>tool params t. 1" and cb = demo_tools
      and tmo = 5 and limit = None and t = 0]
  by (simp add: demo_shim_env_def utf8_encode_def is_surrogate_def utf8_char_def sock_path_def settings_path_def)

end
