(* ===== verification/McpServer.thy ===== *)
theory McpServer
  imports PromptManager ShimRunner
begin

text \<open>
  \<^verbatim>\<open>mcp/server.py\<close>: Fabrica as an MCP server, over the operations of an assembled Fabrica (\<open>facade\<close>, provided by
  the model's managers in the theory of the bridge). What the MCP library and the ASGI server do stays outside:
  the handlers are given the request they were called with and the access token of its connection.
\<close>

section \<open>The facade\<close>

text \<open>The operations the server calls, with what the caller may have put in their arguments as JSON values, and
  their results as \<^verbatim>\<open>dataclasses.asdict\<close> would show them.\<close>

record 's facade =
  fa_tier :: nat
  fa_find_tools :: "pyval \<Rightarrow> 's \<Rightarrow> pyval list result \<times> 's"
  fa_find_skills :: "pyval \<Rightarrow> 's \<Rightarrow> pyval list result \<times> 's"
  fa_run_code :: "pyval \<Rightarrow> pystr \<Rightarrow> scope \<Rightarrow> 's \<Rightarrow> pyval result \<times> 's"
  fa_run_skill :: "pyval \<Rightarrow> pyval \<Rightarrow> pystr \<Rightarrow> scope \<Rightarrow> 's \<Rightarrow> pyval result \<times> 's"
  fa_memory_write :: "scope \<Rightarrow> pyval \<Rightarrow> pyval \<Rightarrow> 's \<Rightarrow> pyval result \<times> 's"
  fa_memory_search :: "scope \<Rightarrow> pyval \<Rightarrow> pyval \<Rightarrow> 's \<Rightarrow> pyval list result \<times> 's"
  fa_prompt_names :: "'s \<Rightarrow> pystr list result \<times> 's"
  fa_prompt_get :: "pystr \<Rightarrow> int option \<Rightarrow> 's \<Rightarrow> template option result \<times> 's"

section \<open>The server\<close>

record transport_config =
  tc_http :: bool
  tc_host :: "pystr option"
  tc_port :: "int option"
  tc_authenticator :: "(pystr \<Rightarrow> pystr option result) option"
  tc_stdio_agent_id :: pystr

definition default_stdio_agent_id :: pystr where "default_stdio_agent_id = u ''mcp-stdio-client''"

definition make_transport ::
    "bool \<Rightarrow> pystr option \<Rightarrow> int option \<Rightarrow> (pystr \<Rightarrow> pystr option result) option \<Rightarrow> pystr \<Rightarrow> transport_config result" where
  "make_transport http host port auth agent =
     (if http \<and> (host = None \<or> port = None \<or> auth = None) then Inl (raised ValueError [])
      else Inr \<lparr>tc_http = http, tc_host = host, tc_port = port, tc_authenticator = auth, tc_stdio_agent_id = agent\<rparr>)"

record access_token =
  at_token :: pystr
  at_subject :: "pystr option"

definition verify_token :: "(pystr \<Rightarrow> pystr option result) \<Rightarrow> pystr \<Rightarrow> access_token option result" where
  "verify_token authenticate token =
     rbind (authenticate token) (\<lambda>agent.
       Inr (map_option (\<lambda>a. \<lparr>at_token = token, at_subject = Some a\<rparr>) agent))"

definition min_safe_tier :: nat where "min_safe_tier = 2"

record mcp_server =
  sv_transport :: transport_config
  sv_stopped :: bool
  sv_uvicorn :: "bool option"

definition new_mcp_server :: "nat \<Rightarrow> transport_config \<Rightarrow> bool \<Rightarrow> mcp_server result" where
  "new_mcp_server tier cfg allow_weak =
     (if tier < min_safe_tier \<and> \<not> allow_weak then Inl (raised (Server_exc WeakIsolationError) [])
      else Inr \<lparr>sv_transport = cfg, sv_stopped = False, sv_uvicorn = None\<rparr>)"

definition resolve_agent_id :: "mcp_server \<Rightarrow> access_token option \<Rightarrow> pystr result" where
  "resolve_agent_id srv access =
     (if \<not> tc_http (sv_transport srv) then Inr (tc_stdio_agent_id (sv_transport srv))
      else (case access of
              None \<Rightarrow> Inl (raised AssertionError [])
            | Some tok \<Rightarrow> (case at_subject tok of None \<Rightarrow> Inl (raised AssertionError []) | Some a \<Rightarrow> Inr a)))"

definition tool_names :: "pystr list" where
  "tool_names = [u ''fabrica_find'', u ''fabrica_run_code'', u ''fabrica_run_skill'', u ''fabrica_memory_write'',
     u ''fabrica_memory_search'']"

text \<open>What \<^verbatim>\<open>_build_tool_specs\<close> says of each tool to a client: its name, its description and the JSON schema of its
  arguments.\<close>

record tool_spec =
  tp_name :: pystr
  tp_description :: pystr
  tp_schema :: pydict

definition schema_type :: "string \<Rightarrow> pydict" where "schema_type t = [(u ''type'', PStr (u t))]"

definition object_schema :: "(string \<times> pydict) list \<Rightarrow> string list \<Rightarrow> pydict" where
  "object_schema props required_keys =
     schema_type ''object'' @
     [(u ''properties'', PDict (map (\<lambda>(k, d). (u k, PDict d)) props)), (u ''required'', PList (map (\<lambda>k. PStr (u k)) required_keys))]"

definition build_tool_specs :: "tool_spec list" where
  "build_tool_specs =
     [\<lparr>tp_name = u ''fabrica_find'', tp_description = u ''Search registered tools and skills by free-text query.'',
       tp_schema = object_schema
         [(''query'', schema_type ''string''),
          (''kind'', schema_type ''string'' @ [(u ''enum'', PList [PStr (u ''tool''), PStr (u ''skill'')])])] [''query'']\<rparr>,
      \<lparr>tp_name = u ''fabrica_run_code'',
       tp_description = u ''Run code-mode: execute generated code against registered tools in a sandbox.'',
       tp_schema = object_schema [(''code'', schema_type ''string'')] [''code'']\<rparr>,
      \<lparr>tp_name = u ''fabrica_run_skill'', tp_description = u ''Run a named, author-trusted skill script.'',
       tp_schema = object_schema [(''name'', schema_type ''string''), (''args'', schema_type ''object'')] [''name'']\<rparr>,
      \<lparr>tp_name = u ''fabrica_memory_write'', tp_description = u ''Write an item to long-term memory.'',
       tp_schema = object_schema [(''content'', schema_type ''string''), (''metadata'', schema_type ''object'')] [''content'']\<rparr>,
      \<lparr>tp_name = u ''fabrica_memory_search'', tp_description = u ''Search long-term memory by free-text query.'',
       tp_schema = object_schema
         [(''query'', schema_type ''string''), (''limit'', schema_type ''integer'' @ [(u ''default'', PInt 5)])] [''query'']\<rparr>]"

definition on_list_tools :: "tool_spec list" where "on_list_tools = build_tool_specs"

text \<open>The keys a schema requires.\<close>

definition required_keys :: "tool_spec \<Rightarrow> pystr list" where
  "required_keys t =
     (case dict_get (tp_schema t) (u ''required'') of
        Some (PList ks) \<Rightarrow> concat (map (\<lambda>k. case k of PStr x \<Rightarrow> [x] | _ \<Rightarrow> []) ks)
      | _ \<Rightarrow> [])"

section \<open>The tool handlers\<close>

text \<open>\<^verbatim>\<open>handler(agent_id, **arguments)\<close>: an argument with the name of a parameter that is already bound.\<close>

definition kwargs_ok :: "pydict \<Rightarrow> bool" where
  "kwargs_ok args \<longleftrightarrow> dict_get args (u ''agent_id'') = None \<and> dict_get args (u ''self'') = None"

definition required :: "pydict \<Rightarrow> string \<Rightarrow> pyval result" where
  "required args k = (case dict_get args (u k) of None \<Rightarrow> Inl (raised KeyError [PStr (u k)]) | Some v \<Rightarrow> Inr v)"

definition and_then :: "'a result \<times> 's \<Rightarrow> ('a \<Rightarrow> 's \<Rightarrow> 'b result \<times> 's) \<Rightarrow> 'b result \<times> 's" where
  "and_then x f = (case x of (Inl e, s) \<Rightarrow> (Inl e, s) | (Inr a, s) \<Rightarrow> f a s)"

definition handle_find :: "'s facade \<Rightarrow> pydict \<Rightarrow> 's \<Rightarrow> pyval result \<times> 's" where
  "handle_find fa args s =
     and_then (required args ''query'', s) (\<lambda>q s.
       let kind = dict_get_or args (u ''kind'') PNone in
       if py_eq kind (PStr (u ''skill'')) then and_then (fa_find_skills fa q s) (\<lambda>xs s. (Inr (PList xs), s))
       else if py_eq kind (PStr (u ''tool'')) then and_then (fa_find_tools fa q s) (\<lambda>xs s. (Inr (PList xs), s))
       else and_then (fa_find_tools fa q s) (\<lambda>xs s.
              and_then (fa_find_skills fa q s) (\<lambda>ys s. (Inr (PList (xs @ ys)), s))))"

definition handle_run_code :: "'s facade \<Rightarrow> pystr \<Rightarrow> pydict \<Rightarrow> 's \<Rightarrow> pyval result \<times> 's" where
  "handle_run_code fa agent args s =
     and_then (required args ''code'', s) (\<lambda>code s. fa_run_code fa code agent (agent_scope agent) s)"

definition handle_run_skill :: "'s facade \<Rightarrow> pystr \<Rightarrow> pydict \<Rightarrow> 's \<Rightarrow> pyval result \<times> 's" where
  "handle_run_skill fa agent args s =
     and_then (required args ''name'', s) (\<lambda>name s.
       fa_run_skill fa name (dict_get_or args (u ''args'') (PDict [])) agent (agent_scope agent) s)"

definition handle_memory_write :: "'s facade \<Rightarrow> pystr \<Rightarrow> pydict \<Rightarrow> 's \<Rightarrow> pyval result \<times> 's" where
  "handle_memory_write fa agent args s =
     and_then (required args ''content'', s) (\<lambda>content s.
       let md = dict_get_or args (u ''metadata'') PNone in
       fa_memory_write fa (agent_scope agent) content (if py_truthy md then md else PDict []) s)"

definition handle_memory_search :: "'s facade \<Rightarrow> pystr \<Rightarrow> pydict \<Rightarrow> 's \<Rightarrow> pyval result \<times> 's" where
  "handle_memory_search fa agent args s =
     and_then (required args ''query'', s) (\<lambda>q s.
       and_then (fa_memory_search fa (agent_scope agent) q (dict_get_or args (u ''limit'') (PInt 5)) s)
         (\<lambda>xs s. (Inr (PList xs), s)))"

definition tool_handler :: "'s facade \<Rightarrow> pystr \<Rightarrow> (pystr \<Rightarrow> pydict \<Rightarrow> 's \<Rightarrow> pyval result \<times> 's) option" where
  "tool_handler fa name =
     (if name = u ''fabrica_find'' then Some (\<lambda>agent. handle_find fa)
      else if name = u ''fabrica_run_code'' then Some (handle_run_code fa)
      else if name = u ''fabrica_run_skill'' then Some (handle_run_skill fa)
      else if name = u ''fabrica_memory_write'' then Some (handle_memory_write fa)
      else if name = u ''fabrica_memory_search'' then Some (handle_memory_search fa)
      else None)"

record call_reply =
  cr_text :: pystr
  cr_is_error :: bool

text \<open>\<open>str_exc\<close> is \<^verbatim>\<open>str(exc)\<close>.\<close>

definition on_call_tool ::
    "(real \<Rightarrow> pystr) \<Rightarrow> (exc \<Rightarrow> pystr) \<Rightarrow> mcp_server \<Rightarrow> 's facade \<Rightarrow> access_token option \<Rightarrow> pystr \<Rightarrow> pydict option \<Rightarrow> 's
     \<Rightarrow> call_reply result \<times> 's" where
  "on_call_tool fr str_exc srv fa access name args s =
     (case tool_handler fa name of
        None \<Rightarrow> (Inr \<lparr>cr_text = u ''unknown tool: '' @ name, cr_is_error = True\<rparr>, s)
      | Some handler \<Rightarrow>
          (case resolve_agent_id srv access of
             Inl e \<Rightarrow> (Inl e, s)
           | Inr agent \<Rightarrow>
               (let kwargs = (case args of None \<Rightarrow> [] | Some d \<Rightarrow> d) in
                case (if kwargs_ok kwargs then handler agent kwargs s else (Inl (raised TypeError []), s)) of
                  (Inl e, s') \<Rightarrow>
                    (if is_Exception e then Inr \<lparr>cr_text = str_exc e, cr_is_error = True\<rparr> else Inl e, s')
                | (Inr v, s') \<Rightarrow> (Inr \<lparr>cr_text = json_dumps fr v, cr_is_error = False\<rparr>, s'))))"

section \<open>Prompts and life cycle\<close>

primrec existing_prompts :: "'s facade \<Rightarrow> pystr list \<Rightarrow> 's \<Rightarrow> pystr list result \<times> 's" where
  "existing_prompts fa [] s = (Inr [], s)"
| "existing_prompts fa (n # ns) s =
     and_then (fa_prompt_get fa n None s) (\<lambda>t s.
       and_then (existing_prompts fa ns s) (\<lambda>names s.
         (Inr (case t of None \<Rightarrow> names | Some t \<Rightarrow> pt_name t # names), s)))"

definition on_list_prompts :: "'s facade \<Rightarrow> 's \<Rightarrow> pystr list result \<times> 's" where
  "on_list_prompts fa s = and_then (fa_prompt_names fa s) (\<lambda>names s. existing_prompts fa names s)"

record prompt_reply =
  pr_description :: pyval
  pr_messages :: "pystr list"

text \<open>The version argument is a string; the digits \<^verbatim>\<open>int()\<close> reads are the ASCII ones here.\<close>

definition on_get_prompt :: "'s facade \<Rightarrow> pystr \<Rightarrow> (pystr \<times> pystr) list option \<Rightarrow> 's \<Rightarrow> prompt_reply result \<times> 's" where
  "on_get_prompt fa name args s =
     (let version = (case args of
                       None \<Rightarrow> Inr None
                     | Some d \<Rightarrow> (case dict_get d (u ''version'') of None \<Rightarrow> Inr None | Some v \<Rightarrow> map_sum id Some (read_int v)))
      in and_then (version, s) (\<lambda>v s.
           and_then (fa_prompt_get fa name v s) (\<lambda>t s.
             (Inr (case t of
                     None \<Rightarrow> \<lparr>pr_description = PStr (u ''no such prompt: '' @ name), pr_messages = []\<rparr>
                   | Some t \<Rightarrow> \<lparr>pr_description = dict_get_or (pt_metadata t) (u ''description'') PNone,
                                pr_messages = [pt_content t]\<rparr>), s))))"

text \<open>What \<^verbatim>\<open>start()\<close> does before it waits, and \<^verbatim>\<open>stop()\<close>.\<close>

definition begin_start :: "mcp_server \<Rightarrow> mcp_server" where
  "begin_start srv =
     (if tc_http (sv_transport srv) then srv\<lparr>sv_uvicorn := Some False\<rparr> else srv\<lparr>sv_stopped := False\<rparr>)"

text \<open>\<^verbatim>\<open>_start_stdio\<close>: which of its two tasks, the server's own and the wait for the stop event, are done when
  \<^verbatim>\<open>asyncio.wait\<close> returns; the other one is cancelled.\<close>

datatype stdio_end = ServerEnded "unit result" | StopSet | BothDone "unit result"

definition start_stdio :: "stdio_end \<Rightarrow> mcp_server \<Rightarrow> unit result \<times> mcp_server" where
  "start_stdio ends srv =
     (let srv1 = begin_start srv in
      case ends of
        ServerEnded r \<Rightarrow> (r, srv1)
      | StopSet \<Rightarrow> (Inr (), srv1\<lparr>sv_stopped := True\<rparr>)
      | BothDone r \<Rightarrow> (r, srv1\<lparr>sv_stopped := True\<rparr>))"

text \<open>\<^verbatim>\<open>_start_http\<close>: what the MCP library and uvicorn are given; the check of the issuer's URL and the serving itself
  are parameters.\<close>

record http_app =
  ha_host :: pystr
  ha_port :: int
  ha_issuer_url :: pystr
  ha_verify_token :: "pystr \<Rightarrow> access_token option result"
  ha_log_level :: pystr

definition start_http ::
    "(pystr \<Rightarrow> unit result) \<Rightarrow> (http_app \<Rightarrow> unit result) \<Rightarrow> mcp_server \<Rightarrow> unit result \<times> mcp_server" where
  "start_http any_http_url serving srv =
     (case (tc_host (sv_transport srv), tc_port (sv_transport srv), tc_authenticator (sv_transport srv)) of
        (Some host, Some port, Some auth) \<Rightarrow>
          (let issuer = u ''http://'' @ host @ u '':'' @ str_int port in
           case any_http_url issuer of
             Inl e \<Rightarrow> (Inl e, srv)
           | Inr _ \<Rightarrow>
               (serving \<lparr>ha_host = host, ha_port = port, ha_issuer_url = issuer, ha_verify_token = verify_token auth,
                       ha_log_level = u ''warning''\<rparr>, begin_start srv))
      | _ \<Rightarrow> (Inl (raised AssertionError []), srv))"

definition mcp_start ::
    "(pystr \<Rightarrow> unit result) \<Rightarrow> (http_app \<Rightarrow> unit result) \<Rightarrow> stdio_end \<Rightarrow> mcp_server \<Rightarrow> unit result \<times> mcp_server" where
  "mcp_start any_http_url serving ends srv =
     (if tc_http (sv_transport srv) then start_http any_http_url serving srv else start_stdio ends srv)"

definition mcp_stop :: "mcp_server \<Rightarrow> mcp_server" where
  "mcp_stop srv =
     (if tc_http (sv_transport srv) then srv\<lparr>sv_uvicorn := map_option (\<lambda>_. True) (sv_uvicorn srv)\<rparr>
      else srv\<lparr>sv_stopped := True\<rparr>)"

definition told_to_stop :: "mcp_server \<Rightarrow> bool" where
  "told_to_stop srv \<longleftrightarrow> (if tc_http (sv_transport srv) then sv_uvicorn srv = Some True else sv_stopped srv)"

text \<open>A stop that comes before start is lost: over stdio start makes a new event, over HTTP there is no server yet.\<close>

lemma early_stop_lost:
  assumes "sv_uvicorn srv = None"
  shows "\<not> told_to_stop (begin_start (mcp_stop srv))"
  using assms by (simp add: told_to_stop_def begin_start_def mcp_stop_def)

text \<open>A transport that could be made has all that HTTP needs: start over HTTP fails only as the URL or the server does.\<close>

lemma start_http_needs_nothing_more:
  assumes "make_transport True host port auth agent = Inr cfg" "sv_transport srv = cfg" "fst (start_http any_http_url serving srv) = Inl e"
  shows "(\<exists>issuer. any_http_url issuer = Inl e) \<or> (\<exists>app. serving app = Inl e)"
proof -
  from assms(1,2) obtain h p a where t: "tc_host (sv_transport srv) = Some h" "tc_port (sv_transport srv) = Some p"
    "tc_authenticator (sv_transport srv) = Some a" unfolding assms(2) by (auto simp: make_transport_def split: if_splits)
  show ?thesis using assms(3) unfolding start_http_def t
    by (auto simp: Let_def simp del: u_simps split: sum.splits)
qed

section \<open>What the schemas promise\<close>

lemma specs_names: "map tp_name build_tool_specs = tool_names"
  by (simp add: build_tool_specs_def tool_names_def del: u_simps)

lemma required_of_object: "required_keys \<lparr>tp_name = n, tp_description = d, tp_schema = object_schema props ks\<rparr> = map u ks"
  by (simp add: required_keys_def object_schema_def schema_type_def) (induction ks; simp)

text \<open>Operations that never fail.\<close>

definition all_return :: "'s facade \<Rightarrow> bool" where
  "all_return fa \<longleftrightarrow>
     (\<forall>q s. \<exists>x s'. fa_find_tools fa q s = (Inr x, s')) \<and> (\<forall>q s. \<exists>x s'. fa_find_skills fa q s = (Inr x, s')) \<and>
     (\<forall>c a sc s. \<exists>x s'. fa_run_code fa c a sc s = (Inr x, s')) \<and> (\<forall>n ar a sc s. \<exists>x s'. fa_run_skill fa n ar a sc s = (Inr x, s')) \<and>
     (\<forall>sc c md s. \<exists>x s'. fa_memory_write fa sc c md s = (Inr x, s')) \<and>
     (\<forall>sc q n s. \<exists>x s'. fa_memory_search fa sc q n s = (Inr x, s'))"

lemma find_returns:
  assumes "all_return fa"
  shows "(\<exists>v s'. handle_find fa args s = (Inr v, s')) \<longleftrightarrow> dict_get args (u ''query'') \<noteq> None"
proof (cases "dict_get args (u ''query'')")
  case (Some q)
  define kind where "kind = dict_get_or args (u ''kind'') PNone"
  obtain x t where t: "fa_find_tools fa q s = (Inr x, t)" using assms unfolding all_return_def by metis
  obtain y v where v: "fa_find_skills fa q s = (Inr y, v)" using assms unfolding all_return_def by metis
  obtain z w where w: "fa_find_skills fa q t = (Inr z, w)" using assms unfolding all_return_def by metis
  show ?thesis using Some t v w
    by (simp add: handle_find_def required_def and_then_def kind_def [symmetric] Let_def del: u_simps)
qed (simp add: handle_find_def required_def and_then_def del: u_simps)

lemma one_step_returns:
  assumes "\<And>v s. \<exists>x s'. f v s = (Inr x, s')"
  shows "(\<exists>v s'. and_then (required args k, s) (\<lambda>v s. f v s) = (Inr v, s')) \<longleftrightarrow> dict_get args (u k) \<noteq> None"
  using assms by (cases "dict_get args (u k)") (auto simp: required_def and_then_def simp del: u_simps)

lemma others_return:
  assumes "all_return fa"
  shows "(\<exists>v s'. handle_run_code fa a args s = (Inr v, s')) \<longleftrightarrow> dict_get args (u ''code'') \<noteq> None"
    and "(\<exists>v s'. handle_run_skill fa a args s = (Inr v, s')) \<longleftrightarrow> dict_get args (u ''name'') \<noteq> None"
    and "(\<exists>v s'. handle_memory_write fa a args s = (Inr v, s')) \<longleftrightarrow> dict_get args (u ''content'') \<noteq> None"
    and "(\<exists>v s'. handle_memory_search fa a args s = (Inr v, s')) \<longleftrightarrow> dict_get args (u ''query'') \<noteq> None"
proof -
  have searched: "\<exists>x s'. and_then (fa_memory_search fa sc q n s) (\<lambda>xs s. (Inr (PList xs), s)) = (Inr x, s')" for sc q n s
  proof -
    obtain x s' where "fa_memory_search fa sc q n s = (Inr x, s')" using assms unfolding all_return_def by metis
    then show ?thesis by (simp add: and_then_def)
  qed
  show "(\<exists>v s'. handle_run_code fa a args s = (Inr v, s')) \<longleftrightarrow> dict_get args (u ''code'') \<noteq> None"
    "(\<exists>v s'. handle_run_skill fa a args s = (Inr v, s')) \<longleftrightarrow> dict_get args (u ''name'') \<noteq> None"
    "(\<exists>v s'. handle_memory_write fa a args s = (Inr v, s')) \<longleftrightarrow> dict_get args (u ''content'') \<noteq> None"
    "(\<exists>v s'. handle_memory_search fa a args s = (Inr v, s')) \<longleftrightarrow> dict_get args (u ''query'') \<noteq> None"
    unfolding handle_run_code_def handle_run_skill_def handle_memory_write_def handle_memory_search_def Let_def
    by (rule one_step_returns, (rule searched | use assms in \<open>simp only: all_return_def\<close>))+
qed

lemma specs_required:
  "map (\<lambda>t. (tp_name t, required_keys t)) on_list_tools =
     [(u ''fabrica_find'', [u ''query'']), (u ''fabrica_run_code'', [u ''code'']), (u ''fabrica_run_skill'', [u ''name'']),
      (u ''fabrica_memory_write'', [u ''content'']), (u ''fabrica_memory_search'', [u ''query''])]"
  by (simp add: on_list_tools_def build_tool_specs_def required_of_object del: u_simps)

lemma spec_cases:
  assumes "t \<in> set on_list_tools"
  shows "tp_name t = u ''fabrica_find'' \<and> required_keys t = [u ''query''] \<or>
    tp_name t = u ''fabrica_run_code'' \<and> required_keys t = [u ''code''] \<or>
    tp_name t = u ''fabrica_run_skill'' \<and> required_keys t = [u ''name''] \<or>
    tp_name t = u ''fabrica_memory_write'' \<and> required_keys t = [u ''content''] \<or>
    tp_name t = u ''fabrica_memory_search'' \<and> required_keys t = [u ''query'']"
proof -
  have "(tp_name t, required_keys t) \<in> set (map (\<lambda>t. (tp_name t, required_keys t)) on_list_tools)" using assms by simp
  then show ?thesis unfolding specs_required by (simp only: list.set insert_iff empty_iff prod.inject simp_thms disj_assoc)
qed

lemma handler_of_name:
  "tool_handler fa (u ''fabrica_find'') = Some (\<lambda>agent. handle_find fa)"
  "tool_handler fa (u ''fabrica_run_code'') = Some (handle_run_code fa)"
  "tool_handler fa (u ''fabrica_run_skill'') = Some (handle_run_skill fa)"
  "tool_handler fa (u ''fabrica_memory_write'') = Some (handle_memory_write fa)"
  "tool_handler fa (u ''fabrica_memory_search'') = Some (handle_memory_search fa)"
  by (simp_all add: tool_handler_def)

text \<open>The schemas a client is shown are exact about what is required: over operations that do not fail, a call of a
  listed tool returns if and only if its arguments have every key the tool's schema requires, and a missing one is a
  \<^verbatim>\<open>KeyError\<close> before anything is done.\<close>

lemma schema_exact:
  assumes "all_return fa" "t \<in> set on_list_tools" "tool_handler fa (tp_name t) = Some h"
  shows "(\<exists>v s'. h agent args s = (Inr v, s')) \<longleftrightarrow> (\<forall>k \<in> set (required_keys t). dict_get args k \<noteq> None)"
proof -
  note ret = find_returns [OF assms(1)] others_return [OF assms(1)]
  from spec_cases [OF assms(2)] show ?thesis
  proof (elim disjE conjE)
    assume t: "tp_name t = u ''fabrica_find''" "required_keys t = [u ''query'']"
    with assms(3) have "h = (\<lambda>agent. handle_find fa)" by (simp only: handler_of_name option.inject)
    then show ?thesis by (simp only: t ret list.set ball_simps simp_thms)
  next
    assume t: "tp_name t = u ''fabrica_run_code''" "required_keys t = [u ''code'']"
    with assms(3) have "h = handle_run_code fa" by (simp only: handler_of_name option.inject)
    then show ?thesis by (simp only: t ret list.set ball_simps simp_thms)
  next
    assume t: "tp_name t = u ''fabrica_run_skill''" "required_keys t = [u ''name'']"
    with assms(3) have "h = handle_run_skill fa" by (simp only: handler_of_name option.inject)
    then show ?thesis by (simp only: t ret list.set ball_simps simp_thms)
  next
    assume t: "tp_name t = u ''fabrica_memory_write''" "required_keys t = [u ''content'']"
    with assms(3) have "h = handle_memory_write fa" by (simp only: handler_of_name option.inject)
    then show ?thesis by (simp only: t ret list.set ball_simps simp_thms)
  next
    assume t: "tp_name t = u ''fabrica_memory_search''" "required_keys t = [u ''query'']"
    with assms(3) have "h = handle_memory_search fa" by (simp only: handler_of_name option.inject)
    then show ?thesis by (simp only: t ret list.set ball_simps simp_thms)
  qed
qed

section \<open>Who a call acts for\<close>

text \<open>The facade with the identity fixed: whatever agent and scope its operations are given, they run for this
  one.\<close>

definition as_agent :: "pystr \<Rightarrow> 's facade \<Rightarrow> 's facade" where
  "as_agent a fa =
     fa\<lparr>fa_run_code := \<lambda>code _ _. fa_run_code fa code a (agent_scope a),
        fa_run_skill := \<lambda>name args _ _. fa_run_skill fa name args a (agent_scope a),
        fa_memory_write := \<lambda>_. fa_memory_write fa (agent_scope a),
        fa_memory_search := \<lambda>_. fa_memory_search fa (agent_scope a)\<rparr>"

lemma as_agent_fields:
  "fa_find_tools (as_agent a fa) = fa_find_tools fa" "fa_find_skills (as_agent a fa) = fa_find_skills fa"
  by (simp_all add: as_agent_def)

lemma as_agent_find: "handle_find (as_agent a fa) = handle_find fa"
  by (intro ext) (simp only: handle_find_def as_agent_fields)

lemma as_agent_handlers:
  "handle_run_code (as_agent a fa) a = handle_run_code fa a"
  "handle_run_skill (as_agent a fa) a = handle_run_skill fa a"
  "handle_memory_write (as_agent a fa) a = handle_memory_write fa a"
  "handle_memory_search (as_agent a fa) a = handle_memory_search fa a"
  by (intro ext, simp add: handle_run_code_def handle_run_skill_def handle_memory_write_def handle_memory_search_def
      as_agent_def del: u_simps)+

lemma as_agent_handler:
  "map_option (\<lambda>f. f a) (tool_handler (as_agent a fa) name) = map_option (\<lambda>f. f a) (tool_handler fa name)"
  by (simp add: tool_handler_def as_agent_find as_agent_handlers del: u_simps)

text \<open>C3: an external caller acts for nobody but itself. Whatever a request carries in its arguments, a call of any
  tool gives the same answer and the same effects as if every operation that takes an agent or a scope were bound
  to the agent the connection resolved to and to that agent's scope.\<close>

theorem mcp_call_identity:
  "on_call_tool fr str_exc srv fa access name args s =
   (case resolve_agent_id srv access of
      Inl e \<Rightarrow> on_call_tool fr str_exc srv fa access name args s
    | Inr agent \<Rightarrow> on_call_tool fr str_exc srv (as_agent agent fa) access name args s)"
proof (cases "resolve_agent_id srv access")
  case (Inr agent)
  from as_agent_handler [of agent fa name] show ?thesis
    by (cases "tool_handler (as_agent agent fa) name"; cases "tool_handler fa name") (auto simp: on_call_tool_def Let_def Inr)
qed simp

text \<open>a tool call is answered. An unknown name and every exception of a handler, a missing argument or one that
  names the agent included, come back as an error reply, and an argument that names the agent has no effect at
  all; all that leaves the handler is an interrupt or a cancellation, or a request without an access token over
  HTTP.\<close>

lemma mcp_call_answers_always:
  assumes "on_call_tool fr str_exc srv fa access name args s = (r, s')"
  shows "(\<exists>reply. r = Inr reply \<and> (name \<notin> set tool_names \<longrightarrow> cr_is_error reply \<and> s' = s) \<and>
      (\<forall>d v. args = Some d \<and> dict_get d (u ''agent_id'') = Some v \<longrightarrow> cr_is_error reply \<and> s' = s)) \<or>
    (\<exists>e. r = Inl e \<and> (\<not> is_Exception e \<or> resolve_agent_id srv access = Inl e \<and> s' = s))"
proof (cases "tool_handler fa name")
  case None
  with assms show ?thesis by (auto simp: on_call_tool_def)
next
  case (Some handler)
  then have n: "name \<in> set tool_names" by (auto simp: tool_handler_def tool_names_def simp del: u_simps split: if_splits)
  show ?thesis
  proof (cases "resolve_agent_id srv access")
    case (Inl e)
    with assms Some show ?thesis by (auto simp: on_call_tool_def)
  next
    case (Inr agent)
    with assms Some n show ?thesis
      by (auto simp: on_call_tool_def Let_def kwargs_ok_def exc_simps simp del: u_simps split: option.splits if_splits sum.splits prod.splits)
  qed
qed

text \<open>external callers reach hardware isolation or an explicit opt-in. A server over a Fabrica whose pool runs on
  the backend this host selects can be constructed without the opt-in only if that backend is Firecracker: on Linux
  with KVM, with the kernel and the root file system that are configured in place.\<close>

lemma external_needs_firecracker:
  assumes "new_mcp_server (choice_tier (select_sandbox_backend hf policy)) cfg False = Inr srv"
  shows "firecracker_available hf \<and>
    select_sandbox_backend hf policy =
      Firecracker (fc_env hf ''FABRICA_FC_BINARY'') (fc_env hf ''FABRICA_FC_KERNEL'') (fc_env hf ''FABRICA_FC_ROOTFS'')"
  using assms by (auto simp: new_mcp_server_def min_safe_tier_def select_sandbox_backend_def split: if_splits)

end
