(* ===== verification/CivitasBridge.thy ===== *)
theory CivitasBridge
  imports SkillManager MemoryManager McpServer
begin

text \<open>
  \<^verbatim>\<open>civitas_bridge/bridge.py\<close>: the checks of the constructor, the assembly of the object graph, the state a
  service keeps, and the facade the MCP server is given, made of the model's managers. The managers share the
  retriever, the pool and the governance client, so an assembled \<open>fabrica\<close> holds each of these once and a
  manager works on its view of it.
\<close>

section \<open>The object graph\<close>

record ('p, 'f, 'g, 'b, 't, 's, 'c, 'q) fabrica =
  fab_retriever :: "('p, 'f) retriever"
  fab_tools :: "(pystr, 't namespace) dict"
  fab_skills :: "(pystr, skill) dict"
  fab_exec :: "('g, 'b, 't) exec_world"
  fab_memory :: "('s, 'c) memory_manager"
  fab_prompts :: "'q prompt_manager"

definition tools_of :: "('p, 'f, 'g, 'b, 't, 's, 'c, 'q) fabrica \<Rightarrow> ('p, 'f, 't) tool_manager" where
  "tools_of fab = \<lparr>tm_retriever = fab_retriever fab, tm_tools = fab_tools fab\<rparr>"

definition with_tools ::
    "('p, 'f, 't) tool_manager \<Rightarrow> ('p, 'f, 'g, 'b, 't, 's, 'c, 'q) fabrica \<Rightarrow> ('p, 'f, 'g, 'b, 't, 's, 'c, 'q) fabrica" where
  "with_tools m fab = fab\<lparr>fab_retriever := tm_retriever m, fab_tools := tm_tools m\<rparr>"

definition skills_of :: "('p, 'f, 'g, 'b, 't, 's, 'c, 'q) fabrica \<Rightarrow> ('p, 'f) skill_manager" where
  "skills_of fab = \<lparr>sm_retriever = fab_retriever fab, sm_skills = fab_skills fab\<rparr>"

definition with_skills ::
    "('p, 'f) skill_manager \<Rightarrow> ('p, 'f, 'g, 'b, 't, 's, 'c, 'q) fabrica \<Rightarrow> ('p, 'f, 'g, 'b, 't, 's, 'c, 'q) fabrica" where
  "with_skills m fab = fab\<lparr>fab_retriever := sm_retriever m, fab_skills := sm_skills m\<rparr>"

definition fabrica_close ::
    "('b, 't) sandbox \<Rightarrow> ('p, 'f, 'g, 'b, 't, 's, 'c, 'q) fabrica
     \<Rightarrow> unit result \<times> ('p, 'f, 'g, 'b, 't, 's, 'c, 'q) fabrica" where
  "fabrica_close sb fab =
     (case pl_close sb (ew_pool (fab_exec fab)) of
        (r, p) \<Rightarrow> (r, fab\<lparr>fab_exec := (fab_exec fab)\<lparr>ew_pool := p\<rparr>\<rparr>))"

section \<open>Governance\<close>

definition null_grant :: grant where
  "null_grant =
     \<lparr>gr_decision = Allow, gr_reason = PStr (u ''allow_ungoverned=True, no Presidium configured''),
      gr_approval_context = PNone\<rparr>"

datatype 'g client = NullPresidium | Presidium 'g

definition client_check ::
    "(pystr \<Rightarrow> pystr \<Rightarrow> scope \<Rightarrow> 'g \<Rightarrow> grant result \<times> 'g) \<Rightarrow> pystr \<Rightarrow> pystr \<Rightarrow> scope \<Rightarrow> 'g client
     \<Rightarrow> grant result \<times> 'g client" where
  "client_check check aid action s c =
     (case c of
        NullPresidium \<Rightarrow> (Inr null_grant, NullPresidium)
      | Presidium g \<Rightarrow> (case check aid action s g of (r, g') \<Rightarrow> (r, Presidium g')))"

text \<open>Whose answers these are: nobody's without a client, the service's with one.\<close>

definition client_answers ::
    "(pystr \<Rightarrow> pystr \<Rightarrow> scope \<Rightarrow> 'g \<Rightarrow> decision \<Rightarrow> bool) \<Rightarrow> pystr \<Rightarrow> pystr \<Rightarrow> scope \<Rightarrow> 'g client \<Rightarrow> decision \<Rightarrow> bool" where
  "client_answers answers aid action s c d =
     (case c of NullPresidium \<Rightarrow> True | Presidium g \<Rightarrow> answers aid action s g d)"

interpretation governed: grant_source "client_check (rest_check_grant api now1 now2)" "client_answers (rest_answers api now1)"
  for api now1 now2
  by unfold_locales
    (auto simp: client_check_def client_answers_def split: client.splits prod.splits dest: rest.not_deny_answered)

section \<open>Stores of either mode\<close>

definition either_long_term :: "bool \<Rightarrow> 'a long_term \<Rightarrow> 'b long_term \<Rightarrow> ('a + 'b) long_term" where
  "either_long_term service l r =
     \<lparr>lt_name = (if service then lt_name r else lt_name l),
      lt_write = \<lambda>s x st. (case st of Inl a \<Rightarrow> map_prod id Inl (lt_write l s x a) | Inr b \<Rightarrow> map_prod id Inr (lt_write r s x b)),
      lt_search = \<lambda>s q n st. (case st of Inl a \<Rightarrow> map_prod id Inl (lt_search l s q n a)
                                       | Inr b \<Rightarrow> map_prod id Inr (lt_search r s q n b)),
      lt_get = \<lambda>s i st. (case st of Inl a \<Rightarrow> lt_get l s i a | Inr b \<Rightarrow> lt_get r s i b),
      lt_forget = \<lambda>s i st. (case st of Inl a \<Rightarrow> map_prod id Inl (lt_forget l s i a)
                                     | Inr b \<Rightarrow> map_prod id Inr (lt_forget r s i b))\<rparr>"

definition either_prompts :: "'a prompt_api \<Rightarrow> 'b prompt_api \<Rightarrow> ('a + 'b) prompt_api" where
  "either_prompts l r =
     \<lparr>pa_put = \<lambda>n c md ca bd st. (case st of Inl a \<Rightarrow> map_prod id Inl (pa_put l n c md ca bd a)
                                         | Inr b \<Rightarrow> map_prod id Inr (pa_put r n c md ca bd b)),
      pa_get = \<lambda>n v st. (case st of Inl a \<Rightarrow> pa_get l n v a | Inr b \<Rightarrow> pa_get r n v b),
      pa_list_versions = \<lambda>n st. (case st of Inl a \<Rightarrow> pa_list_versions l n a | Inr b \<Rightarrow> pa_list_versions r n b),
      pa_list_names = \<lambda>st. (case st of Inl a \<Rightarrow> pa_list_names l a | Inr b \<Rightarrow> pa_list_names r b),
      pa_delete = \<lambda>n v st. (case st of Inl a \<Rightarrow> map_prod id Inl (pa_delete l n v a)
                                     | Inr b \<Rightarrow> map_prod id Inr (pa_delete r n v b))\<rparr>"

section \<open>The bridge\<close>

text \<open>\<open>br_runtime\<close> says which names the runtime knows, \<open>br_store\<close> is the state store of a service when the bridge was
  made, and \<open>br_built\<close> the object graph that was built, as it is now.\<close>

record ('g, 'b, 'z, 'd, 'x) bridge =
  br_service :: bool
  br_summarizer :: "'z option"
  br_client :: "'g option"
  br_allow_ungoverned :: bool
  br_runtime :: "(pystr \<Rightarrow> bool) option"
  br_store :: "'d option"
  br_supervisor :: "pystr option"
  br_warm_size :: int
  br_max_concurrent :: int
  br_backend :: "'b option"
  br_built :: "'x option"

definition default_warm_size :: int where "default_warm_size = 2"

definition default_max_concurrent :: int where "default_max_concurrent = 4"

definition new_bridge ::
    "bool \<Rightarrow> 'z option \<Rightarrow> 'g option \<Rightarrow> bool \<Rightarrow> (pystr \<Rightarrow> bool) option \<Rightarrow> 'd option \<Rightarrow> pystr option \<Rightarrow> int \<Rightarrow> int \<Rightarrow> 'b option
     \<Rightarrow> ('g, 'b, 'z, 'd, 'x) bridge result" where
  "new_bridge service summarizer client allow_ungoverned runtime store supervisor warm_size max_concurrent backend =
     (if client = None \<and> \<not> allow_ungoverned then Inl (raised (Bridge_exc UngovernedConfigurationError) [])
      else if service \<and> (runtime = None \<or> store = None \<or> supervisor = None)
      then Inl (raised (Bridge_exc RuntimeRequiredError) [])
      else if service \<and> (case (runtime, supervisor) of (Some known, Some name) \<Rightarrow> \<not> known name | _ \<Rightarrow> False)
      then Inl (raised (Bridge_exc SupervisorNotFoundError) [])
      else Inr \<lparr>br_service = service, br_summarizer = summarizer, br_client = client,
                br_allow_ungoverned = allow_ungoverned, br_runtime = runtime, br_store = store, br_supervisor = supervisor,
                br_warm_size = warm_size, br_max_concurrent = max_concurrent, br_backend = backend, br_built = None\<rparr>)"

definition request_state_persistence ::
    "'d state_store \<Rightarrow> ('g, 'b, 'z, 'd, 'x) bridge \<Rightarrow> pystr \<Rightarrow> ('d \<times> 'd blob_store) result" where
  "request_state_persistence ss b name =
     (case br_store b of
        None \<Rightarrow> Inl (raised (Bridge_exc RuntimeRequiredError) [])
      | Some d \<Rightarrow> Inr (d, bound_handle ss name))"

definition request_supervision ::
    "(pystr \<Rightarrow> pystr \<Rightarrow> pyval \<Rightarrow> 'w \<Rightarrow> pystr result \<times> 'w) \<Rightarrow> ('g, 'b, 'z, 'd, 'x) bridge \<Rightarrow> pystr \<Rightarrow> pyval \<Rightarrow> 'w
     \<Rightarrow> pystr result \<times> 'w" where
  "request_supervision spawn b name config w =
     (case (br_runtime b, br_supervisor b) of
        (Some known, Some spv) \<Rightarrow> spawn spv name config w
      | _ \<Rightarrow> (Inl (raised (Bridge_exc RuntimeRequiredError) []), w))"

text \<open>The two stores, with the state of the state store after they were opened; both then hold it.\<close>

definition open_stores ::
    "'d state_store \<Rightarrow> ('g, 'b, 'z, 'd, 'x) bridge
     \<Rightarrow> (((memory_state + 'd persisted_memory) \<times> (prompts + 'd persisted_prompts)) result) \<times> 'd option" where
  "open_stores ss b =
     (if br_service b then
        (case (request_state_persistence ss b (u ''memory_manager''), request_state_persistence ss b (u ''prompts_manager'')) of
           (Inr (d, mem), Inr (_, pro)) \<Rightarrow>
             (case pm_create mem d of
                (Inl e, d1) \<Rightarrow> (Inl e, Some d1)
              | (Inr m, d1) \<Rightarrow>
                  (case pp_create pro d1 of
                     (Inl e, d2) \<Rightarrow> (Inl e, Some d2)
                   | (Inr p, d2) \<Rightarrow> (Inr (Inr (m\<lparr>pm_blob := d2\<rparr>), Inr p), Some d2)))
         | (Inl e, _) \<Rightarrow> (Inl e, br_store b)
         | (_, Inl e) \<Rightarrow> (Inl e, br_store b))
      else (Inr (Inl [], Inl []), br_store b))"

definition assemble ::
    "('g, 'b, 'z, 'd, 'x) bridge \<Rightarrow> 'b \<Rightarrow> 't \<Rightarrow> 's \<Rightarrow> 'q
     \<Rightarrow> (keyword_state, keyword_state, 'g client, 'b, 't, 's, 'z option, 'q) fabrica" where
  "assemble b chosen tools0 long_term prompts0 =
     \<lparr>fab_retriever = new_retriever [] [], fab_tools = [], fab_skills = [],
      fab_exec = \<lparr>ew_client = (case br_client b of None \<Rightarrow> NullPresidium | Some g \<Rightarrow> Presidium g),
                  ew_pool = \<lparr>pw_pool = new_pool (br_warm_size b) (br_max_concurrent b) default_acquire_timeout,
                             pw_backend = (case br_backend b of None \<Rightarrow> chosen | Some bk \<Rightarrow> bk), pw_refills = 0\<rparr>,
                  ew_tools = tools0\<rparr>,
      fab_memory = \<lparr>mm_working = new_working_memory default_quota_bytes, mm_long_term = long_term,
                    mm_compactor = br_summarizer b\<rparr>,
      fab_prompts = new_prompt_manager prompts0\<rparr>"

text \<open>\<^verbatim>\<open>build()\<close>: \<open>chosen\<close> is the backend the dispatch selected.\<close>

definition bridge_build ::
    "'d state_store \<Rightarrow> 'b \<Rightarrow> 't
     \<Rightarrow> ('g, 'b, 'z, 'd, (keyword_state, keyword_state, 'g client, 'b, 't, memory_state + 'd persisted_memory, 'z option,
           prompts + 'd persisted_prompts) fabrica) bridge
     \<Rightarrow> (keyword_state, keyword_state, 'g client, 'b, 't, memory_state + 'd persisted_memory, 'z option,
          prompts + 'd persisted_prompts) fabrica result \<times>
        ('g, 'b, 'z, 'd, (keyword_state, keyword_state, 'g client, 'b, 't, memory_state + 'd persisted_memory, 'z option,
           prompts + 'd persisted_prompts) fabrica) bridge" where
  "bridge_build ss chosen tools0 b =
     (case br_built b of
        Some fab \<Rightarrow> (Inr fab, b)
      | None \<Rightarrow>
          (case open_stores ss b of
             (Inl e, d) \<Rightarrow> (Inl e, b\<lparr>br_store := d\<rparr>)
           | (Inr (m, p), d) \<Rightarrow>
               (let fab = assemble b chosen tools0 m p in (Inr fab, b\<lparr>br_store := d, br_built := Some fab\<rparr>))))"

section \<open>The facade of the managers\<close>

text \<open>What a result looks like to an external caller; how \<^verbatim>\<open>str()\<close> shows a time is a parameter.\<close>

definition asdict_indexable :: "indexable \<Rightarrow> pyval" where
  "asdict_indexable x =
     PDict [(u ''id'', PStr (ix_id x)), (u ''kind'', kind_val (ix_kind x)), (u ''name'', PStr (ix_name x)),
            (u ''description'', PStr (ix_description x)), (u ''eager'', PBool (ix_eager x))]"

definition asdict_match :: "ranked_match \<Rightarrow> pyval" where
  "asdict_match m = PDict [(u ''item'', asdict_indexable (rm_item m)), (u ''rank'', PInt (int (rm_rank m)))]"

definition asdict_run_result :: "run_result \<Rightarrow> pyval" where
  "asdict_run_result r =
     PDict [(u ''success'', PBool (rr_success r)), (u ''stdout'', PStr (rr_stdout r)),
            (u ''stdout_truncated'', PBool (rr_stdout_truncated r)), (u ''error_message'', opt_val (rr_error_message r)),
            (u ''cpu_seconds'', PFloat (rr_cpu_seconds r)), (u ''duration_ms'', PFloat (rr_duration_ms r)),
            (u ''tool_call_count'', PInt (rr_tool_call_count r))]"

definition asdict_memory_item :: "(datetime \<Rightarrow> pystr) \<Rightarrow> memory_item \<Rightarrow> pyval" where
  "asdict_memory_item str_time x =
     PDict [(u ''id'', opt_val (mi_id x)), (u ''content'', PStr (mi_content x)), (u ''metadata'', PDict (mi_metadata x)),
            (u ''created_at'', opt_val (map_option str_time (mi_created_at x))),
            (u ''score'', case mi_score x of None \<Rightarrow> PNone | Some r \<Rightarrow> PFloat r)]"

text \<open>
  What the managers of an assembled Fabrica work with: the backends, the stores, the sandbox, and what the clock,
  the files and the other tasks do during a call. The managers of the model take arguments of the types their
  signatures declare; what a search or a write does with a value of another type, which nothing in the program
  rejects, is \<open>po_find_other\<close>, \<open>po_write_other\<close> and \<open>po_search_other\<close>.
\<close>

record ('p, 'f, 'b, 't, 's, 'c, 'q) ports =
  po_primary :: "'p backend"
  po_fallback :: "'f backend"
  po_sandbox :: "('b, 't) sandbox"
  po_hexdigest :: "nat list \<Rightarrow> pystr"
  po_elapsed :: real
  po_latency :: real
  po_wakes :: "'b waits"
  po_read_text :: "pystr \<Rightarrow> pystr \<Rightarrow> pystr result"
  po_float_text :: "real \<Rightarrow> pystr"
  po_str_time :: "datetime \<Rightarrow> pystr"
  po_long_term :: "'s long_term"
  po_prompts :: "'q prompt_api"
  po_find_other :: "kind \<Rightarrow> pyval \<Rightarrow> (('p, 'f) retriever, ranked_match list) io"
  po_write_other :: "scope \<Rightarrow> pyval \<Rightarrow> pyval \<Rightarrow> (('s, 'c) memory_manager, pystr) io"
  po_search_other :: "scope \<Rightarrow> pyval \<Rightarrow> pyval \<Rightarrow> (('s, 'c) memory_manager, memory_item list) io"

text \<open>A call of a component on an assembled Fabrica, its result shown to the caller.\<close>

definition shown :: "('a \<Rightarrow> 'v) \<Rightarrow> ('w, 'a) io \<Rightarrow> tracer \<times> 'w \<Rightarrow> 'v result \<times> (tracer \<times> 'w)" where
  "shown f m s = (case m s of (r, s') \<Rightarrow> (map_sum id f r, s'))"

definition on_exec :: "(('g, 'b, 't) exec_world, 'a) io \<Rightarrow> (('p, 'f, 'g, 'b, 't, 's, 'c, 'q) fabrica, 'a) io" where
  "on_exec = io_zoom fab_exec (\<lambda>x fab. fab\<lparr>fab_exec := x\<rparr>)"

text \<open>The two stores of a service write through to one state store: after an operation of one of them the other finds
  the state store as that operation left it.\<close>

type_synonym 'd long_term_state = "memory_state + 'd persisted_memory"

type_synonym 'd prompt_state = "prompts + 'd persisted_prompts"

definition share_memory ::
    "('p, 'f, 'g, 'b, 't, 'd long_term_state, 'c, 'd prompt_state) fabrica
     \<Rightarrow> ('p, 'f, 'g, 'b, 't, 'd long_term_state, 'c, 'd prompt_state) fabrica" where
  "share_memory fab =
     (case (mm_long_term (fab_memory fab), pg_store (fab_prompts fab)) of
        (Inr m, Inr p) \<Rightarrow> fab\<lparr>fab_prompts := (fab_prompts fab)\<lparr>pg_store := Inr (p\<lparr>pp_blob := pm_blob m\<rparr>)\<rparr>\<rparr>
      | _ \<Rightarrow> fab)"

definition share_prompts ::
    "('p, 'f, 'g, 'b, 't, 'd long_term_state, 'c, 'd prompt_state) fabrica
     \<Rightarrow> ('p, 'f, 'g, 'b, 't, 'd long_term_state, 'c, 'd prompt_state) fabrica" where
  "share_prompts fab =
     (case (mm_long_term (fab_memory fab), pg_store (fab_prompts fab)) of
        (Inr m, Inr p) \<Rightarrow> fab\<lparr>fab_memory := (fab_memory fab)\<lparr>mm_long_term := Inr (m\<lparr>pm_blob := pp_blob p\<rparr>)\<rparr>\<rparr>
      | _ \<Rightarrow> fab)"

definition on_memory ::
    "(('d long_term_state, 'c) memory_manager, 'a) io
     \<Rightarrow> (('p, 'f, 'g, 'b, 't, 'd long_term_state, 'c, 'd prompt_state) fabrica, 'a) io" where
  "on_memory = io_zoom fab_memory (\<lambda>x fab. share_memory (fab\<lparr>fab_memory := x\<rparr>))"

definition on_prompts ::
    "('d prompt_state prompt_manager, 'a) io
     \<Rightarrow> (('p, 'f, 'g, 'b, 't, 'd long_term_state, 'c, 'd prompt_state) fabrica, 'a) io" where
  "on_prompts = io_zoom fab_prompts (\<lambda>x fab. share_prompts (fab\<lparr>fab_prompts := x\<rparr>))"

definition on_retriever :: "(('p, 'f) retriever, 'a) io \<Rightarrow> (('p, 'f, 'g, 'b, 't, 's, 'c, 'q) fabrica, 'a) io" where
  "on_retriever = io_zoom fab_retriever (\<lambda>x fab. fab\<lparr>fab_retriever := x\<rparr>)"

definition default_limit :: int where "default_limit = 5"

definition default_run_timeout :: real where "default_run_timeout = 30"

definition facade_find_tools ::
    "('p, 'f, 'b, 't, 's, 'c, 'q) ports \<Rightarrow> pyval \<Rightarrow> tracer \<times> ('p, 'f, 'g, 'b, 't, 's, 'c, 'q) fabrica
     \<Rightarrow> pyval list result \<times> (tracer \<times> ('p, 'f, 'g, 'b, 't, 's, 'c, 'q) fabrica)" where
  "facade_find_tools po query =
     shown (List.map asdict_match)
       (case query of
          PStr q \<Rightarrow> io_zoom tools_of with_tools (tm_find (po_elapsed po) (po_primary po) (po_fallback po) q default_limit)
        | _ \<Rightarrow> on_retriever (po_find_other po Tool query))"

definition facade_find_skills ::
    "('p, 'f, 'b, 't, 's, 'c, 'q) ports \<Rightarrow> pyval \<Rightarrow> tracer \<times> ('p, 'f, 'g, 'b, 't, 's, 'c, 'q) fabrica
     \<Rightarrow> pyval list result \<times> (tracer \<times> ('p, 'f, 'g, 'b, 't, 's, 'c, 'q) fabrica)" where
  "facade_find_skills po query =
     shown (List.map asdict_match)
       (case query of
          PStr q \<Rightarrow> io_zoom skills_of with_skills (sm_find (po_elapsed po) (po_primary po) (po_fallback po) q default_limit)
        | _ \<Rightarrow> on_retriever (po_find_other po Skill query))"

text \<open>Code that is no string has no \<^verbatim>\<open>encode\<close>, a skill's name that is a list or a dictionary no hash.\<close>

definition facade_run_code ::
    "(pystr \<Rightarrow> pystr \<Rightarrow> scope \<Rightarrow> 'g \<Rightarrow> grant result \<times> 'g) \<Rightarrow> ('p, 'f, 'b, 't, 's, 'c, 'q) ports
     \<Rightarrow> pyval \<Rightarrow> pystr \<Rightarrow> scope \<Rightarrow> tracer \<times> ('p, 'f, 'g, 'b, 't, 's, 'c, 'q) fabrica
     \<Rightarrow> pyval result \<times> (tracer \<times> ('p, 'f, 'g, 'b, 't, 's, 'c, 'q) fabrica)" where
  "facade_run_code check po code aid s w =
     shown asdict_run_result
       (case code of
          PStr c \<Rightarrow>
            on_exec (tm_run_code check (po_sandbox po) (po_hexdigest po) (po_latency po) (po_wakes po) (tools_of (snd w))
              c aid s default_run_timeout None)
        | _ \<Rightarrow> io_raise (raised AttributeError [])) w"

definition facade_run_skill ::
    "(pystr \<Rightarrow> pystr \<Rightarrow> scope \<Rightarrow> 'g \<Rightarrow> grant result \<times> 'g) \<Rightarrow> ('p, 'f, 'b, 't, 's, 'c, 'q) ports
     \<Rightarrow> pyval \<Rightarrow> pyval \<Rightarrow> pystr \<Rightarrow> scope \<Rightarrow> tracer \<times> ('p, 'f, 'g, 'b, 't, 's, 'c, 'q) fabrica
     \<Rightarrow> pyval result \<times> (tracer \<times> ('p, 'f, 'g, 'b, 't, 's, 'c, 'q) fabrica)" where
  "facade_run_skill check po name args aid s w =
     shown asdict_run_result
       (case name of
          PStr n \<Rightarrow>
            on_exec (sm_run check (po_sandbox po) (po_hexdigest po) (po_latency po) (po_wakes po) (po_read_text po)
              (po_float_text po) (skills_of (snd w)) n args aid s default_run_timeout None)
        | PList _ \<Rightarrow> io_raise (raised TypeError [])
        | PDict _ \<Rightarrow> io_raise (raised TypeError [])
        | _ \<Rightarrow> io_raise skill_not_found) w"

definition facade_memory_write ::
    "('p, 'f, 'b, 't, 'd long_term_state, 'c, 'd prompt_state) ports \<Rightarrow> scope \<Rightarrow> pyval \<Rightarrow> pyval \<Rightarrow> tracer \<times> ('p, 'f, 'g, 'b, 't, 'd long_term_state, 'c, 'd prompt_state) fabrica
     \<Rightarrow> pyval result \<times> (tracer \<times> ('p, 'f, 'g, 'b, 't, 'd long_term_state, 'c, 'd prompt_state) fabrica)" where
  "facade_memory_write po s content metadata =
     shown PStr (on_memory
       (case (content, metadata) of
          (PStr c, PDict d) \<Rightarrow>
            mm_write (po_long_term po) s
              \<lparr>mi_id = None, mi_content = c, mi_metadata = d, mi_created_at = None, mi_score = None\<rparr>
        | _ \<Rightarrow> po_write_other po s content metadata))"

definition facade_memory_search ::
    "('p, 'f, 'b, 't, 'd long_term_state, 'c, 'd prompt_state) ports \<Rightarrow> scope \<Rightarrow> pyval \<Rightarrow> pyval \<Rightarrow> tracer \<times> ('p, 'f, 'g, 'b, 't, 'd long_term_state, 'c, 'd prompt_state) fabrica
     \<Rightarrow> pyval list result \<times> (tracer \<times> ('p, 'f, 'g, 'b, 't, 'd long_term_state, 'c, 'd prompt_state) fabrica)" where
  "facade_memory_search po s query limit =
     shown (List.map (asdict_memory_item (po_str_time po))) (on_memory
       (case (query, limit) of
          (PStr q, PInt n) \<Rightarrow> mm_search (po_long_term po) s q n
        | _ \<Rightarrow> po_search_other po s query limit))"

definition fabrica_facade ::
    "(pystr \<Rightarrow> pystr \<Rightarrow> scope \<Rightarrow> 'g \<Rightarrow> grant result \<times> 'g) \<Rightarrow> ('p, 'f, 'b, 't, 'd long_term_state, 'c, 'd prompt_state) ports
     \<Rightarrow> (tracer \<times> ('p, 'f, 'g, 'b, 't, 'd long_term_state, 'c, 'd prompt_state) fabrica) facade" where
  "fabrica_facade check po =
     \<lparr>fa_tier = sb_tier (po_sandbox po), fa_find_tools = facade_find_tools po, fa_find_skills = facade_find_skills po,
      fa_run_code = facade_run_code check po, fa_run_skill = facade_run_skill check po,
      fa_memory_write = facade_memory_write po, fa_memory_search = facade_memory_search po,
      fa_prompt_names = \<lambda>(t, fab). (Inr (pg_list_names (po_prompts po) (fab_prompts fab)), (t, fab)),
      fa_prompt_get = \<lambda>name version. on_prompts (pg_get (po_prompts po) name version)\<rparr>"

end
