(* ===== verification/ExternalCalls.thy ===== *)
theory ExternalCalls
  imports CivitasBridge
begin

text \<open>
  External callers and the governance service, across the MCP server, the managers, the sandbox pool and the
  client the bridge wired in: what a call may do to the sandboxes, and sequences of calls on an assembled Fabrica.
\<close>

section \<open>What an operation of the facade does to the sandboxes\<close>

abbreviation sandboxes_differ ::
    "('p, 'f, 'g, 'b, 't, 's, 'c, 'q) fabrica \<Rightarrow> ('p, 'f, 'g, 'b, 't, 's, 'c, 'q) fabrica \<Rightarrow> bool" where
  "sandboxes_differ fab fab' \<equiv> ew_pool (fab_exec fab') \<noteq> ew_pool (fab_exec fab) \<or> ew_tools (fab_exec fab') \<noteq> ew_tools (fab_exec fab)"

lemma zoom_leaves:
  assumes "io_zoom get put m (t, fab) = (r, (t', fab'))" "\<And>x. fab_exec (put x fab) = fab_exec fab"
  shows "fab_exec fab' = fab_exec fab"
  using assms by (auto simp: io_zoom_def split: prod.splits)

lemma shown_leaves:
  assumes "shown f m (t, fab) = (r, (t', fab'))" "\<And>r t' fab'. m (t, fab) = (r, (t', fab')) \<Longrightarrow> fab_exec fab' = fab_exec fab"
  shows "fab_exec fab' = fab_exec fab"
  using assms by (auto simp: shown_def split: prod.splits)

lemma share_parts:
  "fab_exec (share_memory fab) = fab_exec fab" "fab_exec (share_prompts fab) = fab_exec fab"
  by (simp_all add: share_memory_def share_prompts_def split: sum.split)

lemma with_parts:
  "fab_exec (with_tools m fab) = fab_exec fab" "fab_exec (with_skills k fab) = fab_exec fab"
  by (simp_all add: with_tools_def with_skills_def)

lemma find_leaves:
  "facade_find_tools po q (t, fab) = (r, (t', fab')) \<Longrightarrow> fab_exec fab' = fab_exec fab"
  "facade_find_skills po q (t, fab) = (r, (t', fab')) \<Longrightarrow> fab_exec fab' = fab_exec fab"
  unfolding facade_find_tools_def facade_find_skills_def on_retriever_def
  by (erule shown_leaves, auto split: pyval.splits elim!: zoom_leaves simp: with_parts)+

lemma memory_leaves:
  "facade_memory_write po s c md (t, fab) = (r, (t', fab')) \<Longrightarrow> fab_exec fab' = fab_exec fab"
  "facade_memory_search po s q n (t, fab) = (v, (t', fab')) \<Longrightarrow> fab_exec fab' = fab_exec fab"
  unfolding facade_memory_write_def facade_memory_search_def on_memory_def
  by (erule shown_leaves, erule zoom_leaves, simp add: share_parts)+

lemma run_code_cases:
  assumes "facade_run_code check po code aid s (t, fab) = (r, (t', fab'))"
  shows "(\<exists>c rr. code = PStr c \<and>
      execute_outcome check (po_sandbox po) (po_wakes po) (code_request (fab_tools fab) c aid s default_run_timeout None)
        (fab_exec fab) = (rr, fab_exec fab') \<and> r = map_sum id asdict_run_result rr) \<or>
    (\<exists>e. r = Inl e) \<and> fab' = fab"
proof (cases code)
  case (PStr c)
  obtain rr ta x where run: "tm_run_code check (po_sandbox po) (po_hexdigest po) (po_latency po) (po_wakes po) (tools_of fab) c
      aid s default_run_timeout None (t, fab_exec fab) = (rr, (ta, x))" by (metis prod.exhaust)
  from execute_implements [OF run [unfolded tm_run_code_def]] run assms PStr show ?thesis
    by (auto simp: facade_run_code_def shown_def on_exec_def io_zoom_def tools_of_def)
qed (use assms in \<open>auto simp: facade_run_code_def shown_def io_raise_def\<close>)

lemma sm_run_cases:
  assumes "sm_run check sb hexdigest latency wakes read_text fr m n args aid s tmo ct (t, w) = (rr, (ta, x))"
  shows "(\<exists>code. execute_outcome check sb wakes (skill_request n code aid s tmo ct) w = (rr, x)) \<or> (\<exists>e. rr = Inl e) \<and> x = w"
  using assms by (auto simp: sm_run_def io_raise_def dest!: execute_implements split: option.splits sum.splits)

lemma run_skill_cases:
  assumes "facade_run_skill check po name args aid s (t, fab) = (r, (t', fab'))"
  shows "(\<exists>n code rr. name = PStr n \<and>
      execute_outcome check (po_sandbox po) (po_wakes po) (skill_request n code aid s default_run_timeout None)
        (fab_exec fab) = (rr, fab_exec fab') \<and> r = map_sum id asdict_run_result rr) \<or>
    (\<exists>e. r = Inl e) \<and> fab' = fab"
proof (cases name)
  case (PStr n)
  obtain rr ta x where run: "sm_run check (po_sandbox po) (po_hexdigest po) (po_latency po) (po_wakes po) (po_read_text po)
      (po_float_text po) (skills_of fab) n args aid s default_run_timeout None (t, fab_exec fab) = (rr, (ta, x))"
    by (metis prod.exhaust)
  with assms PStr have f: "r = map_sum id asdict_run_result rr" "fab' = fab\<lparr>fab_exec := x\<rparr>"
    by (auto simp: facade_run_skill_def shown_def on_exec_def io_zoom_def)
  from sm_run_cases [OF run] f PStr show ?thesis by auto
qed (use assms in \<open>auto simp: facade_run_skill_def shown_def io_raise_def\<close>)

text \<open>An execution touches the governance client only to ask it once.\<close>

lemma outcome_client:
  assumes "execute_outcome check sb wakes x w = (rr, w')"
  shows "ew_client w' = ew_client w \<or>
    ew_client w' = snd (check (xr_agent_id x) (xr_action x) (xr_scope x) (ew_client w))"
  using assms
  by (auto simp: execute_outcome_def on_client_def sandboxed_outcome_def run_and_release_def
      split: sum.splits option.splits prod.splits)

text \<open>The action an external call names to the governance service, if it is one that runs code.\<close>

definition call_action :: "pystr \<Rightarrow> pydict option \<Rightarrow> pystr option" where
  "call_action name args =
     (if name = u ''fabrica_run_code'' then Some (u ''code_mode'')
      else if name = u ''fabrica_run_skill'' then
        (case args of
           None \<Rightarrow> None
         | Some d \<Rightarrow> (case dict_get d (u ''name'') of Some (PStr n) \<Rightarrow> Some (u ''skill_run:'' @ n) | _ \<Rightarrow> None))
      else None)"

lemma find_call_leaves:
  assumes "handle_find (fabrica_facade check po) kwargs (t, fab) = (r, (t', fab'))"
  shows "fab_exec fab' = fab_exec fab"
  using assms
  by (auto simp: handle_find_def and_then_def Let_def fabrica_facade_def dest!: find_leaves simp del: u_simps
      split: sum.splits prod.splits if_splits)

lemma memory_call_leaves:
  "handle_memory_write (fabrica_facade check po) agent kwargs (t, fab) = (r, (t', fab')) \<Longrightarrow> fab_exec fab' = fab_exec fab"
  "handle_memory_search (fabrica_facade check po) agent kwargs (t, fab) = (r, (t', fab')) \<Longrightarrow> fab_exec fab' = fab_exec fab"
  by (auto simp: handle_memory_write_def handle_memory_search_def and_then_def Let_def fabrica_facade_def
      dest!: memory_leaves simp del: u_simps split: sum.splits prod.splits)

text \<open>A reply that reports no error; the two tools that run code.\<close>

definition succeeded :: "call_reply result \<Rightarrow> bool" where
  "succeeded r \<longleftrightarrow> (case r of Inl _ \<Rightarrow> False | Inr reply \<Rightarrow> \<not> cr_is_error reply)"

definition runs_code :: "pystr \<Rightarrow> bool" where
  "runs_code name \<longleftrightarrow> name = u ''fabrica_run_code'' \<or> name = u ''fabrica_run_skill''"

lemma shown_Inr: "map_sum id f x = Inr y \<Longrightarrow> \<exists>v. x = Inr v"
  by (cases x) auto

lemma run_code_call:
  assumes "handle_run_code (fabrica_facade check po) agent kwargs (t, fab) = (v, (t', fab'))"
  shows "(\<exists>x rr. xr_agent_id x = agent \<and> xr_action x = u ''code_mode'' \<and> xr_scope x = agent_scope agent \<and>
      execute_outcome check (po_sandbox po) (po_wakes po) x (fab_exec fab) = (rr, fab_exec fab') \<and>
      v = map_sum id asdict_run_result rr) \<or> (\<exists>e. v = Inl e) \<and> fab' = fab"
proof (cases "dict_get kwargs (u ''code'')")
  case None
  with assms show ?thesis by (auto simp: handle_run_code_def required_def and_then_def simp del: u_simps)
next
  case (Some code)
  with assms have "facade_run_code check po code agent (agent_scope agent) (t, fab) = (v, (t', fab'))"
    by (simp add: handle_run_code_def required_def and_then_def fabrica_facade_def del: u_simps)
  from run_code_cases [OF this] show ?thesis by (force simp: code_request_def simp del: u_simps)
qed

lemma run_skill_call:
  assumes "handle_run_skill (fabrica_facade check po) agent kwargs (t, fab) = (v, (t', fab'))"
  shows "(\<exists>x rr n. dict_get kwargs (u ''name'') = Some (PStr n) \<and> xr_agent_id x = agent \<and>
      xr_action x = u ''skill_run:'' @ n \<and> xr_scope x = agent_scope agent \<and>
      execute_outcome check (po_sandbox po) (po_wakes po) x (fab_exec fab) = (rr, fab_exec fab') \<and>
      v = map_sum id asdict_run_result rr) \<or> (\<exists>e. v = Inl e) \<and> fab' = fab"
proof (cases "dict_get kwargs (u ''name'')")
  case None
  with assms show ?thesis by (auto simp: handle_run_skill_def required_def and_then_def simp del: u_simps)
next
  case (Some name)
  with assms have "facade_run_skill check po name (dict_get_or kwargs (u ''args'') (PDict [])) agent (agent_scope agent)
      (t, fab) = (v, (t', fab'))"
    by (simp add: handle_run_skill_def required_def and_then_def fabrica_facade_def del: u_simps)
  from run_skill_cases [OF this] Some show ?thesis by (force simp: skill_request_def simp del: u_simps)
qed

text \<open>Every external call runs one request under its own action, as the agent and the scope of its connection, or it
  leaves the client, the pool and the tools alone.\<close>

lemma external_call_cases:
  assumes "on_call_tool fr str_exc srv (fabrica_facade check po) access name args (t, fab) = (r, (t', fab'))"
  shows "(\<exists>agent action x rr. resolve_agent_id srv access = Inr agent \<and> call_action name args = Some action \<and>
      xr_agent_id x = agent \<and> xr_action x = action \<and> xr_scope x = agent_scope agent \<and>
      execute_outcome check (po_sandbox po) (po_wakes po) x (fab_exec fab) = (rr, fab_exec fab') \<and>
      (succeeded r \<longrightarrow> (\<exists>v. rr = Inr v))) \<or>
    fab_exec fab' = fab_exec fab \<and> (runs_code name \<longrightarrow> \<not> succeeded r)"
proof (cases "\<exists>handler agent. tool_handler (fabrica_facade check po) name = Some handler \<and> resolve_agent_id srv access = Inr agent \<and>
    kwargs_ok (case args of None \<Rightarrow> [] | Some d \<Rightarrow> d)")
  case False
  with assms show ?thesis
    by (auto simp: on_call_tool_def Let_def succeeded_def split: option.splits sum.splits if_splits)
next
  case True
  define kwargs where "kwargs = (case args of None \<Rightarrow> [] | Some d \<Rightarrow> d)"
  from True obtain handler agent where h: "tool_handler (fabrica_facade check po) name = Some handler"
    "resolve_agent_id srv access = Inr agent" "kwargs_ok kwargs" by (auto simp: kwargs_def)
  obtain v t1 f1 where v: "handler agent kwargs (t, fab) = (v, (t1, f1))" by (metis prod.exhaust)
  from assms h v have f1: "f1 = fab'" and s: "succeeded r \<Longrightarrow> \<exists>y. v = Inr y"
    by (auto simp: on_call_tool_def Let_def succeeded_def kwargs_def [symmetric] split: sum.splits if_splits)
  show ?thesis
  proof (cases "runs_code name")
    case False
    with h(1) v f1 show ?thesis
      by (auto simp: tool_handler_def runs_code_def dest!: find_call_leaves memory_call_leaves simp del: u_simps split: if_splits)
  next
    case True
    then consider (code) "name = u ''fabrica_run_code''" | (skill) "name = u ''fabrica_run_skill''"
      by (auto simp: runs_code_def)
    then show ?thesis
    proof cases
      case code
      with h(1) have "handler = handle_run_code (fabrica_facade check po)" by (simp add: tool_handler_def)
      from run_code_call [OF v [unfolded this]] h(2) s f1 code show ?thesis
        by (auto simp: call_action_def simp del: u_simps dest!: shown_Inr)
    next
      case skill
      with h(1) have "handler = handle_run_skill (fabrica_facade check po)" by (simp add: tool_handler_def)
      note run = run_skill_call [OF v [unfolded this], unfolded f1]
      have "call_action name args = Some (u ''skill_run:'' @ n)" if "dict_get kwargs (u ''name'') = Some (PStr n)" for n
        using skill that by (cases args) (auto simp: call_action_def kwargs_def)
      with run h(2) s show ?thesis by (blast dest: shown_Inr)
    qed
  qed
qed

section \<open>No external code without an answer of the service\<close>

context grant_source
begin

lemma external_call_needs_allow:
  assumes "on_call_tool fr str_exc srv (fabrica_facade check po) access name args (t, fab) = (r, (t', fab'))"
    and "sandboxes_differ fab fab' \<or> runs_code name \<and> succeeded r"
  shows "\<exists>agent action. resolve_agent_id srv access = Inr agent \<and> call_action name args = Some action \<and>
    answers agent action (agent_scope agent) (ew_client (fab_exec fab)) Allow"
proof -
  from external_call_cases [OF assms(1)] assms(2) obtain x rr agent action where
    x: "resolve_agent_id srv access = Inr agent" "call_action name args = Some action" "xr_agent_id x = agent"
      "xr_action x = action" "xr_scope x = agent_scope agent"
    and run: "execute_outcome check (po_sandbox po) (po_wakes po) x (fab_exec fab) = (rr, fab_exec fab')"
    and s: "succeeded r \<longrightarrow> (\<exists>v. rr = Inr v)"
    by auto
  from assms(2) s obtain v where "sandboxes_differ fab fab' \<or> rr = Inr v" by blast
  then have "ew_pool (fab_exec fab') \<noteq> ew_pool (fab_exec fab) \<or> ew_tools (fab_exec fab') \<noteq> ew_tools (fab_exec fab) \<or> rr = Inr v"
    by blast
  from outcome_needs_allow [OF run this] x show ?thesis by auto
qed

end

text \<open>A call on the service's client, and a sequence of calls with the Fabrica each of them found and left.\<close>

record ('p, 'f, 'b, 't, 's, 'c, 'q) ext_call =
  ec_now1 :: real
  ec_now2 :: real
  ec_ports :: "('p, 'f, 'b, 't, 's, 'c, 'q) ports"
  ec_access :: "access_token option"
  ec_name :: pystr
  ec_args :: "pydict option"

definition external_call ::
    "(real \<Rightarrow> pystr) \<Rightarrow> (exc \<Rightarrow> pystr) \<Rightarrow> mcp_server \<Rightarrow> ('n, 'r) http_api \<Rightarrow> ('p, 'f, 'b, 't, 'd long_term_state, 'c, 'd prompt_state) ext_call
     \<Rightarrow> tracer \<times> ('p, 'f, 'n rest_client client, 'b, 't, 'd long_term_state, 'c, 'd prompt_state) fabrica
     \<Rightarrow> call_reply result \<times> (tracer \<times> ('p, 'f, 'n rest_client client, 'b, 't, 'd long_term_state, 'c, 'd prompt_state) fabrica)" where
  "external_call fr str_exc srv api k =
     on_call_tool fr str_exc srv (fabrica_facade (client_check (rest_check_grant api (ec_now1 k) (ec_now2 k))) (ec_ports k))
       (ec_access k) (ec_name k) (ec_args k)"

primrec external_run ::
    "(real \<Rightarrow> pystr) \<Rightarrow> (exc \<Rightarrow> pystr) \<Rightarrow> mcp_server \<Rightarrow> ('n, 'r) http_api \<Rightarrow> ('p, 'f, 'b, 't, 'd long_term_state, 'c, 'd prompt_state) ext_call list
     \<Rightarrow> tracer \<times> ('p, 'f, 'n rest_client client, 'b, 't, 'd long_term_state, 'c, 'd prompt_state) fabrica
     \<Rightarrow> (('p, 'f, 'b, 't, 'd long_term_state, 'c, 'd prompt_state) ext_call \<times> ('p, 'f, 'n rest_client client, 'b, 't, 'd long_term_state, 'c, 'd prompt_state) fabrica \<times>
         call_reply result \<times> ('p, 'f, 'n rest_client client, 'b, 't, 'd long_term_state, 'c, 'd prompt_state) fabrica) list" where
  "external_run fr str_exc srv api [] w = []"
| "external_run fr str_exc srv api (k # ks) w =
     (case external_call fr str_exc srv api k w of
        (r, w') \<Rightarrow> (k, snd w, r, snd w') # external_run fr str_exc srv api ks w')"

definition has_service :: "('p, 'f, 'n client, 'b, 't, 's, 'c, 'q) fabrica \<Rightarrow> bool" where
  "has_service fab \<longleftrightarrow> (case ew_client (fab_exec fab) of NullPresidium \<Rightarrow> False | Presidium _ \<Rightarrow> True)"

lemma call_keeps_service:
  assumes "external_call fr str_exc srv api k (t, fab) = (r, (t', fab'))" "has_service fab"
  shows "has_service fab'"
proof -
  from external_call_cases [OF assms(1) [unfolded external_call_def]]
  show ?thesis
  proof (elim disjE exE conjE)
    fix x rr
    assume "execute_outcome (client_check (rest_check_grant api (ec_now1 k) (ec_now2 k))) (po_sandbox (ec_ports k)) (po_wakes (ec_ports k))
        x (fab_exec fab) = (rr, fab_exec fab')"
    from outcome_client [OF this] assms(2) show ?thesis
      by (auto simp: has_service_def client_check_def split: client.splits prod.splits)
  next
    assume "fab_exec fab' = fab_exec fab"
    with assms(2) show ?thesis by (simp add: has_service_def)
  qed
qed

lemma run_keeps_service:
  "(k, f, r, f') \<in> set (external_run fr str_exc srv api ks (t, fab)) \<Longrightarrow> has_service fab \<Longrightarrow>
   has_service f \<and> (\<exists>ta ta'. external_call fr str_exc srv api k (ta, f) = (r, (ta', f')))"
proof (induction ks arbitrary: t fab)
  case (Cons j ks)
  obtain q t1 fab1 where c: "external_call fr str_exc srv api j (t, fab) = (q, (t1, fab1))" by (metis prod.exhaust)
  with Cons.IH [of t1 fab1] call_keeps_service [OF c Cons.prems(2)] Cons.prems show ?case by auto
qed simp

text \<open>The object graph of a bridge that was not told to allow ungoverned use asks the client it was given.\<close>

lemma governed_build:
  assumes "new_bridge service summarizer client False runtime store supervisor warm mx backend = Inr b"
    and "bridge_build ss chosen tools0 b = (Inr fab, b')"
  shows "has_service fab"
proof -
  from assms(1) obtain g where "br_client b = Some g" "br_built b = None"
    by (auto simp: new_bridge_def split: if_splits)
  with assms(2) show ?thesis
    by (auto simp: bridge_build_def assemble_def Let_def has_service_def split: prod.splits sum.splits)
qed

text \<open>C2: no external caller runs code the governance service did not allow. On the object graph that a bridge builds
  when it was not told to allow ungoverned use, in every sequence of MCP tool calls with whatever names, arguments
  and access tokens: a call changes the pool or what the tools act on, or gets a result from one of the two tools
  that run code, only if the service itself answered \<^verbatim>\<open>allow\<close>, during this call, to the agent the connection
  resolved to, for that agent's own scope and the action of the call.\<close>

theorem external_code_needs_allow:
  assumes "new_bridge service summarizer client False runtime store supervisor warm mx backend = Inr b"
    and "bridge_build ss chosen tools0 b = (Inr fab, b')"
    and "(k, f, r, f') \<in> set (external_run fr str_exc srv api ks (t, fab))"
    and "sandboxes_differ f f' \<or> runs_code (ec_name k) \<and> succeeded r"
  shows "\<exists>agent action g. resolve_agent_id srv (ec_access k) = Inr agent \<and> call_action (ec_name k) (ec_args k) = Some action \<and>
    ew_client (fab_exec f) = Presidium g \<and> rest_answers api (ec_now1 k) agent action (agent_scope agent) g Allow"
proof -
  from run_keeps_service [OF assms(3) governed_build [OF assms(1,2)]] obtain ta ta' where
    s: "has_service f" and c: "external_call fr str_exc srv api k (ta, f) = (r, (ta', f'))" by blast
  from governed.external_call_needs_allow [OF c [unfolded external_call_def] assms(4)] s show ?thesis
    by (auto simp: has_service_def client_answers_def split: client.splits)
qed

section \<open>A call to try the property on\<close>

definition demo_ports :: "('b, 't) sandbox \<Rightarrow> (keyword_state, keyword_state, 'b, 't, memory_state + pydict option persisted_memory,
    unit option, prompts + pydict option persisted_prompts) ports" where
  "demo_ports sb =
     \<lparr>po_primary = keyword_backend demo_bm25, po_fallback = keyword_backend demo_bm25, po_sandbox = sb,
      po_hexdigest = (\<lambda>_. []), po_elapsed = 0, po_latency = 0, po_wakes = no_waits, po_read_text = (\<lambda>_ _. Inr []),
      po_float_text = (\<lambda>_. []), po_str_time = (\<lambda>_. []),
      po_long_term = either_long_term False (in_memory_api (\<lambda>_ _. Inr []) [117] demo_now)
        (persisted_api dict_blob (\<lambda>_ _. Inr []) [117] demo_now),
      po_prompts = either_prompts (in_memory_prompt_api demo_now) (persisted_prompt_api dict_blob demo_now),
      po_find_other = (\<lambda>_ _. io_raise (raised AttributeError [])),
      po_write_other = (\<lambda>_ _ _. io_raise (raised AttributeError [])),
      po_search_other = (\<lambda>_ _ _. io_raise (raised AttributeError []))\<rparr>"

definition demo_server :: mcp_server where
  "demo_server =
     \<lparr>sv_transport = \<lparr>tc_http = False, tc_host = None, tc_port = None, tc_authenticator = None, tc_stdio_agent_id = [97]\<rparr>,
      sv_stopped = False, sv_uvicorn = None\<rparr>"

definition demo_call :: "(keyword_state, keyword_state, nat, unit, memory_state + pydict option persisted_memory, unit option,
    prompts + pydict option persisted_prompts) ext_call" where
  "demo_call =
     \<lparr>ec_now1 = 0, ec_now2 = 0, ec_ports = demo_ports numbering, ec_access = None, ec_name = u ''fabrica_run_code'',
      ec_args = Some [(u ''code'', PStr [49])]\<rparr>"

lemma demo_code_runs:
  assumes "check [97] (u ''code_mode'') (agent_scope [97]) p = (Inr g, p')" "gr_decision g = Allow"
  shows "\<exists>v w'. execute_outcome check numbering no_waits (code_request tools [49] [97] (agent_scope [97]) tmo None) (demo_world p) = (Inr v, w')"
proof -
  have "on_client (check [97] (u ''code_mode'') (agent_scope [97])) (demo_world p) = (Inr g, demo_world p')"
    using assms(1) by (simp add: demo_world_def on_client_def)
  moreover have "refusal g = None" using assms(2) by (simp add: refusal_None)
  moreover have "\<exists>v w'. sandboxed_outcome numbering no_waits (code_request tools [49] [97] (agent_scope [97]) tmo None) (demo_world p')
      = (Inr v, w')"
    by (simp add: sandboxed_outcome_def run_and_release_def demo_world_def first_world_def new_pool_def
        acquire_loop.simps try_acquire_def cold_start_def on_backend_def numbering_def pl_release_def
        finish_release_def code_request_def del: u_simps)
  moreover have "utf8_encode [49] = Inr [49]"
    by (simp add: utf8_encode_def is_surrogate_def utf8_char_def)
  ultimately show ?thesis by (simp add: execute_outcome_def code_request_def del: u_simps)
qed

definition demo_fabrica :: "(keyword_state, keyword_state, nat rest_client client, nat, unit,
    memory_state + pydict option persisted_memory, unit option, prompts + pydict option persisted_prompts) fabrica" where
  "demo_fabrica =
     \<lparr>fab_retriever = new_retriever [] [], fab_tools = [], fab_skills = [],
      fab_exec = demo_world (Presidium (new_rest_client (u ''http://p/'') 0 5 30)),
      fab_memory = \<lparr>mm_working = new_working_memory default_quota_bytes, mm_long_term = Inl [], mm_compactor = None\<rparr>,
      fab_prompts = new_prompt_manager (Inl [])\<rparr>"

definition demo_states :: "pydict option state_store" where
  "demo_states =
     \<lparr>ss_get = (\<lambda>_ d. (Inr d, d)), ss_set = (\<lambda>_ v _. (Inr (), Some v)), ss_delete = (\<lambda>_ _. (Inr (), None))\<rparr>"

lemma demo_build:
  "\<exists>b b'. new_bridge False (None :: unit option) (Some (new_rest_client (u ''http://p/'') 0 5 30)) False None
      (None :: pydict option option) None 1 1 (Some 1) = Inr b \<and>
    bridge_build ss 0 () b = (Inr demo_fabrica, b')"
  by (simp add: new_bridge_def bridge_build_def open_stores_def assemble_def Let_def demo_fabrica_def demo_world_def first_world_def
      default_acquire_timeout_def del: u_simps)

lemma demo_call_succeeds:
  "\<exists>r w'. external_call (\<lambda>_. []) (\<lambda>_. []) demo_server allow_api demo_call (null_tracer, demo_fabrica) = (r, w') \<and> succeeded r"
proof -
  let ?c = "client_check (rest_check_grant allow_api 0 0)"
  let ?p = "Presidium (new_rest_client (u ''http://p/'') 0 5 30)"
  obtain rr ta x where run: "tm_run_code ?c numbering (\<lambda>_. []) 0 no_waits (tools_of demo_fabrica) [49] [97] (agent_scope [97])
      default_run_timeout None (null_tracer, demo_world ?p) = (rr, (ta, x))" by (metis prod.exhaust)
  have "?c [97] (u ''code_mode'') (agent_scope [97]) ?p = (Inr \<lparr>gr_decision = Allow, gr_reason = PNone, gr_approval_context = PNone\<rparr>,
      Presidium (new_rest_client (u ''http://p/'') 1 5 30))"
    by (simp add: client_check_def allow_api_grants del: u_simps)
  from demo_code_runs [of ?c, OF this, of "tm_tools (tools_of demo_fabrica)" default_run_timeout]
    execute_implements [OF run [unfolded tm_run_code_def]]
  obtain v where v: "rr = Inr v" by auto
  have "facade_run_code ?c (demo_ports numbering) (PStr [49]) [97] (agent_scope [97]) (null_tracer, demo_fabrica) =
      (Inr (asdict_run_result v), (ta, demo_fabrica\<lparr>fab_exec := x\<rparr>))"
    using run v
    by (simp add: facade_run_code_def shown_def on_exec_def io_zoom_def demo_ports_def demo_fabrica_def del: u_simps)
  then show ?thesis
    by (simp add: external_call_def demo_call_def on_call_tool_def tool_handler_def resolve_agent_id_def demo_server_def
        handle_run_code_def required_def and_then_def fabrica_facade_def kwargs_ok_def Let_def succeeded_def)
qed

lemma external_code_needs_allow_witness:
  "\<exists>g. rest_answers allow_api 0 [97] (u ''code_mode'') (agent_scope [97]) g Allow"
proof -
  obtain b b' where b: "new_bridge False (None :: unit option) (Some (new_rest_client (u ''http://p/'') 0 5 30)) False None
      (None :: pydict option option) None 1 1 (Some 1) = Inr b"
    "bridge_build demo_states 0 () b = (Inr demo_fabrica, b')"
    using demo_build by blast
  obtain r t f where c: "external_call (\<lambda>_. []) (\<lambda>_. []) demo_server allow_api demo_call (null_tracer, demo_fabrica) = (r, (t, f))"
    and s: "succeeded r" using demo_call_succeeds by (metis prod.exhaust)
  from external_code_needs_allow [OF b, of demo_call demo_fabrica r f "\<lambda>_. []" "\<lambda>_. []" demo_server allow_api "[demo_call]" null_tracer]
    c s show ?thesis
    by (auto simp: demo_call_def runs_code_def resolve_agent_id_def demo_server_def call_action_def)
qed

end
