(* ===== verification/FirecrackerWire.thy ===== *)
theory FirecrackerWire
  imports ShimRunner PromptStore
begin

text \<open>
  Tier 2 on the wire: the framing of the messages (\<^verbatim>\<open>_send\<close>, \<^verbatim>\<open>_recv\<close>, \<^verbatim>\<open>_recv_exact\<close>), the guest shim that
  runs as the first process of the machine (\<^verbatim>\<open>_firecracker_guest_shim.py\<close>) and
  \<^verbatim>\<open>FirecrackerSandbox.execute\<close>. Reading JSON bytes is the parameter \<open>loads\<close>, the spelling of a float the
  parameter \<open>fr\<close>; the times decide the races as they do for the other tiers.
\<close>

section \<open>Framing\<close>

text \<open>\<^verbatim>\<open>struct.pack(">I", n)\<close> and \<^verbatim>\<open>struct.unpack\<close>; the text of \<^verbatim>\<open>json.dumps\<close> is ASCII, so encoding it changes
  nothing.\<close>

definition pack_u32 :: "nat \<Rightarrow> nat list result" where
  "pack_u32 n =
     (if n < 2 ^ 32 then Inr [n div 2 ^ 24, n div 2 ^ 16 mod 256, n div 2 ^ 8 mod 256, n mod 256]
      else Inl (raised StructError []))"

definition unpack_u32 :: "nat list \<Rightarrow> nat" where
  "unpack_u32 bs = foldl (\<lambda>n b. n * 256 + b) 0 bs"

definition fc_frame :: "(real \<Rightarrow> pystr) \<Rightarrow> pyval \<Rightarrow> nat list result" where
  "fc_frame fr msg =
     rbind (pack_u32 (length (json_dumps fr msg))) (\<lambda>header. Inr (header @ json_dumps fr msg))"

text \<open>\<^verbatim>\<open>sock.recv(n)\<close> delivers what there is, at most \<open>n\<close> bytes, and nothing once the peer has closed.\<close>

fun recv_exact :: "nat \<Rightarrow> nat list list \<Rightarrow> nat list result \<times> nat list list" where
  "recv_exact n [] = (if n = 0 then Inr [] else Inl (raised ConnectionError []), [])"
| "recv_exact n (c # cs) =
     (if n = 0 then (Inr [], c # cs)
      else if c = [] then (Inl (raised ConnectionError []), cs)
      else if length c \<le> n then
        (case recv_exact (n - length c) cs of (r, rest) \<Rightarrow> (map_sum id (\<lambda>bs. c @ bs) r, rest))
      else (Inr (take n c), drop n c # cs))"

definition fc_recv :: "(nat list \<Rightarrow> pyval result) \<Rightarrow> nat list list \<Rightarrow> pyval result \<times> nat list list" where
  "fc_recv loads cs =
     (case recv_exact 4 cs of
        (Inl e, cs') \<Rightarrow> (Inl e, cs')
      | (Inr header, cs') \<Rightarrow>
          (case recv_exact (unpack_u32 header) cs' of
             (Inl e, cs'') \<Rightarrow> (Inl e, cs'')
           | (Inr body, cs'') \<Rightarrow> (loads body, cs'')))"

primrec fc_recvs :: "(nat list \<Rightarrow> pyval result) \<Rightarrow> nat \<Rightarrow> nat list list \<Rightarrow> pyval list result \<times> nat list list" where
  "fc_recvs loads 0 cs = (Inr [], cs)"
| "fc_recvs loads (Suc n) cs =
     (case fc_recv loads cs of
        (Inl e, cs') \<Rightarrow> (Inl e, cs')
      | (Inr m, cs') \<Rightarrow> (case fc_recvs loads n cs' of (r, cs'') \<Rightarrow> (map_sum id (\<lambda>ms. m # ms) r, cs'')))"

lemma unpack_pack:
  assumes "pack_u32 n = Inr header"
  shows "unpack_u32 header = n \<and> length header = 4"
proof -
  have "n div 2 ^ 24 = n div 2 ^ 8 div 2 ^ 8 div 2 ^ 8" "n div 2 ^ 16 = n div 2 ^ 8 div (2 ^ 8 :: nat)"
    by (simp_all add: div_mult2_eq [symmetric])
  with assms show ?thesis by (auto simp: pack_u32_def unpack_u32_def split: if_splits)
qed

lemma recv_exact_concat:
  assumes "[] \<notin> set cs" "concat cs = bs @ rest" "length bs = n"
  shows "\<exists>cs'. recv_exact n cs = (Inr bs, cs') \<and> [] \<notin> set cs' \<and> concat cs' = rest"
  using assms
proof (induction n cs arbitrary: bs rule: recv_exact.induct)
  case (2 n c cs)
  show ?case
  proof (cases "n \<noteq> 0 \<and> length c \<le> n")
    case True
    then have bs: "bs = c @ drop (length c) bs" "concat cs = drop (length c) bs @ rest"
      using 2(3,4) by (auto simp: append_eq_append_conv2)
    obtain cs' where "recv_exact (n - length c) cs = (Inr (drop (length c) bs), cs')" "[] \<notin> set cs'" "concat cs' = rest"
      using 2(1) [of "drop (length c) bs"] True 2(2-4) bs(2) by auto
    with True bs(1) 2(2) show ?thesis by auto
  next
    case False
    then show ?thesis using 2(2-4) by (auto simp: append_eq_append_conv2 intro!: exI)
  qed
qed auto

lemma fc_recv_frame:
  assumes "fc_frame fr m = Inr bytes" "loads (json_dumps fr m) = Inr m"
    and "[] \<notin> set cs" "concat cs = bytes @ rest"
  shows "\<exists>cs'. fc_recv loads cs = (Inr m, cs') \<and> [] \<notin> set cs' \<and> concat cs' = rest"
proof -
  from assms(1) obtain header where h: "pack_u32 (length (json_dumps fr m)) = Inr header"
    and bytes: "bytes = header @ json_dumps fr m"
    by (cases "pack_u32 (length (json_dumps fr m))") (auto simp: fc_frame_def)
  have n: "unpack_u32 header = length (json_dumps fr m)" "length header = 4" using unpack_pack [OF h] by auto
  obtain ds where d: "recv_exact 4 cs = (Inr header, ds)" "[] \<notin> set ds" "concat ds = json_dumps fr m @ rest"
    using recv_exact_concat [OF assms(3) _ n(2)] assms(4) bytes by auto
  from recv_exact_concat [OF d(2,3) refl] d(1) n(1) assms(2) show ?thesis by (auto simp: fc_recv_def)
qed

lemma fc_recvs_frames:
  assumes "list_all2 (\<lambda>m b. fc_frame fr m = Inr b) ms bs" "\<forall>m \<in> set ms. loads (json_dumps fr m) = Inr m"
    and "[] \<notin> set cs" "concat cs = concat bs @ rest"
  shows "\<exists>cs'. fc_recvs loads (length ms) cs = (Inr ms, cs') \<and> [] \<notin> set cs' \<and> concat cs' = rest"
  using assms
proof (induction ms bs arbitrary: cs rule: list_all2_induct)
  case (Cons m ms b bs)
  from fc_recv_frame [OF Cons(1), of loads cs "concat bs @ rest"] Cons(4-6)
  obtain ds where ds: "fc_recv loads cs = (Inr m, ds)" "[] \<notin> set ds" "concat ds = concat bs @ rest" by auto
  with Cons.IH [OF _ ds(2,3)] Cons(4) show ?case by auto
qed auto

section \<open>The guest\<close>

text \<open>What the host sees of a machine: a message, after which it reads the answer; a lost connection; silence.\<close>

datatype vm =
    Says real "nat list" "pyval \<Rightarrow> vm"
  | Gone real
  | Mute

definition tool_message :: "pystr \<Rightarrow> pydict \<Rightarrow> pyval" where
  "tool_message tool params =
     PDict [(u ''type'', PStr (u ''tool_call'')), (u ''tool'', PStr tool), (u ''params'', PDict params)]"

definition result_message :: "pystr \<Rightarrow> pystr option \<Rightarrow> nat \<Rightarrow> pyval" where
  "result_message out msg n =
     PDict [(u ''type'', PStr (u ''result'')), (u ''success'', PBool (msg = None)), (u ''stdout'', PStr out),
            (u ''error_message'', opt_val msg), (u ''tool_call_count'', PInt (int n))]"

text \<open>The dictionary \<^verbatim>\<open>call()\<close> gives the program; the host sends the three keys with every answer.\<close>

definition picked :: "pyval \<Rightarrow> pyval" where
  "picked reply =
     (case reply of
        PDict d \<Rightarrow> PDict (map (\<lambda>k. (k, dict_get_or d k PNone)) [u ''success'', u ''value'', u ''error_message''])
      | v \<Rightarrow> v)"

text \<open>\<^verbatim>\<open>main()\<close>: the first process of a machine that ends takes the machine with it; what the program leaves
  on its error stream goes to the console. Parameters of a call are taken to fit a frame.\<close>

primrec fc_guest :: "(real \<Rightarrow> pystr) \<Rightarrow> prog \<Rightarrow> nat \<Rightarrow> vm" where
  "fc_guest fr (Finish d out err msg) n =
     (case fc_frame fr (result_message out msg n) of
        Inl e \<Rightarrow> Gone d
      | Inr bytes \<Rightarrow> Says d (json_dumps fr (result_message out msg n)) (\<lambda>reply. Mute))"
| "fc_guest fr (Abort d err) n = Gone d"
| "fc_guest fr (CallTool d tool params k) n =
     Says d (json_dumps fr (tool_message tool params)) (\<lambda>reply. fc_guest fr (k (picked reply)) (Suc n))"
| "fc_guest fr Forever n = Mute"

text \<open>From the message with the code on: what \<^verbatim>\<open>compile\<close> and \<^verbatim>\<open>exec\<close> do with a text is the parameter \<open>python\<close>;
  \<^verbatim>\<open>compile\<close> takes nothing else that JSON can carry. A message without code ends the process.\<close>

definition fc_main :: "(real \<Rightarrow> pystr) \<Rightarrow> (pystr \<Rightarrow> prog) \<Rightarrow> pyval \<Rightarrow> vm" where
  "fc_main fr python request =
     (case subscript request (u ''code'') of
        Inl e \<Rightarrow> Gone 0
      | Inr (PStr code) \<Rightarrow> fc_guest fr (python code) 0
      | Inr v \<Rightarrow>
          fc_guest fr (Finish 0 [] [] (Some (u ''TypeError: compile() arg 1 must be a string, bytes or AST object''))) 0)"

text \<open>\<^verbatim>\<open>_connect_send_ready_and_wait_for_code()\<close>: what each attempt comes to is the argument; with the
  answer, how many attempts there were and how often it slept.\<close>

definition max_reconnect_attempts :: nat where "max_reconnect_attempts = 200"

function connect_guest :: "(nat \<Rightarrow> 'm result) \<Rightarrow> nat \<Rightarrow> nat \<Rightarrow> 'm result \<times> nat \<times> nat" where
  "connect_guest att attempt slept =
     (case att (attempt + 1) of
        Inr m \<Rightarrow> (Inr m, attempt + 1, slept)
      | Inl e \<Rightarrow>
          if exc_isa OSError e \<and> attempt + 1 < max_reconnect_attempts
          then connect_guest att (attempt + 1) (if attempt + 1 > 3 then slept + 1 else slept)
          else (Inl e, attempt + 1, slept))"
  by pat_completeness auto
termination
  by (relation "measure (\<lambda>(att, attempt, slept). max_reconnect_attempts - attempt)") auto

declare connect_guest.simps [simp del]

section \<open>The host\<close>

definition tool_reply :: "pydict \<Rightarrow> pyval result" where
  "tool_reply r =
     rbind (subscript (PDict r) (u ''success'')) (\<lambda>ok.
     rbind (subscript (PDict r) (u ''value'')) (\<lambda>v.
     rbind (subscript (PDict r) (u ''error_message'')) (\<lambda>msg.
       Inr (PDict [(u ''type'', PStr (u ''tool_result'')), (u ''success'', ok), (u ''value'', v), (u ''error_message'', msg)]))))"

datatype vm_end = Told pydict nat | Late | Failed exc

definition unserved :: "served \<Rightarrow> vm_end" where
  "unserved s = (case s of ServeFailed e \<Rightarrow> Failed e | _ \<Rightarrow> Late)"

text \<open>The three fields of the last message, read before the loop returns.\<close>

definition told_fields :: "pyval \<Rightarrow> pydict result" where
  "told_fields m =
     rbind (subscript m (u ''stdout'')) (\<lambda>out.
     rbind (subscript m (u ''success'')) (\<lambda>ok.
     rbind (subscript m (u ''error_message'')) (\<lambda>msg.
       Inr [(u ''stdout'', out), (u ''success'', ok), (u ''error_message'', msg)])))"

text \<open>The loop of \<^verbatim>\<open>_run\<close>.\<close>

primrec fc_serve ::
    "(real \<Rightarrow> pystr) \<Rightarrow> (nat list \<Rightarrow> pyval result) \<Rightarrow> vm \<Rightarrow> 't tool_callback \<Rightarrow> (pystr \<Rightarrow> pydict \<Rightarrow> 't \<Rightarrow> real) \<Rightarrow> real
     \<Rightarrow> real option \<Rightarrow> nat \<Rightarrow> 't \<Rightarrow> vm_end \<times> 't" where
  "fc_serve fr loads (Says d body k) cb cost left limit n t =
     (if d > left then (Late, t)
      else (case loads body of
              Inl e \<Rightarrow> (Failed e, t)
            | Inr m \<Rightarrow>
                (case subscript m (u ''type'') of
                   Inl e \<Rightarrow> (Failed e, t)
                 | Inr ty \<Rightarrow>
                     if ty = PStr (u ''tool_call'') then
                       (case read_request m of
                          Inl e \<Rightarrow> (Failed e, t)
                        | Inr (tool, params) \<Rightarrow>
                            (case serve_call cb cost (left - d) limit tool params t of
                               (Inl s, t') \<Rightarrow> (unserved s, t')
                             | (Inr (reply, c), t') \<Rightarrow>
                                 (case rbind (tool_reply reply) (\<lambda>a. rbind (fc_frame fr a) (\<lambda>bytes. Inr a)) of
                                    Inl e \<Rightarrow> (Failed e, t')
                                  | Inr a \<Rightarrow> fc_serve fr loads (k a) cb cost (left - d - c) limit (Suc n) t')))
                     else if ty = PStr (u ''result'') then
                       (case told_fields m of Inl e \<Rightarrow> (Failed e, t) | Inr fs \<Rightarrow> (Told fs n, t))
                     else (Failed crashed, t))))"
| "fc_serve fr loads (Gone d) cb cost left limit n t =
     (if d > left then (Late, t) else (Failed (raised IncompleteReadError []), t))"
| "fc_serve fr loads Mute cb cost left limit n t = (Late, t)"

text \<open>The handlers around the loop.\<close>

definition fc_handled :: "exc \<Rightarrow> exc" where
  "fc_handled e =
     (if exc_isa TimeoutError e then run_timeout
      else if exc_isa IncompleteReadError e \<or> exc_isa ConnectionError e then crashed
      else e)"

text \<open>The output is cut by its bytes. A success or a message of another type is read as its truth value
  and as none; an output that is no string has no \<^verbatim>\<open>encode\<close>.\<close>

definition fc_result :: "pydict \<Rightarrow> nat \<Rightarrow> real \<times> real \<times> real \<Rightarrow> run_result result" where
  "fc_result fs n used =
     (case dict_get_or fs (u ''stdout'') PNone of
        PStr out \<Rightarrow>
          rbind (utf8_encode out) (\<lambda>bs.
            Inr \<lparr>rr_success = py_truthy (dict_get_or fs (u ''success'') PNone),
                 rr_stdout = (if int (length bs) > max_stdout_bytes then utf8_decode (slice_to max_stdout_bytes bs) else out),
                 rr_stdout_truncated = (int (length bs) > max_stdout_bytes),
                 rr_error_message = (case dict_get_or fs (u ''error_message'') PNone of PStr s \<Rightarrow> Some s | _ \<Rightarrow> None),
                 rr_cpu_seconds = max 0 (fst (snd used) - fst used), rr_duration_ms = snd (snd used),
                 rr_tool_call_count = int n\<rparr>)
      | _ \<Rightarrow> Inl (raised AttributeError []))"

text \<open>\<^verbatim>\<open>execute\<close> on the machine of a live instance; \<open>used\<close> holds the processor times before and after and the
  duration. A time limit that is not positive ends the run before it starts.\<close>

definition fc_execute ::
    "(real \<Rightarrow> pystr) \<Rightarrow> (nat list \<Rightarrow> pyval result) \<Rightarrow> real \<times> real \<times> real \<Rightarrow> (pyval \<Rightarrow> vm) \<Rightarrow> pystr \<Rightarrow> 't tool_callback
     \<Rightarrow> (pystr \<Rightarrow> pydict \<Rightarrow> 't \<Rightarrow> real) \<Rightarrow> real \<Rightarrow> real option \<Rightarrow> 't \<Rightarrow> run_result result \<times> 't" where
  "fc_execute fr loads used machine code cb cost tmo limit t =
     (if tmo \<le> 0 then (Inl run_timeout, t)
      else (let request = PDict [(u ''type'', PStr (u ''code'')), (u ''code'', PStr code)] in
            case fc_frame fr request of
              Inl e \<Rightarrow> (Inl (fc_handled e), t)
            | Inr bytes \<Rightarrow>
                (case fc_serve fr loads (machine request) cb cost tmo limit 0 t of
                   (Late, t') \<Rightarrow> (Inl run_timeout, t')
                 | (Failed e, t') \<Rightarrow> (Inl (fc_handled e), t')
                 | (Told fs n, t') \<Rightarrow> (fc_result fs n used, t'))))"

section \<open>The processor time of a machine\<close>

text \<open>\<^verbatim>\<open>_read_process_cpu_seconds\<close>: \<open>stat\<close> is what reading \<^verbatim>\<open>/proc/<pid>/stat\<close> gave, \<open>ticks\<close> the clock ticks of a
  second. The name of the command stands in parentheses and may hold spaces and parentheses itself.\<close>

definition after_last :: "nat \<Rightarrow> pystr \<Rightarrow> pystr option" where
  "after_last c s = (if c \<in> set s then Some (rev (takeWhile (\<lambda>x. x \<noteq> c) (rev s))) else None)"

function split_ws :: "pystr \<Rightarrow> pystr list" where
  "split_ws s =
     (let s' = dropWhile is_space s in
      if s' = [] then [] else takeWhile (\<lambda>x. \<not> is_space x) s' # split_ws (dropWhile (\<lambda>x. \<not> is_space x) s'))"
  by pat_completeness auto

termination
proof (relation "measure length")
  fix s s' :: pystr assume s': "s' = dropWhile is_space s" "s' \<noteq> []"
  then have "\<not> is_space (s' ! 0)" by (metis hd_conv_nth hd_dropWhile)
  then have "length (dropWhile (\<lambda>x. \<not> is_space x) s') < length s'"
    using s'(2) length_dropWhile_le [of "\<lambda>x. \<not> is_space x" "tl s'"] by (cases s') auto
  also have "\<dots> \<le> length s" unfolding s'(1) by (rule length_dropWhile_le)
  finally show "(dropWhile (\<lambda>x. \<not> is_space x) s', s) \<in> measure length" by simp
qed simp

declare split_ws.simps [simp del]

definition process_cpu_seconds :: "real \<Rightarrow> pystr result \<Rightarrow> real result" where
  "process_cpu_seconds ticks stat =
     (case stat of
        Inl e \<Rightarrow> if exc_isa OSError e \<or> exc_isa ValueError e then Inr 0 else Inl e
      | Inr line \<Rightarrow>
          (case after_last 41 line of
             None \<Rightarrow> Inr 0
           | Some rest \<Rightarrow>
               (let fields = split_ws rest in
                if length fields \<le> 12 then Inr 0
                else (case (read_int (fields ! 11), read_int (fields ! 12)) of
                        (Inr utime, Inr stime) \<Rightarrow> Inr ((of_int utime + of_int stime) / ticks)
                      | _ \<Rightarrow> Inr 0))))"

lemma after_last_append: "c \<notin> set rest \<Longrightarrow> after_last c (pre @ c # rest) = Some rest"
  by (simp add: after_last_def takeWhile_append)

text \<open>The name of a command cannot be taken for its times: the measurement depends only on what follows the parenthesis
  that closes the name.\<close>

lemma comm_cannot_confuse:
  assumes "41 \<notin> set rest"
  shows "process_cpu_seconds ticks (Inr (pid @ [32, 40] @ comm @ [41] @ rest)) = process_cpu_seconds ticks (Inr (41 # rest))"
  using after_last_append [OF assms, of "pid @ [32, 40] @ comm"] after_last_append [OF assms, of "[]"]
  by (simp add: process_cpu_seconds_def)

section \<open>The messages of a run\<close>

text \<open>An answer the host can send: the three keys every answer of the tool manager has, short enough for a
  frame.\<close>

definition reply_ok :: "(real \<Rightarrow> pystr) \<Rightarrow> pydict \<Rightarrow> bool" where
  "reply_ok fr reply \<longleftrightarrow>
     map fst reply = [u ''success'', u ''value'', u ''error_message''] \<and>
     length (json_dumps fr (PDict ((u ''type'', PStr (u ''tool_result'')) # reply))) < 2 ^ 32"

text \<open>The messages of this run fit their frames and are read back as they were written.\<close>

primrec readable ::
    "(real \<Rightarrow> pystr) \<Rightarrow> (nat list \<Rightarrow> pyval result) \<Rightarrow> prog \<Rightarrow> 't tool_callback \<Rightarrow> nat \<Rightarrow> 't \<Rightarrow> bool" where
  "readable fr loads (Finish d out err msg) cb n t \<longleftrightarrow>
     length (json_dumps fr (result_message out msg n)) < 2 ^ 32 \<and>
     loads (json_dumps fr (result_message out msg n)) = Inr (result_message out msg n)"
| "readable fr loads (Abort d err) cb n t \<longleftrightarrow> True"
| "readable fr loads Forever cb n t \<longleftrightarrow> True"
| "readable fr loads (CallTool d tool params k) cb n t \<longleftrightarrow>
     loads (json_dumps fr (tool_message tool params)) = Inr (tool_message tool params) \<and>
     (case cb tool params t of
        (Inl e, t') \<Rightarrow> True
      | (Inr reply, t') \<Rightarrow> reply_ok fr reply \<and> readable fr loads (k (PDict reply)) cb (Suc n) t')"

lemma fc_frame_short: "length (json_dumps fr m) < 2 ^ 32 \<Longrightarrow> \<exists>bytes. fc_frame fr m = Inr bytes"
  by (simp add: fc_frame_def pack_u32_def)

lemma reply_shape:
  assumes "reply_ok fr reply"
  shows "\<exists>a. tool_reply reply = Inr a \<and> picked a = PDict reply \<and> (\<exists>bytes. fc_frame fr a = Inr bytes)"
proof -
  obtain ok v msg where r: "reply = [(u ''success'', ok), (u ''value'', v), (u ''error_message'', msg)]"
    using assms by (auto simp: reply_ok_def map_eq_Cons_conv simp del: u_simps)
  then have "tool_reply reply = Inr (PDict ((u ''type'', PStr (u ''tool_result'')) # reply))"
    by (simp add: tool_reply_def subscript_def)
  moreover have "picked (PDict ((u ''type'', PStr (u ''tool_result'')) # reply)) = PDict reply"
    using r by (simp add: picked_def dict_get_or_def)
  moreover have "length (json_dumps fr (PDict ((u ''type'', PStr (u ''tool_result'')) # reply))) < 2 ^ 32"
    using assms unfolding reply_ok_def by blast
  then have "\<exists>bytes. fc_frame fr (PDict ((u ''type'', PStr (u ''tool_result'')) # reply)) = Inr bytes"
    by (rule fc_frame_short)
  ultimately show ?thesis by blast
qed

lemma message_fields:
  "subscript (tool_message tool params) (u ''type'') = Inr (PStr (u ''tool_call''))"
  "read_request (tool_message tool params) = Inr (tool, params)"
  "subscript (result_message out msg n) (u ''type'') = Inr (PStr (u ''result''))"
  "told_fields (result_message out msg n) =
     Inr [(u ''stdout'', PStr out), (u ''success'', PBool (msg = None)), (u ''error_message'', opt_val msg)]"
  "u ''result'' \<noteq> u ''tool_call''"
  by (simp_all add: subscript_def tool_message_def read_request_def result_message_def told_fields_def)

text \<open>One call of the guest, served in time.\<close>

lemma fc_serve_step:
  assumes "loads (json_dumps fr (tool_message tool params)) = Inr (tool_message tool params)" "reply_ok fr reply"
    and "serve_call cb cost (left - d) limit tool params t = (Inr (reply, c), t1)" "d \<le> left"
  shows "fc_serve fr loads (fc_guest fr (CallTool d tool params k) n) cb cost left limit n t =
    fc_serve fr loads (fc_guest fr (k (PDict reply)) (Suc n)) cb cost (left - d - c) limit (Suc n) t1"
proof -
  obtain a bytes where "tool_reply reply = Inr a" "picked a = PDict reply" "fc_frame fr a = Inr bytes"
    using reply_shape [OF assms(2)] by blast
  with assms show ?thesis by (simp add: message_fields del: u_simps)
qed

lemma fc_serve_guest:
  assumes "run_prog p cb n t = (Ended out msg m, t')" "in_time p cb cost left limit t" "readable fr loads p cb n t"
  shows "fc_serve fr loads (fc_guest fr p n) cb cost left limit n t =
    (Told [(u ''stdout'', PStr out), (u ''success'', PBool (msg = None)), (u ''error_message'', opt_val msg)] m, t')"
  using assms
proof (induction p arbitrary: n t left)
  case (Finish d out' err msg')
  then obtain bytes where "fc_frame fr (result_message out msg m) = Inr bytes" using fc_frame_short by fastforce
  with Finish show ?case by (simp add: message_fields del: u_simps)
next
  case (CallTool d tool params k)
  from CallTool.prems(1) obtain reply t1 where call: "cb tool params t = (Inr reply, t1)"
    and rest: "run_prog (k (PDict reply)) cb (Suc n) t1 = (Ended out msg m, t')"
    by (auto split: prod.splits sum.splits)
  from CallTool.prems(2) call have tm: "d \<le> left" "cost tool params t \<le> left - d"
    "case limit of None \<Rightarrow> True | Some l \<Rightarrow> 0 < l \<and> cost tool params t \<le> l"
    and rt: "in_time (k (PDict reply)) cb cost (left - d - cost tool params t) limit t1" by auto
  from CallTool.prems(3) call have rd: "loads (json_dumps fr (tool_message tool params)) = Inr (tool_message tool params)"
    "reply_ok fr reply" and rr: "readable fr loads (k (PDict reply)) cb (Suc n) t1" by auto
  have "serve_call cb cost (left - d) limit tool params t = (Inr (reply, cost tool params t), t1)"
    using serve_call_in_time [of cost tool params t "left - d" limit cb reply t1] tm(2,3) call by simp
  from fc_serve_step [where loads = loads and k = k and n = n, OF rd this tm(1)]
    CallTool.IH [OF rangeI rest rt rr] show ?case by simp
qed auto

lemma fc_serve_guest_failed:
  assumes "fst (fc_serve fr loads (fc_guest fr p n) cb cost left limit n t) = Failed e"
    and "readable fr loads p cb n t" "\<forall>tool params t. \<exists>reply. fst (cb tool params t) = Inr reply"
  shows "e = raised IncompleteReadError [] \<or> limit \<noteq> None \<and> e = tool_timeout"
  using assms(1,2)
proof (induction p arbitrary: n t left)
  case (Finish d out err msg)
  then obtain bytes where "fc_frame fr (result_message out msg n) = Inr bytes" using fc_frame_short by fastforce
  with Finish show ?case by (auto simp: message_fields simp del: u_simps split: if_splits)
next
  case (CallTool d tool params k)
  obtain reply t1 where call: "cb tool params t = (Inr reply, t1)" using assms(3) by (metis prod.collapse)
  with CallTool.prems(2) have rd: "loads (json_dumps fr (tool_message tool params)) = Inr (tool_message tool params)"
    "reply_ok fr reply" and rr: "readable fr loads (k (PDict reply)) cb (Suc n) t1" by auto
  show ?case
  proof (cases "d \<le> left")
    case True
    show ?thesis
    proof (cases "fst (serve_call cb cost (left - d) limit tool params t)")
      case (Inl s)
      with CallTool.prems(1) True rd(1) call show ?thesis
        by (auto simp: message_fields serve_call_def unserved_def simp del: u_simps split: prod.splits option.splits if_splits)
    next
      case (Inr rc)
      then obtain c where c: "serve_call cb cost (left - d) limit tool params t = (Inr (reply, c), t1)"
        using call by (auto simp: serve_call_def split: option.splits if_splits)
      from fc_serve_step [where loads = loads and k = k and n = n, OF rd c True] CallTool.prems(1)
        CallTool.IH [OF rangeI _ rr] show ?thesis by simp
    qed
  next
    case False
    with CallTool.prems(1) show ?thesis by simp
  qed
qed (auto split: if_splits)

lemma fc_serve_told:
  assumes "fst (fc_serve fr loads (fc_guest fr p n) cb cost left limit n t) = Told fs m"
    and "readable fr loads p cb n t" "\<forall>tool params t. \<exists>reply. fst (cb tool params t) = Inr reply"
  shows "\<exists>out. dict_get_or fs (u ''stdout'') PNone = PStr out"
  using assms(1,2)
proof (induction p arbitrary: n t left)
  case (Finish d out err msg)
  then obtain bytes where "fc_frame fr (result_message out msg n) = Inr bytes" using fc_frame_short by fastforce
  with Finish show ?case by (auto simp: message_fields dict_get_or_def simp del: u_simps split: if_splits)
next
  case (CallTool d tool params k)
  obtain reply t1 where call: "cb tool params t = (Inr reply, t1)" using assms(3) by (metis prod.collapse)
  with CallTool.prems(2) have rd: "loads (json_dumps fr (tool_message tool params)) = Inr (tool_message tool params)"
    "reply_ok fr reply" and rr: "readable fr loads (k (PDict reply)) cb (Suc n) t1" by auto
  have dl: "d \<le> left" using CallTool.prems(1) by (auto split: if_splits)
  have "\<exists>c. serve_call cb cost (left - d) limit tool params t = (Inr (reply, c), t1)"
  proof (cases "fst (serve_call cb cost (left - d) limit tool params t)")
    case (Inl s)
    with CallTool.prems(1) dl rd(1) show ?thesis
      by (auto simp: message_fields unserved_def simp del: u_simps split: prod.splits served.splits)
  qed (use call in \<open>auto simp: serve_call_def split: option.splits if_splits\<close>)
  then obtain c where "serve_call cb cost (left - d) limit tool params t = (Inr (reply, c), t1)" ..
  from fc_serve_step [where loads = loads and k = k and n = n, OF rd this dl] CallTool.prems(1)
    CallTool.IH [OF rangeI _ rr] show ?case by simp
qed (auto split: if_splits)

lemma fc_result_bounded:
  assumes "dict_get_or fs (u ''stdout'') PNone = PStr out"
  shows "case fc_result fs n used of
      Inl e \<Rightarrow> exc_isa UnicodeEncodeError e
    | Inr r \<Rightarrow> int (length (rr_stdout r)) \<le> max_stdout_bytes"
proof (cases "\<exists>c \<in> set out. is_surrogate c")
  case True
  with assms show ?thesis by (simp add: fc_result_def utf8_encode_def exc_simps)
next
  case False
  then obtain bytes where b: "utf8_encode out = Inr bytes" "length out \<le> length bytes"
    using utf8_len_ok [of out] by (auto simp: utf8_len_def utf8_encode_def)
  with assms limited_length [of bytes] show ?thesis by (auto simp: fc_result_def limited_stdout_def)
qed

lemma connect_guest_retries:
  assumes "\<forall>i. attempt < i \<and> i < k \<longrightarrow> (\<exists>e. att i = Inl e \<and> exc_isa OSError e)" "attempt < k" "k \<le> max_reconnect_attempts"
    and "k < max_reconnect_attempts \<longrightarrow> (\<exists>m. att k = Inr m)"
  shows "\<exists>s. connect_guest att attempt slept = (att k, k, s) \<and> s \<le> slept + (k - attempt - 1)"
  using assms(1,2)
proof (induction "k - attempt" arbitrary: attempt slept)
  case (Suc j)
  show ?case
  proof (cases "attempt + 1 = k")
    case True
    with assms(3,4) show ?thesis by (auto simp: connect_guest.simps [of att attempt] split: sum.split)
  next
    case False
    with Suc.prems obtain e where "att (attempt + 1) = Inl e" "exc_isa OSError e" by fastforce
    with False Suc.prems assms(3) have step: "connect_guest att attempt slept =
        connect_guest att (attempt + 1) (if attempt + 1 > 3 then slept + 1 else slept)"
      by (simp add: connect_guest.simps [of att attempt])
    from Suc.hyps(1) [of "attempt + 1"] Suc.hyps(2) Suc.prems False
    obtain s where "connect_guest att (attempt + 1) (if attempt + 1 > 3 then slept + 1 else slept) = (att k, k, s)"
      "s \<le> (if attempt + 1 > 3 then slept + 1 else slept) + (k - (attempt + 1) - 1)" by fastforce
    with step False Suc.prems(2) show ?thesis by (cases "2 < attempt") (auto simp: algebra_simps)
  qed
qed simp

text \<open>A run that ends within its limits, from the code to the result.\<close>

lemma fc_main_code: "fc_main fr python (PDict [(u ''type'', PStr (u ''code'')), (u ''code'', PStr code)]) = fc_guest fr (python code) 0"
  by (simp add: fc_main_def subscript_def)

lemma fc_execute_told:
  assumes "run_prog p cb 0 t = (Ended out msg n, t')" "in_time p cb cost tmo limit t" "readable fr loads p cb 0 t"
    and "0 < tmo" "fc_frame fr (PDict [(u ''type'', PStr (u ''code'')), (u ''code'', PStr code)]) = Inr request"
    and "utf8_encode out = Inr bytes"
    and "machine (PDict [(u ''type'', PStr (u ''code'')), (u ''code'', PStr code)]) = fc_guest fr p 0"
  shows "fc_execute fr loads used machine code cb cost tmo limit t =
    (Inr ((told out msg n (max 0 (fst (snd used) - fst used), snd (snd used)))
        \<lparr>rr_stdout := (if length bytes > 65536 then utf8_decode (take 65536 bytes) else out),
         rr_stdout_truncated := (length bytes > 65536)\<rparr>), t')"
  using fc_serve_guest [OF assms(1-3)] assms(4-7)
  by (cases msg)
    (simp_all add: fc_execute_def Let_def fc_result_def dict_get_or_def told_def opt_val_def max_stdout_bytes_def slice_to_def)

section \<open>What crosses the wire\<close>

text \<open>A world for the witnesses: tools that answer as the tool manager does, a reader of two messages.\<close>

definition demo_answers :: "nat tool_callback" where
  "demo_answers tool params t =
     (Inr [(u ''success'', PBool True), (u ''value'', PNone), (u ''error_message'', PNone)], Suc t)"

definition demo_reader :: "pyval \<Rightarrow> nat list \<Rightarrow> pyval result" where
  "demo_reader m bytes = (if bytes = json_dumps (\<lambda>_. []) m then Inr m else Inr (tool_message (u ''add'') []))"

lemma demo_readable: "readable (\<lambda>_. []) (demo_reader (result_message (u ''hi'') None 1)) demo_prog demo_answers 0 0"
  by (simp add: demo_prog_def demo_answers_def demo_reader_def tool_message_def result_message_def reply_ok_def opt_val_def
      json_str_def json_char_def str_int_def dec.simps)

text \<open>C17: the framing carries messages whole. Whatever messages were sent, in whatever pieces the connection
  delivers the bytes of their frames (none of them empty, more bytes may follow), receiving as many messages
  gives back exactly those, in order, and consumes no byte beyond them; the length field of four bytes holds
  every length a frame can have.\<close>

theorem framing_roundtrip:
  assumes "list_all2 (\<lambda>m frame. fc_frame fr m = Inr frame) ms frames"
    and "\<forall>m \<in> set ms. loads (json_dumps fr m) = Inr m"
    and "[] \<notin> set pieces" "concat pieces = concat frames @ rest"
  shows "fst (fc_recvs loads (length ms) pieces) = Inr ms \<and> concat (snd (fc_recvs loads (length ms) pieces)) = rest"
  using fc_recvs_frames [OF assms] by auto

theorem framing_roundtrip_witness:
  "fst (fc_recvs (\<lambda>bytes. Inr PNone) 1 [[0], [0, 0, 4, 110], [117, 108, 108, 9]]) = Inr [PNone] \<and>
   concat (snd (fc_recvs (\<lambda>bytes. Inr PNone) 1 [[0], [0, 0, 4, 110], [117, 108, 108, 9]])) = [9]"
  using framing_roundtrip [of "\<lambda>_. []" "[PNone]" "[[0, 0, 0, 4, 110, 117, 108, 108]]" "\<lambda>bytes. Inr PNone"
      "[[0], [0, 0, 4, 110], [117, 108, 108, 9]]" "[9]"]
  by (simp add: fc_frame_def pack_u32_def)

text \<open>the guest's attempts to connect end. It tries at most 200 times, retries exactly the failures of the
  operating system (a connection reset by a restore is one), takes the first answer it gets, gives up with the
  last attempt's own error, and sleeps no more often than it retries.\<close>

lemma guest_reconnects:
  assumes "\<forall>i. 0 < i \<and> i < k \<longrightarrow> (\<exists>e. att i = Inl e \<and> exc_isa OSError e)" "0 < k" "k \<le> 200"
    and "k < 200 \<longrightarrow> (\<exists>m. att k = Inr m)"
  shows "\<exists>slept. connect_guest att 0 0 = (att k, k, slept) \<and> slept < k"
  using connect_guest_retries [of 0 k att 0] assms by (auto simp: max_reconnect_attempts_def)

theorem guest_reconnects_witness:
  "\<exists>slept. connect_guest (\<lambda>i. if i < 3 then Inl (raised ConnectionResetError []) else Inr PNone) 0 0 = (Inr PNone, 3, slept) \<and> slept < 3"
  using guest_reconnects [of 3 "\<lambda>i. if i < 3 then Inl (raised ConnectionResetError []) else Inr PNone"] by (simp add: exc_simps)

text \<open>C16: Tier 2 reports faithfully what a program did. In the machine the guest shim runs the code of the request: if
  that code is a program that ends by itself within the time limits, whose messages fit their frames and are read
  back as written, \<^verbatim>\<open>execute()\<close> returns its success, its output (cut to the limit and marked when it is longer), its
  message and the number of its calls, the tools having seen its calls in order; what it left on its error stream
  plays no part.\<close>

theorem tier2_faithful:
  assumes "run_prog (python code) cb 0 t = (Ended out msg n, t')" "in_time (python code) cb cost tmo limit t"
    and "readable fr loads (python code) cb 0 t"
    and "0 < tmo" "fc_frame fr (PDict [(u ''type'', PStr (u ''code'')), (u ''code'', PStr code)]) = Inr request"
    and "utf8_encode out = Inr bytes"
  shows "fc_execute fr loads used (fc_main fr python) code cb cost tmo limit t =
    (Inr ((told out msg n (max 0 (fst (snd used) - fst used), snd (snd used)))
        \<lparr>rr_stdout := (if length bytes > 65536 then utf8_decode (take 65536 bytes) else out),
         rr_stdout_truncated := (length bytes > 65536)\<rparr>), t')"
  using fc_execute_told [where machine = "fc_main fr python", OF assms fc_main_code] .

definition demo_python :: "pystr \<Rightarrow> prog" where
  "demo_python code = (if code = u ''x'' then demo_prog else Forever)"

theorem tier2_faithful_witness:
  "fc_execute (\<lambda>_. []) (demo_reader (result_message (u ''hi'') None 1)) (1, 3, 5) (fc_main (\<lambda>_. []) demo_python) (u ''x'')
      demo_answers (\<lambda>tool params t. 1) 5 None 0 = (Inr (told (u ''hi'') None 1 (2, 5)), 1)"
proof -
  have p: "demo_python (u ''x'') = demo_prog" by (simp add: demo_python_def)
  show ?thesis
    using tier2_faithful [of demo_python "u ''x''" demo_answers 0 "u ''hi''" None 1 1 "\<lambda>tool params t. 1" 5 None "\<lambda>_. []"
        "demo_reader (result_message (u ''hi'') None 1)" _ "u ''hi''" "(1, 3, 5)", unfolded p, OF _ _ demo_readable]
    by (simp add: demo_prog_def demo_answers_def utf8_encode_def is_surrogate_def utf8_char_def told_def fc_frame_def
        pack_u32_def json_str_def json_char_def)
qed

text \<open>An output with a lone surrogate is not reported at all. The run has ended and the guest has sent its
  result, but \<^verbatim>\<open>execute()\<close> measures the output by encoding it, and the \<^verbatim>\<open>UnicodeEncodeError\<close> of that escapes; it
  is no error of the sandbox, so a caller that handles those does not handle it.\<close>

lemma surrogate_output_escapes:
  assumes "run_prog p cb 0 t = (Ended out msg n, t')" "in_time p cb cost tmo limit t" "readable fr loads p cb 0 t"
    and "0 < tmo" "fc_frame fr (PDict [(u ''type'', PStr (u ''code'')), (u ''code'', PStr code)]) = Inr request"
    and "c \<in> set out" "is_surrogate c"
  shows "\<exists>e. fc_execute fr loads used (\<lambda>_. fc_guest fr p 0) code cb cost tmo limit t = (Inl e, t') \<and>
    exc_isa UnicodeEncodeError e \<and> \<not> exc_isa (Sandbox_exc SandboxError) e"
proof -
  have "utf8_encode out = Inl (raised UnicodeEncodeError [PStr out])" using assms(6,7) by (auto simp: utf8_encode_def)
  with fc_serve_guest [OF assms(1-3)] assms(4,5) show ?thesis
    by (simp add: fc_execute_def Let_def fc_result_def dict_get_or_def exc_simps)
qed

lemma surrogate_output_escapes_witness:
  "\<exists>e. fc_execute (\<lambda>_. []) (\<lambda>bytes. Inr (result_message [0xD800] None 0)) (1, 3, 5)
      (\<lambda>_. fc_guest (\<lambda>_. []) (Finish 1 [0xD800] [] None) 0) (u ''x'') demo_answers (\<lambda>tool params t. 1) 5 None 0 = (Inl e, 0) \<and>
    exc_isa UnicodeEncodeError e \<and> \<not> exc_isa (Sandbox_exc SandboxError) e"
  by (rule surrogate_output_escapes [where c = "0xD800"])
     (auto simp: is_surrogate_def fc_frame_def pack_u32_def json_str_def json_char_def result_message_def opt_val_def
       str_int_def dec.simps escape_u_def hex4_def hex_digit_def)

text \<open>C39: how a run in a machine can fail. If its messages are read back as written and no tool call raises,
  a run fails only because it took too long, because a tool call exceeded its own limit, because the machine
  closed the connection without a result, or because its output has a lone surrogate.\<close>

theorem tier2_failures:
  assumes "readable fr loads p cb 0 t" "\<forall>tool params t. \<exists>reply. fst (cb tool params t) = Inr reply"
    and "fc_frame fr (PDict [(u ''type'', PStr (u ''code'')), (u ''code'', PStr code)]) = Inr request"
  shows "case fst (fc_execute fr loads used (\<lambda>_. fc_guest fr p 0) code cb cost tmo limit t) of
      Inl e \<Rightarrow> e = run_timeout \<or> e = crashed \<or> limit \<noteq> None \<and> e = tool_timeout \<or> exc_isa UnicodeEncodeError e
    | Inr r \<Rightarrow> int (length (rr_stdout r)) \<le> max_stdout_bytes"
proof (cases "tmo \<le> 0")
  case False
  obtain s t' where s: "fc_serve fr loads (fc_guest fr p 0) cb cost tmo limit 0 t = (s, t')"
    by (cases "fc_serve fr loads (fc_guest fr p 0) cb cost tmo limit 0 t")
  have x: "fst (fc_execute fr loads used (\<lambda>_. fc_guest fr p 0) code cb cost tmo limit t) =
      (case s of Late \<Rightarrow> Inl run_timeout | Failed e \<Rightarrow> Inl (fc_handled e) | Told fs n \<Rightarrow> fc_result fs n used)"
    using False assms(3) s by (simp add: fc_execute_def Let_def split: vm_end.split)
  show ?thesis
  proof (cases s)
    case (Told fs n)
    with s fc_serve_told [of fr loads p 0 cb cost tmo limit t fs n] assms(1,2)
    obtain out where "dict_get_or fs (u ''stdout'') PNone = PStr out" by auto
    with x Told fc_result_bounded [of fs out n used] show ?thesis by (auto split: sum.splits)
  next
    case (Failed e)
    with s fc_serve_guest_failed [of fr loads p 0 cb cost tmo limit t e] assms(1,2) x
    show ?thesis by (auto simp: fc_handled_def exc_simps tool_timeout_def crashed_def)
  qed (use x in simp)
qed (simp add: fc_execute_def)

theorem tier2_failures_witness:
  "case fst (fc_execute (\<lambda>_. []) (\<lambda>bytes. Inr PNone) (1, 3, 5) (\<lambda>_. fc_guest (\<lambda>_. []) (Abort 1 []) 0) (u ''x'')
      demo_answers (\<lambda>tool params t. 1) 5 None 0) of
      Inl e \<Rightarrow> e = run_timeout \<or> e = crashed \<or> (None :: real option) \<noteq> None \<and> e = tool_timeout \<or> exc_isa UnicodeEncodeError e
    | Inr r \<Rightarrow> int (length (rr_stdout r)) \<le> max_stdout_bytes"
  by (rule tier2_failures) (simp_all add: demo_answers_def fc_frame_def pack_u32_def json_str_def json_char_def)

end
