(* ===== verification/FirecrackerBoot.thy ===== *)
theory FirecrackerBoot
  imports FirecrackerWire
begin

text \<open>
  The life of a Firecracker instance (\<^verbatim>\<open>sandbox/firecracker_backend.py\<close>): the checks of the constructor, cold boot,
  jailed boot, the golden snapshot and the instances restored from it, \<^verbatim>\<open>terminate\<close>, \<^verbatim>\<open>health_check\<close> and
  \<^verbatim>\<open>close\<close>. The host is what these leave behind: files, listening sockets, processes (by the instance they
  serve), jail directories, and the requests and commands that were sent. How each of them turns out is the
  parameter \<open>fc_env\<close>; the identifiers \<^verbatim>\<open>uuid4\<close> gives are arguments.
\<close>

section \<open>The backend and its host\<close>

record fc_config =
  fc_binary :: pystr
  fc_kernel :: pystr
  fc_rootfs :: pystr
  fc_vcpu_count :: int
  fc_mem_size_mib :: int
  fc_shim_path :: pystr
  fc_socket_dir :: pystr
  fc_snapshot_restore :: bool
  fc_jailer :: bool
  fc_jailer_binary :: pystr
  fc_jail_uid :: int
  fc_jail_gid :: int
  fc_chroot_base_dir :: pystr
  fc_stage_script :: pystr

record fc_instance =
  in_api_sock :: pystr
  in_vsock_uds :: pystr
  in_rootfs_copy :: "pystr option"
  in_console_log :: pystr
  in_jail_dir :: "pystr option"

record fc_backend =
  fb_instances :: "(pystr, fc_instance) dict"
  fb_golden_id :: pystr
  fb_golden_snapshot :: "(pystr \<times> pystr) option"
  fb_golden_rootfs :: "pystr option"

definition new_fc_backend :: "fc_config \<Rightarrow> pystr \<Rightarrow> fc_backend result" where
  "new_fc_backend cfg golden_id =
     (if fc_jailer cfg \<and> fc_snapshot_restore cfg then Inl (raised (Sandbox_exc SandboxConfigurationError) [])
      else if fc_jailer cfg \<and> \<not> (fc_jailer_binary cfg \<noteq> [] \<and> fc_chroot_base_dir cfg \<noteq> [] \<and> fc_stage_script cfg \<noteq> [])
      then Inl (raised (Sandbox_exc SandboxConfigurationError) [])
      else Inr \<lparr>fb_instances = [], fb_golden_id = golden_id, fb_golden_snapshot = None, fb_golden_rootfs = None\<rparr>)"

text \<open>A request goes to an API socket with its method, its path and its body; a command is spawned; a JSON
  document is written to a file.\<close>

datatype host_call =
    Request pystr pystr pystr pyval
  | Command "pystr list"
  | Wrote pystr pyval

record fc_host =
  fh_files :: "pystr set"
  fh_listening :: "pystr set"
  fh_procs :: "pystr set"
  fh_jails :: "pystr set"
  fh_calls :: "host_call list"

text \<open>How the steps turn out: \<open>None\<close> is success; \<open>fe_made\<close> is what the process creates by itself, \<open>fe_ready\<close>
  what the wait for the guest comes to and whether the process is still running then.\<close>

record fc_env =
  fe_copy :: "pystr \<Rightarrow> exc option"
  fe_listen :: "pystr \<Rightarrow> exc option"
  fe_spawn :: "pystr \<Rightarrow> exc option"
  fe_curl :: "pystr \<Rightarrow> exc option"
  fe_made :: "pystr \<Rightarrow> pystr set"
  fe_ready :: "pystr \<Rightarrow> pyval result \<times> bool"
  fe_snapped :: bool
  fe_stage :: "pystr \<Rightarrow> bool \<times> bool"
  fe_sudo :: "pystr list \<Rightarrow> bool"

definition add_file :: "pystr \<Rightarrow> fc_host \<Rightarrow> fc_host" where
  "add_file p h = h\<lparr>fh_files := insert p (fh_files h)\<rparr>"

definition unlink_files :: "pystr list \<Rightarrow> fc_host \<Rightarrow> fc_host" where
  "unlink_files ps h = h\<lparr>fh_files := fh_files h - set ps\<rparr>"

definition close_server :: "pystr \<Rightarrow> fc_host \<Rightarrow> fc_host" where
  "close_server p h = h\<lparr>fh_listening := fh_listening h - {p}\<rparr>"

definition called :: "host_call \<Rightarrow> fc_host \<Rightarrow> fc_host" where
  "called c h = h\<lparr>fh_calls := fh_calls h @ [c]\<rparr>"

text \<open>\<^verbatim>\<open>process.kill()\<close> of asyncio: a process that has ended is not there any more.\<close>

definition kill_process :: "pystr \<Rightarrow> fc_host \<Rightarrow> unit result \<times> fc_host" where
  "kill_process i h =
     (if i \<in> fh_procs h then (Inr (), h\<lparr>fh_procs := fh_procs h - {i}\<rparr>)
      else (Inl (raised ProcessLookupError []), h))"

section \<open>Paths and requests\<close>

definition fc_path :: "fc_config \<Rightarrow> pystr \<Rightarrow> string \<Rightarrow> pystr" where
  "fc_path cfg i ending = fc_socket_dir cfg @ u ''/fc-'' @ i @ u ending"

definition listen_path :: "pystr \<Rightarrow> pystr" where "listen_path vsock_uds = vsock_uds @ u ''_5555''"

definition new_instance :: "fc_config \<Rightarrow> bool \<Rightarrow> pystr \<Rightarrow> fc_instance" where
  "new_instance cfg own_rootfs i =
     \<lparr>in_api_sock = fc_path cfg i ''-api.sock'', in_vsock_uds = fc_path cfg i ''-vsock.sock'',
      in_rootfs_copy = (if own_rootfs then Some (fc_path cfg i ''-rootfs.ext4'') else None),
      in_console_log = fc_path cfg i ''-console.log'', in_jail_dir = None\<rparr>"

definition cleanup_files :: "fc_instance \<Rightarrow> bool \<Rightarrow> fc_host \<Rightarrow> fc_host" where
  "cleanup_files inst with_rootfs h =
     unlink_files ([in_api_sock inst, in_console_log inst, in_vsock_uds inst, listen_path (in_vsock_uds inst)]
       @ (if with_rootfs then case in_rootfs_copy inst of None \<Rightarrow> [] | Some p \<Rightarrow> [p] else [])) h"

text \<open>\<^verbatim>\<open>_api_put\<close> and \<^verbatim>\<open>_api_patch\<close>: the status \<^verbatim>\<open>curl\<close> ends with is not looked at.\<close>

primrec api_calls :: "fc_env \<Rightarrow> pystr \<Rightarrow> (string \<times> string \<times> pyval) list \<Rightarrow> fc_host \<Rightarrow> unit result \<times> fc_host" where
  "api_calls env sock [] h = (Inr (), h)"
| "api_calls env sock (c # cs) h =
     (case c of (meth, path, body) \<Rightarrow>
        (case fe_curl env (u path) of
           Some e \<Rightarrow> (Inl e, h)
         | None \<Rightarrow> api_calls env sock cs (called (Request sock (u meth) (u path) body) h)))"

definition boot_args :: "fc_config \<Rightarrow> pystr" where
  "boot_args cfg = u ''console=ttyS0 reboot=k panic=1 init=/usr/bin/python3 -- '' @ fc_shim_path cfg"

definition drive :: "pystr \<Rightarrow> pyval" where
  "drive path =
     PDict [(u ''drive_id'', PStr (u ''rootfs'')), (u ''path_on_host'', PStr path),
            (u ''is_root_device'', PBool True), (u ''is_read_only'', PBool False)]"

definition machine_config :: "fc_config \<Rightarrow> pyval" where
  "machine_config cfg =
     PDict [(u ''vcpu_count'', PInt (fc_vcpu_count cfg)), (u ''mem_size_mib'', PInt (fc_mem_size_mib cfg))]"

definition vsock_config :: "pystr \<Rightarrow> pyval" where
  "vsock_config path = PDict [(u ''guest_cid'', PInt 3), (u ''uds_path'', PStr path)]"

definition cold_requests :: "fc_config \<Rightarrow> pystr \<Rightarrow> (string \<times> string \<times> pyval) list" where
  "cold_requests cfg i =
     [(''PUT'', ''/boot-source'',
         PDict [(u ''kernel_image_path'', PStr (fc_kernel cfg)), (u ''boot_args'', PStr (boot_args cfg))]),
      (''PUT'', ''/drives/rootfs'', drive (fc_path cfg i ''-rootfs.ext4'')),
      (''PUT'', ''/machine-config'', machine_config cfg),
      (''PUT'', ''/vsock'', vsock_config (fc_path cfg i ''-vsock.sock'')),
      (''PUT'', ''/actions'', PDict [(u ''action_type'', PStr (u ''InstanceStart''))])]"

definition restore_requests :: "fc_config \<Rightarrow> pystr \<Rightarrow> pystr \<times> pystr \<Rightarrow> (string \<times> string \<times> pyval) list" where
  "restore_requests cfg i snap =
     [(''PUT'', ''/snapshot/load'',
         PDict [(u ''snapshot_path'', PStr (fst snap)),
                (u ''mem_backend'', PDict [(u ''backend_type'', PStr (u ''File'')), (u ''backend_path'', PStr (snd snap))]),
                (u ''resume_vm'', PBool True),
                (u ''vsock_override'', PDict [(u ''uds_path'', PStr (fc_path cfg i ''-vsock.sock''))])])]"

definition snapshot_requests :: "pystr \<times> pystr \<Rightarrow> (string \<times> string \<times> pyval) list" where
  "snapshot_requests snap =
     [(''PATCH'', ''/vm'', PDict [(u ''state'', PStr (u ''Paused''))]),
      (''PUT'', ''/snapshot/create'',
         PDict [(u ''snapshot_path'', PStr (fst snap)), (u ''mem_file_path'', PStr (snd snap))])]"

section \<open>Booting\<close>

text \<open>The connection and the first message, for every kind of boot: \<open>undo\<close> is what the two handlers do.\<close>

definition await_ready ::
    "fc_env \<Rightarrow> pystr \<Rightarrow> (fc_host \<Rightarrow> exc \<times> fc_host) \<Rightarrow> fc_host \<Rightarrow> unit result \<times> fc_host" where
  "await_ready env i undo h =
     (let h1 = (if snd (fe_ready env i) then h else h\<lparr>fh_procs := fh_procs h - {i}\<rparr>) in
      case fst (fe_ready env i) of
        Inl e \<Rightarrow>
          if exc_isa TimeoutError e \<or> exc_isa IncompleteReadError e
          then (case undo h1 of (e', h2) \<Rightarrow> (Inl e', h2))
          else (Inl e, h1)
      | Inr (PDict d) \<Rightarrow>
          if dict_get d (u ''type'') = Some (PStr (u ''ready'')) then (Inr (), h1)
          else (case undo h1 of (e', h2) \<Rightarrow> (Inl e', h2))
      | Inr _ \<Rightarrow> (Inl (raised AttributeError []), h1))"

text \<open>The handlers of a boot that is not jailed: \<^verbatim>\<open>kill()\<close> stands outside every \<^verbatim>\<open>suppress\<close>.\<close>

definition undo_boot :: "pystr \<Rightarrow> fc_instance \<Rightarrow> fc_host \<Rightarrow> exc \<times> fc_host" where
  "undo_boot i inst h =
     (case kill_process i h of
        (Inl e, h1) \<Rightarrow> (e, h1)
      | (Inr _, h1) \<Rightarrow>
          (crashed, cleanup_files inst True (close_server (listen_path (in_vsock_uds inst)) h1)))"

text \<open>From the listener on, a cold boot and a restore differ in the requests only.\<close>

definition start_instance ::
    "fc_env \<Rightarrow> fc_config \<Rightarrow> pystr \<Rightarrow> fc_instance \<Rightarrow> (string \<times> string \<times> pyval) list \<Rightarrow> fc_host \<Rightarrow> unit result \<times> fc_host" where
  "start_instance env cfg i inst requests h =
     (case fe_listen env (listen_path (in_vsock_uds inst)) of
        Some e \<Rightarrow> (Inl e, h)
      | None \<Rightarrow>
          let lp = listen_path (in_vsock_uds inst);
              h1 = add_file (in_console_log inst) (add_file lp (h\<lparr>fh_listening := insert lp (fh_listening h)\<rparr>))
          in (case fe_spawn env i of
                Some e \<Rightarrow> (Inl e, h1)
              | None \<Rightarrow>
                  let h2 = called (Command [fc_binary cfg, u ''--api-sock'', in_api_sock inst])
                             (h1\<lparr>fh_procs := insert i (fh_procs h1), fh_files := fh_files h1 \<union> fe_made env i\<rparr>)
                  in (case api_calls env (in_api_sock inst) requests h2 of
                        (Inl e, h3) \<Rightarrow> (Inl e, h3)
                      | (Inr _, h3) \<Rightarrow> await_ready env i (undo_boot i inst) h3)))"

definition register_instance :: "pystr \<Rightarrow> fc_instance \<Rightarrow> fc_backend \<Rightarrow> fc_backend" where
  "register_instance i inst b = b\<lparr>fb_instances := dict_set i inst (fb_instances b)\<rparr>"

definition cold_boot :: "fc_env \<Rightarrow> fc_config \<Rightarrow> pystr \<Rightarrow> fc_backend \<times> fc_host \<Rightarrow> handle result \<times> (fc_backend \<times> fc_host)" where
  "cold_boot env cfg i = (\<lambda>(b, h).
     let inst = new_instance cfg True i; copy = fc_path cfg i ''-rootfs.ext4'' in
     case fe_copy env copy of
       Some e \<Rightarrow> (Inl e, (b, h))
     | None \<Rightarrow>
         (case start_instance env cfg i inst (cold_requests cfg i) (add_file copy h) of
            (Inl e, h1) \<Rightarrow> (Inl e, (b, h1))
          | (Inr _, h1) \<Rightarrow> (Inr \<lparr>h_id = i, h_tier = 2\<rparr>, (register_instance i inst b, h1))))"

definition restore_instance ::
    "fc_env \<Rightarrow> fc_config \<Rightarrow> pystr \<Rightarrow> fc_backend \<times> fc_host \<Rightarrow> handle result \<times> (fc_backend \<times> fc_host)" where
  "restore_instance env cfg i = (\<lambda>(b, h).
     case fb_golden_snapshot b of
       None \<Rightarrow> (Inl (raised AssertionError []), (b, h))
     | Some snap \<Rightarrow>
         let inst = new_instance cfg False i in
         (case start_instance env cfg i inst (restore_requests cfg i snap) h of
            (Inl e, h1) \<Rightarrow> (Inl e, (b, h1))
          | (Inr _, h1) \<Rightarrow> (Inr \<lparr>h_id = i, h_tier = 2\<rparr>, (register_instance i inst b, h1))))"

text \<open>The golden snapshot; the operations of the backend are taken one at a time, so the lock and its second
  check are one check.\<close>

definition snapshot_paths :: "fc_config \<Rightarrow> fc_backend \<Rightarrow> pystr \<times> pystr" where
  "snapshot_paths cfg b =
     (fc_path cfg (u ''golden-'' @ fb_golden_id b) ''.state'', fc_path cfg (u ''golden-'' @ fb_golden_id b) ''.mem'')"

definition ensure_golden_snapshot ::
    "fc_env \<Rightarrow> fc_config \<Rightarrow> pystr \<Rightarrow> fc_backend \<times> fc_host \<Rightarrow> unit result \<times> (fc_backend \<times> fc_host)" where
  "ensure_golden_snapshot env cfg i = (\<lambda>(b, h).
     if fb_golden_snapshot b \<noteq> None then (Inr (), (b, h))
     else
       (case cold_boot env cfg i (b, h) of
          (Inl e, s) \<Rightarrow> (Inl e, s)
        | (Inr hdl, (b1, h1)) \<Rightarrow>
            let inst = new_instance cfg True i; snap = snapshot_paths cfg b;
                b2 = b1\<lparr>fb_instances := dict_pop i (fb_instances b1)\<rparr>
            in (case api_calls env (in_api_sock inst) (snapshot_requests snap) (unlink_files [fst snap, snd snap] h1) of
                  (Inl e, h2) \<Rightarrow> (Inl e, (b2, h2))
                | (Inr _, h2) \<Rightarrow>
                    let h3 = (if fe_snapped env then add_file (fst snap) (add_file (snd snap) h2) else h2) in
                    (case kill_process i h3 of
                       (Inl e, h4) \<Rightarrow> (Inl e, (b2, h4))
                     | (Inr _, h4) \<Rightarrow>
                         (Inr (),
                          (b2\<lparr>fb_golden_snapshot := Some snap, fb_golden_rootfs := in_rootfs_copy inst\<rparr>,
                           cleanup_files inst False (close_server (listen_path (in_vsock_uds inst)) h4)))))))"

section \<open>Jailed instances\<close>

text \<open>\<^verbatim>\<open>Path(p).name\<close>\<close>

definition path_name :: "pystr \<Rightarrow> pystr" where
  "path_name p = rev (takeWhile (\<lambda>c. c \<noteq> 47) (dropWhile (\<lambda>c. c = 47) (rev p)))"

definition jail_dir_of :: "fc_config \<Rightarrow> pystr \<Rightarrow> pystr" where
  "jail_dir_of cfg i = fc_chroot_base_dir cfg @ u ''/'' @ path_name (fc_binary cfg) @ u ''/'' @ i"

definition jailed_instance :: "fc_config \<Rightarrow> pystr \<Rightarrow> fc_instance" where
  "jailed_instance cfg i =
     \<lparr>in_api_sock = u ''.'', in_vsock_uds = jail_dir_of cfg i @ u ''/root/vsock.sock'', in_rootfs_copy = None,
      in_console_log = fc_path cfg i ''-console.log'', in_jail_dir = Some (jail_dir_of cfg i)\<rparr>"

definition vm_config :: "fc_config \<Rightarrow> pyval" where
  "vm_config cfg =
     PDict [(u ''boot-source'', PDict [(u ''kernel_image_path'', PStr (u ''/kernel'')), (u ''boot_args'', PStr (boot_args cfg))]),
            (u ''drives'', PList [drive (u ''/rootfs.ext4'')]),
            (u ''machine-config'', machine_config cfg),
            (u ''vsock'', vsock_config (u ''/vsock.sock''))]"

definition stage_argv :: "fc_config \<Rightarrow> pystr \<Rightarrow> pystr list" where
  "stage_argv cfg i =
     [u ''sudo'', u ''-n'', fc_stage_script cfg, fc_chroot_base_dir cfg, path_name (fc_binary cfg), i, fc_kernel cfg,
      fc_rootfs cfg, str_int (fc_jail_uid cfg), str_int (fc_jail_gid cfg)]"

definition jailer_argv :: "fc_config \<Rightarrow> pystr \<Rightarrow> pystr list" where
  "jailer_argv cfg i =
     [u ''sudo'', u ''-n'', fc_jailer_binary cfg, u ''--id'', i, u ''--exec-file'', fc_binary cfg, u ''--uid'',
      str_int (fc_jail_uid cfg), u ''--gid'', str_int (fc_jail_gid cfg), u ''--chroot-base-dir'', fc_chroot_base_dir cfg,
      u ''--'', u ''--config-file'', u ''/vm-config.json'', u ''--no-api'']"

definition pkill_argv :: "pystr \<Rightarrow> pystr list" where
  "pkill_argv i =
     [u ''sudo'', u ''-n'', u ''pkill'', u ''-9'', u ''-u'', u ''fc-jail'', u ''-f'', u ''--'',
      u ''--id '' @ i @ u '' --start-time-us'']"

definition rm_argv :: "pystr \<Rightarrow> pystr list" where
  "rm_argv jail = [u ''sudo'', u ''-n'', u ''rm'', u ''-rf'', jail]"

text \<open>Neither command's status is looked at.\<close>

definition terminate_jailed :: "fc_env \<Rightarrow> pystr \<Rightarrow> pystr \<Rightarrow> pystr \<Rightarrow> fc_host \<Rightarrow> fc_host" where
  "terminate_jailed env i jail console h =
     (let h1 = called (Command (pkill_argv i)) h;
          h2 = (if fe_sudo env (pkill_argv i) then h1\<lparr>fh_procs := fh_procs h1 - {i}\<rparr> else h1);
          h3 = called (Command (rm_argv jail)) h2;
          h4 = (if fe_sudo env (rm_argv jail) then h3\<lparr>fh_jails := fh_jails h3 - {jail}\<rparr> else h3)
      in unlink_files [console] h4)"

definition undo_jailed :: "fc_env \<Rightarrow> pystr \<Rightarrow> fc_instance \<Rightarrow> pystr \<Rightarrow> fc_host \<Rightarrow> exc \<times> fc_host" where
  "undo_jailed env i inst jail h =
     (crashed, terminate_jailed env i jail (in_console_log inst) (close_server (listen_path (in_vsock_uds inst)) h))"

text \<open>The script that stages the jail may leave the directory behind whether it succeeds or not
  (\<open>fe_stage\<close>: success, and whether the directory is there). Files inside the jail are part of it.\<close>

definition boot_jailed :: "fc_env \<Rightarrow> fc_config \<Rightarrow> pystr \<Rightarrow> fc_backend \<times> fc_host \<Rightarrow> handle result \<times> (fc_backend \<times> fc_host)" where
  "boot_jailed env cfg i = (\<lambda>(b, h).
     let inst = jailed_instance cfg i; jail = jail_dir_of cfg i; lp = listen_path (in_vsock_uds inst);
         h1 = called (Command (stage_argv cfg i)) h;
         h2 = (if snd (fe_stage env i) then h1\<lparr>fh_jails := insert jail (fh_jails h1)\<rparr> else h1)
     in if \<not> fst (fe_stage env i) then (Inl crashed, (b, h2))
        else
          let h3 = called (Wrote (jail @ u ''/root/vm-config.json'') (vm_config cfg)) h2 in
          (case fe_listen env lp of
             Some e \<Rightarrow> (Inl e, (b, h3))
           | None \<Rightarrow>
               let h4 = add_file (in_console_log inst) (h3\<lparr>fh_listening := insert lp (fh_listening h3)\<rparr>) in
               (case fe_spawn env i of
                  Some e \<Rightarrow> (Inl e, (b, h4))
                | None \<Rightarrow>
                    let h5 = called (Command (jailer_argv cfg i)) (h4\<lparr>fh_procs := insert i (fh_procs h4)\<rparr>) in
                    (case await_ready env i (undo_jailed env i inst jail) h5 of
                       (Inl e, h6) \<Rightarrow> (Inl e, (b, h6))
                     | (Inr _, h6) \<Rightarrow> (Inr \<lparr>h_id = i, h_tier = 2\<rparr>, (register_instance i inst b, h6))))))"

section \<open>The operations of the backend\<close>

definition fc_boot_clean ::
    "fc_env \<Rightarrow> fc_config \<Rightarrow> pystr \<Rightarrow> pystr \<Rightarrow> fc_backend \<times> fc_host \<Rightarrow> handle result \<times> (fc_backend \<times> fc_host)" where
  "fc_boot_clean env cfg g i s =
     (if fc_jailer cfg then boot_jailed env cfg i s
      else if fc_snapshot_restore cfg then
        (case ensure_golden_snapshot env cfg g s of
           (Inl e, s1) \<Rightarrow> (Inl e, s1)
         | (Inr _, s1) \<Rightarrow> restore_instance env cfg i s1)
      else cold_boot env cfg i s)"

text \<open>\<^verbatim>\<open>terminate\<close> never raises: the kill is inside a \<^verbatim>\<open>suppress\<close> here.\<close>

definition fc_terminate :: "fc_env \<Rightarrow> handle \<Rightarrow> fc_backend \<times> fc_host \<Rightarrow> fc_backend \<times> fc_host" where
  "fc_terminate env hdl = (\<lambda>(b, h).
     case dict_get (fb_instances b) (h_id hdl) of
       None \<Rightarrow> (b, h)
     | Some inst \<Rightarrow>
         let b1 = b\<lparr>fb_instances := dict_pop (h_id hdl) (fb_instances b)\<rparr>;
             h1 = close_server (listen_path (in_vsock_uds inst)) h
         in (b1,
             case in_jail_dir inst of
               Some jail \<Rightarrow> terminate_jailed env (h_id hdl) jail (in_console_log inst) h1
             | None \<Rightarrow> cleanup_files inst True (snd (kill_process (h_id hdl) h1))))"

definition fc_close :: "fc_backend \<times> fc_host \<Rightarrow> fc_backend \<times> fc_host" where
  "fc_close = (\<lambda>(b, h).
     let h1 = (case fb_golden_snapshot b of None \<Rightarrow> h | Some (st, mem) \<Rightarrow> unlink_files [st, mem] h);
         h2 = (case fb_golden_rootfs b of None \<Rightarrow> h1 | Some p \<Rightarrow> unlink_files [p] h1)
     in (b\<lparr>fb_golden_snapshot := None, fb_golden_rootfs := None\<rparr>, h2))"

definition fc_health_check :: "(pystr \<Rightarrow> bool) \<Rightarrow> (pystr \<Rightarrow> bool) \<Rightarrow> fc_config \<Rightarrow> bool" where
  "fc_health_check on_path exists cfg \<longleftrightarrow>
     (on_path (fc_binary cfg) \<or> exists (fc_binary cfg)) \<and> exists (fc_kernel cfg) \<and> exists (fc_rootfs cfg) \<and>
     (fc_jailer cfg \<longrightarrow> (on_path (fc_jailer_binary cfg) \<or> exists (fc_jailer_binary cfg)) \<and> exists (fc_stage_script cfg))"

text \<open>The backend as the pool sees it: \<open>uuid\<close> gives the identifiers in order, \<open>machine\<close> is the guest of an
  instance, \<open>took\<close> how long a boot takes.\<close>

record fc_world =
  fw_state :: "fc_backend \<times> fc_host"
  fw_ids :: nat

definition fc_sandbox ::
    "fc_env \<Rightarrow> fc_config \<Rightarrow> (nat \<Rightarrow> pystr) \<Rightarrow> (real \<Rightarrow> pystr) \<Rightarrow> (nat list \<Rightarrow> pyval result) \<Rightarrow> (pystr \<Rightarrow> pyval \<Rightarrow> vm)
     \<Rightarrow> (pystr \<Rightarrow> bool) \<Rightarrow> (pystr \<Rightarrow> bool) \<Rightarrow> real \<Rightarrow> real \<times> real \<times> real \<Rightarrow> (pystr \<Rightarrow> pydict \<Rightarrow> 't \<Rightarrow> real)
     \<Rightarrow> (fc_world, 't) sandbox" where
  "fc_sandbox env cfg uuid fr loads machine on_path exists took used cost =
     \<lparr>sb_tier = 2,
      sb_boot_clean = \<lambda>w.
        (took, case fc_boot_clean env cfg (uuid (fw_ids w)) (uuid (fw_ids w + 1)) (fw_state w) of
                 (r, s) \<Rightarrow> (r, w\<lparr>fw_state := s, fw_ids := fw_ids w + 2\<rparr>)),
      sb_execute = \<lambda>hdl code cb tmo limit (w, t).
        (case dict_get (fb_instances (fst (fw_state w))) (h_id hdl) of
           None \<Rightarrow> (Inl (raised KeyError [PStr (h_id hdl)]), (w, t))
         | Some inst \<Rightarrow>
             (case fc_execute fr loads used (machine (h_id hdl)) code cb cost tmo limit t of (r, t') \<Rightarrow> (r, (w, t')))),
      sb_terminate = \<lambda>hdl w. (Inr (), w\<lparr>fw_state := fc_terminate env hdl (fw_state w)\<rparr>),
      sb_health_check = \<lambda>w. (Inr (fc_health_check on_path exists cfg), w),
      sb_close = \<lambda>w. (Inr (), w\<lparr>fw_state := fc_close (fw_state w)\<rparr>)\<rparr>"

section \<open>What is on the host\<close>

definition inst_files :: "fc_instance \<Rightarrow> pystr set" where
  "inst_files inst =
     insert (in_console_log inst)
       (case in_jail_dir inst of
          Some jail \<Rightarrow> {}
        | None \<Rightarrow> {in_api_sock inst, in_vsock_uds inst, listen_path (in_vsock_uds inst)} \<union> set_option (in_rootfs_copy inst))"

definition golden_files :: "fc_backend \<Rightarrow> pystr set" where
  "golden_files b =
     (case fb_golden_snapshot b of None \<Rightarrow> {} | Some (st, mem) \<Rightarrow> {st, mem}) \<union> set_option (fb_golden_rootfs b)"

definition confined :: "pystr set \<Rightarrow> pystr set \<Rightarrow> pystr set \<Rightarrow> pystr set \<Rightarrow> fc_host \<Rightarrow> bool" where
  "confined F L P J h \<longleftrightarrow> fh_files h \<subseteq> F \<and> fh_listening h \<subseteq> L \<and> fh_procs h \<subseteq> P \<and> fh_jails h \<subseteq> J"

definition live :: "fc_backend \<Rightarrow> fc_instance set" where "live b = ran (map_of (fb_instances b))"

definition own_instance :: "fc_config \<Rightarrow> pystr \<Rightarrow> fc_instance" where
  "own_instance cfg i = (if fc_jailer cfg then jailed_instance cfg i else new_instance cfg (\<not> fc_snapshot_restore cfg) i)"

text \<open>Everything on the host was there before, or belongs to a live instance, to the golden snapshot, or to one
  of some further instances \<open>X\<close> with identifiers \<open>I\<close>.\<close>

definition holds_only :: "fc_host \<Rightarrow> fc_backend \<Rightarrow> fc_instance set \<Rightarrow> pystr set \<Rightarrow> fc_host \<Rightarrow> bool" where
  "holds_only base b X I h \<longleftrightarrow>
     confined (fh_files base \<union> golden_files b \<union> (\<Union>inst \<in> live b \<union> X. inst_files inst))
       (fh_listening base \<union> (\<lambda>inst. listen_path (in_vsock_uds inst)) ` (live b \<union> X))
       (fh_procs base \<union> dom (map_of (fb_instances b)) \<union> I)
       (fh_jails base \<union> (\<Union>inst \<in> live b \<union> X. set_option (in_jail_dir inst))) h"

definition accounted :: "fc_config \<Rightarrow> fc_host \<Rightarrow> fc_backend \<times> fc_host \<Rightarrow> bool" where
  "accounted cfg base = (\<lambda>(b, h).
     holds_only base b {} {} h \<and>
     (\<forall>i inst. dict_get (fb_instances b) i = Some inst \<longrightarrow> inst = own_instance cfg i) \<and>
     (fb_golden_snapshot b = None \<longrightarrow> fb_golden_rootfs b = None))"

text \<open>A host whose steps succeed, where a guest that is not ready keeps silent or says something else, and its
  process is still there.\<close>

definition env_ok :: "fc_env \<Rightarrow> fc_config \<Rightarrow> bool" where
  "env_ok env cfg \<longleftrightarrow>
     (\<forall>p. fe_copy env p = None \<and> fe_listen env p = None \<and> fe_spawn env p = None \<and> fe_curl env p = None) \<and>
     (\<forall>i. fe_made env i \<subseteq> {fc_path cfg i ''-api.sock'', fc_path cfg i ''-vsock.sock''}) \<and>
     (\<forall>i. snd (fe_ready env i) \<and>
        (case fst (fe_ready env i) of
           Inl e \<Rightarrow> exc_isa TimeoutError e \<or> exc_isa IncompleteReadError e
         | Inr v \<Rightarrow> \<exists>d. v = PDict d)) \<and>
     (\<forall>i. fst (fe_stage env i) \<or> \<not> snd (fe_stage env i)) \<and>
     (\<forall>argv. fe_sudo env argv)"

lemma api_calls_ok:
  "\<forall>p. fe_curl env p = None \<Longrightarrow> \<exists>cs. api_calls env sock requests h = (Inr (), h\<lparr>fh_calls := cs\<rparr>)"
proof (induction requests arbitrary: h)
  case Nil
  then show ?case by (auto intro: exI [of _ "fh_calls h"])
next
  case (Cons c requests)
  obtain meth path body where c: "c = (meth, path, body)" by (cases c)
  from Cons.IH [OF Cons.prems, of "called (Request sock (u meth) (u path) body) h"] c Cons.prems
  show ?case by (auto simp: called_def simp del: u_simps)
qed

lemma confined_calls [simp]: "confined F L P J (h\<lparr>fh_calls := cs\<rparr>) \<longleftrightarrow> confined F L P J h"
  by (simp add: confined_def)

lemma confined_called [simp]: "confined F L P J (called c h) \<longleftrightarrow> confined F L P J h"
  by (simp add: called_def)

lemma confined_mono: "confined F L P J h \<Longrightarrow> F \<subseteq> F' \<Longrightarrow> L \<subseteq> L' \<Longrightarrow> P \<subseteq> P' \<Longrightarrow> J \<subseteq> J' \<Longrightarrow> confined F' L' P' J' h"
  by (auto simp: confined_def)

text \<open>Waiting for the guest either keeps the host as it is or undoes the boot.\<close>

lemma await_ready_ok:
  assumes "env_ok env cfg"
  shows "await_ready env i undo h = (Inr (), h) \<or> await_ready env i undo h = (Inl (fst (undo h)), snd (undo h))"
proof (cases "fst (fe_ready env i)")
  case (Inl e)
  then have "exc_isa TimeoutError e \<or> exc_isa IncompleteReadError e" "snd (fe_ready env i)"
    using assms by (auto simp: env_ok_def dest!: spec [of _ i] split: sum.splits)
  with Inl show ?thesis by (simp add: await_ready_def Let_def split: prod.split)
next
  case (Inr v)
  then obtain d where "v = PDict d" "snd (fe_ready env i)"
    using assms by (auto simp: env_ok_def dest!: spec [of _ i] split: sum.splits)
  with Inr show ?thesis by (auto simp: await_ready_def Let_def split: prod.split)
qed

lemma undo_boot_ok:
  assumes "i \<in> fh_procs h" "in_jail_dir inst = None"
    and "confined (F \<union> inst_files inst) (insert (listen_path (in_vsock_uds inst)) L) (insert i P) J h"
  shows "fst (undo_boot i inst h) = crashed \<and> confined F L P J (snd (undo_boot i inst h))"
  using assms
  by (auto simp: undo_boot_def kill_process_def cleanup_files_def unlink_files_def close_server_def confined_def
      inst_files_def split: option.splits)

lemma start_instance_ok:
  assumes env: "env_ok env cfg" and inst: "inst = new_instance cfg r i"
    and h: "confined (F \<union> set_option (in_rootfs_copy inst)) L P J h"
  shows "(\<exists>h1. start_instance env cfg i inst requests h = (Inr (), h1) \<and> i \<in> fh_procs h1 \<and>
       confined (F \<union> inst_files inst) (insert (listen_path (in_vsock_uds inst)) L) (insert i P) J h1) \<or>
     (\<exists>h1. start_instance env cfg i inst requests h = (Inl crashed, h1) \<and> confined F L P J h1)"
proof -
  let ?lp = "listen_path (in_vsock_uds inst)"
  define h2 where "h2 = called (Command [fc_binary cfg, u ''--api-sock'', in_api_sock inst])
    (add_file (in_console_log inst) (add_file ?lp (h\<lparr>fh_listening := insert ?lp (fh_listening h)\<rparr>))
       \<lparr>fh_procs := insert i (fh_procs h), fh_files := insert (in_console_log inst) (insert ?lp (fh_files h)) \<union> fe_made env i\<rparr>)"
  from env have none: "fe_listen env ?lp = None" "fe_spawn env i = None" "\<forall>p. fe_curl env p = None"
    and made: "fe_made env i \<subseteq> {in_api_sock inst, in_vsock_uds inst}" and jail: "in_jail_dir inst = None"
    by (auto simp: env_ok_def inst new_instance_def)
  obtain cs where calls: "api_calls env (in_api_sock inst) requests h2 = (Inr (), h2\<lparr>fh_calls := cs\<rparr>)"
    using api_calls_ok [OF none(3)] by blast
  have w: "confined (F \<union> inst_files inst) (insert ?lp L) (insert i P) J (h2\<lparr>fh_calls := cs\<rparr>)"
    using h made jail by (auto simp: h2_def confined_def add_file_def called_def inst_files_def)
  have i: "i \<in> fh_procs (h2\<lparr>fh_calls := cs\<rparr>)" by (simp add: h2_def called_def)
  have "start_instance env cfg i inst requests h = await_ready env i (undo_boot i inst) (h2\<lparr>fh_calls := cs\<rparr>)"
    using none(1,2) calls by (simp add: start_instance_def Let_def h2_def add_file_def)
  with await_ready_ok [OF env, of i "undo_boot i inst" "h2\<lparr>fh_calls := cs\<rparr>"] undo_boot_ok [OF i jail w] w i
  show ?thesis by auto
qed

text \<open>Up to the wait for the guest.\<close>

definition started_host :: "fc_env \<Rightarrow> pystr \<Rightarrow> fc_instance \<Rightarrow> fc_host \<Rightarrow> fc_host \<Rightarrow> bool" where
  "started_host env i inst h h' \<longleftrightarrow>
     i \<in> fh_procs h' \<and> fh_files h \<union> {in_console_log inst} \<subseteq> fh_files h' \<and> listen_path (in_vsock_uds inst) \<in> fh_listening h'"

lemma start_instance_waits:
  assumes "fe_listen env (listen_path (in_vsock_uds inst)) = None" "fe_spawn env i = None" "\<forall>p. fe_curl env p = None"
  shows "\<exists>h'. start_instance env cfg i inst requests h = await_ready env i (undo_boot i inst) h' \<and> started_host env i inst h h'"
proof -
  let ?lp = "listen_path (in_vsock_uds inst)"
  define h1 where "h1 = add_file (in_console_log inst) (add_file ?lp (h\<lparr>fh_listening := insert ?lp (fh_listening h)\<rparr>))"
  define h2 where "h2 = called (Command [fc_binary cfg, u ''--api-sock'', in_api_sock inst])
    (h1\<lparr>fh_procs := insert i (fh_procs h1), fh_files := fh_files h1 \<union> fe_made env i\<rparr>)"
  obtain cs where "api_calls env (in_api_sock inst) requests h2 = (Inr (), h2\<lparr>fh_calls := cs\<rparr>)"
    using api_calls_ok [OF assms(3)] by blast
  then have "start_instance env cfg i inst requests h = await_ready env i (undo_boot i inst) (h2\<lparr>fh_calls := cs\<rparr>)"
    using assms(1,2) by (simp add: start_instance_def Let_def flip: h1_def h2_def del: u_simps)
  moreover have "started_host env i inst h (h2\<lparr>fh_calls := cs\<rparr>)"
    by (auto simp: started_host_def h2_def h1_def add_file_def called_def)
  ultimately show ?thesis by blast
qed

lemma dead_start:
  assumes "fe_listen env (listen_path (in_vsock_uds inst)) = None" "fe_spawn env i = None" "\<forall>p. fe_curl env p = None"
    and "fe_ready env i = (Inl e, False)" "exc_isa TimeoutError e"
  shows "\<exists>h'. start_instance env cfg i inst requests h = (Inl (raised ProcessLookupError []), h') \<and>
    fh_files h \<union> {in_console_log inst} \<subseteq> fh_files h' \<and> listen_path (in_vsock_uds inst) \<in> fh_listening h'"
  using start_instance_waits [OF assms(1-3), of cfg requests h] assms(4,5)
  by (auto simp: await_ready_def Let_def undo_boot_def kill_process_def started_host_def)

lemma cancelled_start:
  assumes "fe_listen env (listen_path (in_vsock_uds inst)) = None" "fe_spawn env i = None" "\<forall>p. fe_curl env p = None"
    and "fe_ready env i = (Inl (raised CancelledError []), True)"
  shows "\<exists>h'. start_instance env cfg i inst requests h = (Inl (raised CancelledError []), h') \<and> started_host env i inst h h'"
  using start_instance_waits [OF assms(1-3), of cfg requests h] assms(4)
  by (auto simp: await_ready_def Let_def exc_simps)

text \<open>Registering an instance.\<close>

lemma mem_live: "x \<in> live b \<longleftrightarrow> (\<exists>k. dict_get (fb_instances b) k = Some x)"
  by (simp add: live_def ran_def)

lemma accounted_register:
  assumes "accounted cfg base (b, h)" "inst = own_instance cfg i" "holds_only base b {inst} {i} h'"
  shows "accounted cfg base (register_instance i inst b, h')"
proof -
  have "dict_get (fb_instances b) i = None \<or> dict_get (fb_instances b) i = Some inst"
    using assms(1,2) by (cases "dict_get (fb_instances b) i") (auto simp: accounted_def)
  then have "x \<in> live (register_instance i inst b) \<longleftrightarrow> x \<in> live b \<union> {inst}" for x
    by (auto simp: mem_live register_instance_def map_of_dict_set) (metis option.distinct(1) option.inject)+
  then have l: "live (register_instance i inst b) = live b \<union> {inst}" by blast
  have g: "golden_files (register_instance i inst b) = golden_files b" by (simp add: golden_files_def register_instance_def)
  have d: "dom (map_of (fb_instances (register_instance i inst b))) = dom (map_of (fb_instances b)) \<union> {i}"
    by (auto simp: register_instance_def map_of_dict_set)
  have "\<forall>k x. dict_get (fb_instances (register_instance i inst b)) k = Some x \<longrightarrow> x = own_instance cfg k"
    "fb_golden_snapshot (register_instance i inst b) = None \<longrightarrow> fb_golden_rootfs (register_instance i inst b) = None"
    using assms(1,2) by (auto simp: accounted_def register_instance_def map_of_dict_set)
  moreover have "holds_only base (register_instance i inst b) {} {} h'"
    using assms(3) by (simp add: holds_only_def l g d Un_assoc)
  ultimately show ?thesis by (simp add: accounted_def)
qed

lemma cold_boot_ok:
  assumes env: "env_ok env cfg" and ok: "holds_only base b {} {} h"
  shows "(\<exists>h'. cold_boot env cfg i (b, h) = (Inl crashed, (b, h')) \<and> holds_only base b {} {} h') \<or>
    (\<exists>h'. cold_boot env cfg i (b, h) = (Inr \<lparr>h_id = i, h_tier = 2\<rparr>, (register_instance i (new_instance cfg True i) b, h')) \<and>
      i \<in> fh_procs h' \<and> holds_only base b {new_instance cfg True i} {i} h')"
proof -
  let ?inst = "new_instance cfg True i"
  let ?F = "fh_files base \<union> golden_files b \<union> (\<Union>inst \<in> live b. inst_files inst)"
  let ?L = "fh_listening base \<union> (\<lambda>inst. listen_path (in_vsock_uds inst)) ` live b"
  let ?P = "fh_procs base \<union> dom (map_of (fb_instances b))"
  let ?J = "fh_jails base \<union> (\<Union>inst \<in> live b. set_option (in_jail_dir inst))"
  have w: "confined (?F \<union> set_option (in_rootfs_copy ?inst)) ?L ?P ?J (add_file (fc_path cfg i ''-rootfs.ext4'') h)"
    using ok by (auto simp: holds_only_def confined_def add_file_def new_instance_def simp del: u_simps)
  have "fe_copy env (fc_path cfg i ''-rootfs.ext4'') = None" using env by (simp add: env_ok_def)
  moreover have "confined (?F \<union> inst_files ?inst) (insert (listen_path (in_vsock_uds ?inst)) ?L) (insert i ?P) ?J h' \<Longrightarrow>
      holds_only base b {?inst} {i} h'" for h'
    unfolding holds_only_def by (erule confined_mono) auto
  moreover have "confined ?F ?L ?P ?J h' \<Longrightarrow> holds_only base b {} {} h'" for h' by (simp add: holds_only_def)
  ultimately show ?thesis using start_instance_ok [OF env refl w, of "cold_requests cfg i"]
    by (fastforce simp: cold_boot_def Let_def)
qed

lemma restore_instance_ok:
  assumes env: "env_ok env cfg" and ok: "holds_only base b {} {} h" and g: "fb_golden_snapshot b = Some snap"
  shows "(\<exists>h'. restore_instance env cfg i (b, h) = (Inl crashed, (b, h')) \<and> holds_only base b {} {} h') \<or>
    (\<exists>h'. restore_instance env cfg i (b, h) =
        (Inr \<lparr>h_id = i, h_tier = 2\<rparr>, (register_instance i (new_instance cfg False i) b, h')) \<and>
      holds_only base b {new_instance cfg False i} {i} h')"
proof -
  let ?inst = "new_instance cfg False i"
  let ?F = "fh_files base \<union> golden_files b \<union> (\<Union>inst \<in> live b. inst_files inst)"
  let ?L = "fh_listening base \<union> (\<lambda>inst. listen_path (in_vsock_uds inst)) ` live b"
  let ?P = "fh_procs base \<union> dom (map_of (fb_instances b))"
  let ?J = "fh_jails base \<union> (\<Union>inst \<in> live b. set_option (in_jail_dir inst))"
  have w: "confined (?F \<union> set_option (in_rootfs_copy ?inst)) ?L ?P ?J h"
    using ok by (auto simp: holds_only_def confined_def)
  have "confined (?F \<union> inst_files ?inst) (insert (listen_path (in_vsock_uds ?inst)) ?L) (insert i ?P) ?J h' \<Longrightarrow>
      holds_only base b {?inst} {i} h'" for h'
    unfolding holds_only_def by (erule confined_mono) auto
  moreover have "confined ?F ?L ?P ?J h' \<Longrightarrow> holds_only base b {} {} h'" for h' by (simp add: holds_only_def)
  ultimately show ?thesis using start_instance_ok [OF env refl w, of "restore_requests cfg i snap"] g
    by (fastforce simp: restore_instance_def Let_def)
qed

lemma terminate_jailed_ok:
  assumes "\<forall>argv. fe_sudo env argv" "in_jail_dir inst = Some jail"
    and "holds_only base b {inst} {i} h" "listen_path (in_vsock_uds inst) \<notin> fh_listening h"
  shows "holds_only base b {} {} (terminate_jailed env i jail (in_console_log inst) h)"
  using assms
  by (fastforce simp: holds_only_def confined_def terminate_jailed_def Let_def called_def unlink_files_def inst_files_def)

lemma boot_jailed_ok:
  assumes env: "env_ok env cfg" and ok: "holds_only base b {} {} h"
  shows "(\<exists>h'. boot_jailed env cfg i (b, h) = (Inl crashed, (b, h')) \<and> holds_only base b {} {} h') \<or>
    (\<exists>h'. boot_jailed env cfg i (b, h) = (Inr \<lparr>h_id = i, h_tier = 2\<rparr>, (register_instance i (jailed_instance cfg i) b, h')) \<and>
      holds_only base b {jailed_instance cfg i} {i} h')"
proof (cases "fst (fe_stage env i)")
  case False
  with env have "\<not> snd (fe_stage env i)" by (auto simp: env_ok_def)
  with False ok show ?thesis by (simp add: boot_jailed_def Let_def holds_only_def)
next
  case True
  let ?inst = "jailed_instance cfg i" and ?jail = "jail_dir_of cfg i"
  let ?lp = "listen_path (in_vsock_uds ?inst)"
  let ?h2 = "if snd (fe_stage env i) then called (Command (stage_argv cfg i)) h
      \<lparr>fh_jails := insert ?jail (fh_jails (called (Command (stage_argv cfg i)) h))\<rparr> else called (Command (stage_argv cfg i)) h"
  let ?h3 = "called (Wrote (?jail @ u ''/root/vm-config.json'') (vm_config cfg)) ?h2"
  let ?h4 = "add_file (in_console_log ?inst) (?h3\<lparr>fh_listening := insert ?lp (fh_listening ?h3)\<rparr>)"
  define h5 where "h5 = called (Command (jailer_argv cfg i)) (?h4\<lparr>fh_procs := insert i (fh_procs ?h4)\<rparr>)"
  have none: "fe_listen env ?lp = None" "fe_spawn env i = None" and sudo: "\<forall>argv. fe_sudo env argv"
    using env by (simp_all add: env_ok_def)
  have jail: "in_jail_dir ?inst = Some ?jail" by (simp add: jailed_instance_def)
  have w: "holds_only base b {?inst} {i} h5"
    using ok jail by (auto simp: h5_def holds_only_def confined_def add_file_def called_def inst_files_def)
  then have "holds_only base b {?inst} {i} (close_server ?lp h5)" by (auto simp: holds_only_def confined_def close_server_def)
  from terminate_jailed_ok [OF sudo jail this] have "holds_only base b {} {} (snd (undo_jailed env i ?inst ?jail h5))"
    by (simp add: undo_jailed_def close_server_def)
  moreover have "boot_jailed env cfg i (b, h) =
      (case await_ready env i (undo_jailed env i ?inst ?jail) h5 of
         (Inl e, h6) \<Rightarrow> (Inl e, (b, h6))
       | (Inr _, h6) \<Rightarrow> (Inr \<lparr>h_id = i, h_tier = 2\<rparr>, (register_instance i ?inst b, h6)))"
    using True none unfolding h5_def by (simp add: boot_jailed_def Let_def del: u_simps)
  ultimately show ?thesis using await_ready_ok [OF env, of i "undo_jailed env i ?inst ?jail" h5] w
    by (auto simp: undo_jailed_def)
qed

text \<open>Taking an instance out.\<close>

definition removed :: "pystr \<Rightarrow> fc_backend \<Rightarrow> fc_backend" where
  "removed i b = b\<lparr>fb_instances := dict_pop i (fb_instances b)\<rparr>"

lemma holds_only_removed:
  assumes "holds_only base b {} {} h" "dict_get (fb_instances b) i = Some inst"
  shows "holds_only base (removed i b) {inst} {i} h"
proof -
  have "live b \<subseteq> live (removed i b) \<union> {inst}"
    using assms(2) by (auto simp: mem_live removed_def map_of_dict_pop) (metis option.inject)
  moreover have "dom (map_of (fb_instances b)) \<subseteq> dom (map_of (fb_instances (removed i b))) \<union> {i}"
    by (auto simp: removed_def map_of_dict_pop)
  moreover have "golden_files (removed i b) = golden_files b" by (simp add: golden_files_def removed_def)
  ultimately show ?thesis using assms(1) unfolding holds_only_def by (elim confined_mono) auto
qed

lemma cleanup_ok:
  assumes "holds_only base b {inst} {i} h" "in_jail_dir inst = None" "i \<notin> fh_procs h"
    and "listen_path (in_vsock_uds inst) \<notin> fh_listening h"
  shows "holds_only base b {} {} (cleanup_files inst True h)"
  using assms
  by (fastforce simp: holds_only_def confined_def cleanup_files_def unlink_files_def inst_files_def split: option.splits)

lemma accounted_terminate:
  assumes env: "env_ok env cfg" and ok: "accounted cfg base (b, h)"
  shows "accounted cfg base (fc_terminate env hdl (b, h))"
proof (cases "dict_get (fb_instances b) (h_id hdl)")
  case None
  with ok show ?thesis by (simp add: fc_terminate_def)
next
  case (Some inst)
  let ?i = "h_id hdl" and ?lp = "listen_path (in_vsock_uds inst)"
  have "holds_only base (removed ?i b) {inst} {?i} h"
    using holds_only_removed [OF _ Some] ok by (auto simp: accounted_def)
  then have held: "holds_only base (removed ?i b) {inst} {?i} (close_server ?lp h)"
    by (simp add: holds_only_def confined_def close_server_def) blast
  have rest: "\<forall>k x. dict_get (fb_instances (removed ?i b)) k = Some x \<longrightarrow> x = own_instance cfg k"
    "fb_golden_snapshot (removed ?i b) = None \<longrightarrow> fb_golden_rootfs (removed ?i b) = None"
    using ok by (auto simp: accounted_def removed_def map_of_dict_pop)
  have sudo: "\<forall>argv. fe_sudo env argv" using env by (simp add: env_ok_def)
  show ?thesis
  proof (cases "in_jail_dir inst")
    case None
    have "holds_only base (removed ?i b) {inst} {?i} (snd (kill_process ?i (close_server ?lp h)))"
      using held by (auto simp: kill_process_def holds_only_def confined_def)
    from cleanup_ok [OF this None] Some None rest show ?thesis
      by (simp add: accounted_def fc_terminate_def Let_def kill_process_def close_server_def flip: removed_def)
  next
    case jail: (Some jail)
    from terminate_jailed_ok [OF sudo jail held] Some jail rest show ?thesis
      by (simp add: accounted_def fc_terminate_def Let_def close_server_def flip: removed_def)
  qed
qed

lemma accounted_close:
  assumes "accounted cfg base (b, h)"
  shows "accounted cfg base (fc_close (b, h))"
  using assms
  by (auto simp: accounted_def holds_only_def confined_def fc_close_def Let_def unlink_files_def golden_files_def live_def
      split: option.splits)

lemma holds_only_swap:
  assumes "holds_only base b {x} I h" "live b \<union> {x} \<subseteq> live b' \<union> {y, x}"
    and "dom (map_of (fb_instances b)) \<subseteq> dom (map_of (fb_instances b')) \<union> I" "golden_files b' = golden_files b"
    and "inst_files y \<subseteq> inst_files x" "in_vsock_uds y = in_vsock_uds x" "in_jail_dir y = None"
  shows "holds_only base b' {x} I h"
proof -
  have "(\<Union>inst \<in> live b \<union> {x}. inst_files inst) \<subseteq> (\<Union>inst \<in> live b' \<union> {y, x}. inst_files inst)"
    using assms(2) by (rule UN_mono) simp
  also have "\<dots> \<subseteq> (\<Union>inst \<in> live b' \<union> {x}. inst_files inst)" using assms(5) by auto
  finally have f: "(\<Union>inst \<in> live b \<union> {x}. inst_files inst) \<subseteq> (\<Union>inst \<in> live b' \<union> {x}. inst_files inst)" .
  have "(\<Union>inst \<in> live b \<union> {x}. set_option (in_jail_dir inst)) \<subseteq> (\<Union>inst \<in> live b' \<union> {y, x}. set_option (in_jail_dir inst))"
    using assms(2) by (rule UN_mono) simp
  also have "\<dots> \<subseteq> (\<Union>inst \<in> live b' \<union> {x}. set_option (in_jail_dir inst))" using assms(7) by auto
  finally have j: "(\<Union>inst \<in> live b \<union> {x}. set_option (in_jail_dir inst)) \<subseteq>
      (\<Union>inst \<in> live b' \<union> {x}. set_option (in_jail_dir inst))" .
  have "(\<lambda>inst. listen_path (in_vsock_uds inst)) ` (live b \<union> {x}) \<subseteq>
      (\<lambda>inst. listen_path (in_vsock_uds inst)) ` (live b' \<union> {y, x})"
    using assms(2) by (rule image_mono)
  also have "\<dots> \<subseteq> (\<lambda>inst. listen_path (in_vsock_uds inst)) ` (live b' \<union> {x})" using assms(6) by auto
  finally have l: "(\<lambda>inst. listen_path (in_vsock_uds inst)) ` (live b \<union> {x}) \<subseteq>
      (\<lambda>inst. listen_path (in_vsock_uds inst)) ` (live b' \<union> {x})" .
  show ?thesis using assms(1) unfolding holds_only_def assms(4)
  proof (rule confined_mono)
    show "fh_procs base \<union> dom (map_of (fb_instances b)) \<union> I \<subseteq> fh_procs base \<union> dom (map_of (fb_instances b')) \<union> I"
      using assms(3) by auto
  qed (intro Un_mono order_refl f j l)+
qed

text \<open>The throwaway instance of the golden snapshot: taken out again, its root file system stays.\<close>

lemma holds_only_throwaway:
  assumes "accounted cfg base (b, h)" "\<not> fc_jailer cfg" "fc_snapshot_restore cfg"
    and "holds_only base b {new_instance cfg True g} {g} h'"
  shows "holds_only base (removed g (register_instance g (new_instance cfg True g) b)) {new_instance cfg True g} {g} h'"
proof -
  let ?b = "removed g (register_instance g (new_instance cfg True g) b)"
  have own: "x = new_instance cfg False g" if "dict_get (fb_instances b) g = Some x" for x
    using that assms(1-3) by (auto simp: accounted_def own_instance_def)
  have l: "live b \<subseteq> live ?b \<union> {new_instance cfg False g}"
    using own by (auto simp: mem_live removed_def register_instance_def map_of_dict_pop map_of_dict_set) (metis option.inject)
  have d: "dom (map_of (fb_instances b)) \<subseteq> dom (map_of (fb_instances ?b)) \<union> {g}"
    by (auto simp: removed_def register_instance_def map_of_dict_pop map_of_dict_set)
  have g: "golden_files ?b = golden_files b" by (simp add: golden_files_def removed_def register_instance_def)
  have same: "inst_files (new_instance cfg False g) \<subseteq> inst_files (new_instance cfg True g)"
    "in_vsock_uds (new_instance cfg False g) = in_vsock_uds (new_instance cfg True g)"
    "in_jail_dir (new_instance cfg False g) = None"
    by (auto simp: inst_files_def new_instance_def)
  have "live b \<union> {new_instance cfg True g} \<subseteq> live ?b \<union> {new_instance cfg False g, new_instance cfg True g}" using l by blast
  from holds_only_swap [OF assms(4) this d g] same show ?thesis by simp
qed

definition goldened :: "pystr \<times> pystr \<Rightarrow> pystr option \<Rightarrow> fc_backend \<Rightarrow> fc_backend" where
  "goldened snap rootfs b = b\<lparr>fb_golden_snapshot := Some snap, fb_golden_rootfs := rootfs\<rparr>"

lemma golden_cleanup_ok:
  assumes "holds_only base b {inst} {i} h" "in_jail_dir inst = None" "fb_golden_snapshot b = None" "fb_golden_rootfs b = None"
    and "h' = (if made then add_file (fst snap) (add_file (snd snap) h) else h)"
  shows "holds_only base (goldened snap (in_rootfs_copy inst) b) {} {}
    (cleanup_files inst False (close_server (listen_path (in_vsock_uds inst)) (h'\<lparr>fh_procs := fh_procs h' - {i}\<rparr>)))"
proof -
  have f: "fh_files h' \<subseteq> fh_files h \<union> {fst snap, snd snap}" "fh_listening h' = fh_listening h" "fh_procs h' = fh_procs h"
    "fh_jails h' = fh_jails h"
    using assms(5) by (auto simp: add_file_def)
  have l: "live (goldened snap (in_rootfs_copy inst) b) = live b"
    "fb_instances (goldened snap (in_rootfs_copy inst) b) = fb_instances b"
    "golden_files (goldened snap (in_rootfs_copy inst) b) = {fst snap, snd snap} \<union> set_option (in_rootfs_copy inst)"
    "golden_files b = {}"
    using assms(3,4) by (auto simp: goldened_def live_def golden_files_def split: prod.split)
  let ?h = "cleanup_files inst False (close_server (listen_path (in_vsock_uds inst)) (h'\<lparr>fh_procs := fh_procs h' - {i}\<rparr>))"
  have c: "fh_files ?h = fh_files h' - {in_api_sock inst, in_console_log inst, in_vsock_uds inst, listen_path (in_vsock_uds inst)}"
    "fh_listening ?h = fh_listening h - {listen_path (in_vsock_uds inst)}" "fh_procs ?h = fh_procs h - {i}"
    "fh_jails ?h = fh_jails h"
    using f(2-4) by (simp_all add: cleanup_files_def unlink_files_def close_server_def)
  have i: "inst_files inst = {in_api_sock inst, in_console_log inst, in_vsock_uds inst, listen_path (in_vsock_uds inst)}
      \<union> set_option (in_rootfs_copy inst)" using assms(2) by (auto simp: inst_files_def)
  have a: "fh_files h \<subseteq> fh_files base \<union> (\<Union>x \<in> live b. inst_files x) \<union> inst_files inst"
    "fh_listening h \<subseteq> fh_listening base \<union> (\<lambda>x. listen_path (in_vsock_uds x)) ` live b \<union> {listen_path (in_vsock_uds inst)}"
    "fh_procs h \<subseteq> fh_procs base \<union> dom (map_of (fb_instances b)) \<union> {i}"
    "fh_jails h \<subseteq> fh_jails base \<union> (\<Union>x \<in> live b. set_option (in_jail_dir x))"
    using assms(1,2) l(4) by (auto simp: holds_only_def confined_def)
  have files: "fh_files h' - {in_api_sock inst, in_console_log inst, in_vsock_uds inst, listen_path (in_vsock_uds inst)} \<subseteq>
      B \<union> ({fst snap, snd snap} \<union> set_option (in_rootfs_copy inst)) \<union> A"
    if "fh_files h \<subseteq> B \<union> A \<union> inst_files inst" for A B
    using that f(1) unfolding i by auto
  show ?thesis unfolding holds_only_def confined_def l c Un_empty_right
    using files [OF a(1)] a(2-4) by (intro conjI) (assumption | simp add: Diff_subset_conv Un_ac)+
qed

lemma ensure_golden_ok:
  assumes env: "env_ok env cfg" and ok: "accounted cfg base (b, h)" and cfg: "\<not> fc_jailer cfg" "fc_snapshot_restore cfg"
  shows "(\<exists>h'. ensure_golden_snapshot env cfg g (b, h) = (Inl crashed, (b, h')) \<and> accounted cfg base (b, h')) \<or>
    (\<exists>b' h'. ensure_golden_snapshot env cfg g (b, h) = (Inr (), (b', h')) \<and> accounted cfg base (b', h') \<and>
      fb_golden_snapshot b' \<noteq> None)"
proof (cases "fb_golden_snapshot b")
  case (Some snap)
  with ok show ?thesis by (simp add: ensure_golden_snapshot_def)
next
  case None
  let ?inst = "new_instance cfg True g" and ?snap = "snapshot_paths cfg b"
  let ?b = "removed g (register_instance g ?inst b)"
  have hold: "holds_only base b {} {} h" and own: "\<And>h'. holds_only base b {} {} h' \<Longrightarrow> accounted cfg base (b, h')"
    and rootfs: "fb_golden_rootfs b = None"
    using ok None by (auto simp: accounted_def)
  consider h' where "cold_boot env cfg g (b, h) = (Inl crashed, (b, h'))" "holds_only base b {} {} h'"
    | h' where "cold_boot env cfg g (b, h) = (Inr \<lparr>h_id = g, h_tier = 2\<rparr>, (register_instance g ?inst b, h'))"
      "g \<in> fh_procs h'" "holds_only base b {?inst} {g} h'"
    using cold_boot_ok [OF env hold, of g] by blast
  then show ?thesis
  proof cases
    case 1
    with None own show ?thesis by (simp add: ensure_golden_snapshot_def)
  next
    case 2
    let ?h1 = "unlink_files [fst ?snap, snd ?snap] h'"
    obtain cs where calls: "api_calls env (in_api_sock ?inst) (snapshot_requests ?snap) ?h1 = (Inr (), ?h1\<lparr>fh_calls := cs\<rparr>)"
      using api_calls_ok [of env "in_api_sock ?inst" "snapshot_requests ?snap" ?h1] env by (auto simp: env_ok_def)
    define h2 where "h2 = ?h1\<lparr>fh_calls := cs\<rparr>"
    define h3 where "h3 = (if fe_snapped env then add_file (fst ?snap) (add_file (snd ?snap) h2) else h2)"
    have "holds_only base ?b {?inst} {g} h'" by (rule holds_only_throwaway [OF ok cfg 2(3)])
    then have w: "holds_only base ?b {?inst} {g} h2"
      by (simp add: h2_def holds_only_def confined_def unlink_files_def) blast
    have g: "g \<in> fh_procs h3" using 2(2) by (simp add: h3_def h2_def add_file_def unlink_files_def)
    have b: "fb_golden_snapshot ?b = None" "fb_golden_rootfs ?b = None" "in_jail_dir ?inst = None"
      using None rootfs by (simp_all add: removed_def register_instance_def new_instance_def)
    let ?b' = "goldened ?snap (in_rootfs_copy ?inst) ?b"
    let ?h' = "cleanup_files ?inst False (close_server (listen_path (in_vsock_uds ?inst)) (h3\<lparr>fh_procs := fh_procs h3 - {g}\<rparr>))"
    have "ensure_golden_snapshot env cfg g (b, h) = (Inr (), (?b', ?h'))"
      using None 2(1) calls g
      by (simp add: ensure_golden_snapshot_def Let_def kill_process_def goldened_def removed_def flip: h2_def h3_def)
    moreover have "holds_only base ?b' {} {} ?h'" by (rule golden_cleanup_ok [OF w b(3) b(1) b(2) h3_def])
    moreover have "\<forall>i inst. dict_get (fb_instances ?b') i = Some inst \<longrightarrow> inst = own_instance cfg i"
      using ok by (auto simp: accounted_def goldened_def removed_def register_instance_def map_of_dict_pop map_of_dict_set)
    ultimately show ?thesis by (auto simp: accounted_def goldened_def)
  qed
qed

lemma accounted_boot:
  assumes env: "env_ok env cfg" and ok: "accounted cfg base (b, h)" and cfg: "\<not> (fc_jailer cfg \<and> fc_snapshot_restore cfg)"
  shows "\<exists>b' h' r. fc_boot_clean env cfg g i (b, h) = (r, (b', h')) \<and> accounted cfg base (b', h') \<and>
    (r = Inl crashed \<or> r = Inr \<lparr>h_id = i, h_tier = 2\<rparr> \<and> dict_get (fb_instances b') i = Some (own_instance cfg i))"
proof -
  have hold: "holds_only base b {} {} h" and own: "\<And>h'. holds_only base b {} {} h' \<Longrightarrow> accounted cfg base (b, h')"
    using ok by (auto simp: accounted_def)
  have reg: "accounted cfg base (register_instance i (own_instance cfg i) b'', h'') \<and>
      dict_get (fb_instances (register_instance i (own_instance cfg i) b'')) i = Some (own_instance cfg i)"
    if "accounted cfg base (b'', h0)" "holds_only base b'' {own_instance cfg i} {i} h''" for b'' h0 h''
    using accounted_register [OF that(1) refl that(2)] by (simp add: register_instance_def map_of_dict_set)
  consider "fc_jailer cfg" | "\<not> fc_jailer cfg" "\<not> fc_snapshot_restore cfg" | "\<not> fc_jailer cfg" "fc_snapshot_restore cfg" by blast
  then show ?thesis
  proof cases
    case 1
    then have o: "own_instance cfg i = jailed_instance cfg i" by (simp add: own_instance_def)
    show ?thesis using boot_jailed_ok [OF env hold, of i] 1 own reg [OF ok] unfolding o by (auto simp: fc_boot_clean_def)
  next
    case 2
    then have o: "own_instance cfg i = new_instance cfg True i" by (simp add: own_instance_def)
    show ?thesis using cold_boot_ok [OF env hold, of i] 2 own reg [OF ok] unfolding o by (auto simp: fc_boot_clean_def)
  next
    case 3
    then have o: "own_instance cfg i = new_instance cfg False i" by (simp add: own_instance_def)
    consider h1 where "ensure_golden_snapshot env cfg g (b, h) = (Inl crashed, (b, h1))" "accounted cfg base (b, h1)"
      | b1 h1 snap where "ensure_golden_snapshot env cfg g (b, h) = (Inr (), (b1, h1))" "accounted cfg base (b1, h1)"
        "fb_golden_snapshot b1 = Some snap"
      using ensure_golden_ok [OF env ok 3, of g] by auto
    then show ?thesis
    proof cases
      case 1
      with 3 show ?thesis by (auto simp: fc_boot_clean_def)
    next
      case 2
      have hold1: "holds_only base b1 {} {} h1" and own1: "\<And>h'. holds_only base b1 {} {} h' \<Longrightarrow> accounted cfg base (b1, h')"
        using 2(2) by (auto simp: accounted_def)
      show ?thesis using restore_instance_ok [OF env hold1 2(3), of i] 2(1) 3 own1 reg [OF 2(2)] unfolding o
        by (auto simp: fc_boot_clean_def)
    qed
  qed
qed

section \<open>What a history leaves behind\<close>

datatype fc_op = BootOp pystr pystr | TerminateOp handle | CloseOp

fun fc_apply :: "fc_env \<Rightarrow> fc_config \<Rightarrow> fc_op \<Rightarrow> fc_backend \<times> fc_host \<Rightarrow> fc_backend \<times> fc_host" where
  "fc_apply env cfg (BootOp g i) s = snd (fc_boot_clean env cfg g i s)"
| "fc_apply env cfg (TerminateOp hdl) s = fc_terminate env hdl s"
| "fc_apply env cfg CloseOp s = fc_close s"

lemma accounted_apply:
  assumes "env_ok env cfg" "\<not> (fc_jailer cfg \<and> fc_snapshot_restore cfg)" "accounted cfg base s"
  shows "accounted cfg base (fc_apply env cfg op s)"
proof -
  obtain b h where s: "s = (b, h)" by (cases s)
  show ?thesis
  proof (cases op)
    case (BootOp g i)
    with accounted_boot [OF assms(1) _ assms(2), of base b h g i] assms(3) s show ?thesis by auto
  next
    case (TerminateOp hdl)
    with accounted_terminate [OF assms(1), of base b h hdl] assms(3) s show ?thesis by simp
  next
    case CloseOp
    with accounted_close [of cfg base b h] assms(3) s show ?thesis by simp
  qed
qed

lemma accounted_history:
  assumes "env_ok env cfg" "\<not> (fc_jailer cfg \<and> fc_snapshot_restore cfg)" "accounted cfg base s"
  shows "accounted cfg base (fold (fc_apply env cfg) ops s)"
  using assms(3)
proof (induction ops arbitrary: s)
  case (Cons op ops)
  from Cons.IH [OF accounted_apply [OF assms(1,2) Cons.prems]] show ?case by simp
qed simp

lemma accounted_closed:
  assumes "accounted cfg base (b, h)" "fb_instances b = []"
  shows "confined (fh_files base) (fh_listening base) (fh_procs base) (fh_jails base) (snd (fc_close (b, h)))"
  using accounted_close [OF assms(1)] assms(2)
  by (auto simp: accounted_def holds_only_def confined_def fc_close_def Let_def live_def golden_files_def unlink_files_def
      split: option.splits)

definition demo_fc_config :: fc_config where
  "demo_fc_config =
     \<lparr>fc_binary = u ''fc'', fc_kernel = u ''k'', fc_rootfs = u ''r'', fc_vcpu_count = 2, fc_mem_size_mib = 512,
      fc_shim_path = u ''/tmp/guest_shim.py'', fc_socket_dir = u ''/tmp'', fc_snapshot_restore = False, fc_jailer = False,
      fc_jailer_binary = [], fc_jail_uid = 0, fc_jail_gid = 0, fc_chroot_base_dir = u ''/srv/jailer'', fc_stage_script = []\<rparr>"

definition demo_fc_env :: "pyval result \<times> bool \<Rightarrow> fc_env" where
  "demo_fc_env ready =
     \<lparr>fe_copy = \<lambda>_. None, fe_listen = \<lambda>_. None, fe_spawn = \<lambda>_. None, fe_curl = \<lambda>_. None, fe_made = \<lambda>_. {},
      fe_ready = \<lambda>_. ready, fe_snapped = True, fe_stage = \<lambda>_. (True, True), fe_sudo = \<lambda>_. True\<rparr>"

definition bare_host :: fc_host where
  "bare_host = \<lparr>fh_files = {}, fh_listening = {}, fh_procs = {}, fh_jails = {}, fh_calls = []\<rparr>"

definition bare_backend :: fc_backend where
  "bare_backend = \<lparr>fb_instances = [], fb_golden_id = u ''0'', fb_golden_snapshot = None, fb_golden_rootfs = None\<rparr>"

text \<open>C15: no history leaks. On a host whose steps succeed, where a guest that does not come up keeps silent or
  says something else while its process still runs, take any sequence of boots (cold, jailed or from the golden
  snapshot, which the first of them creates), terminations and closings of a new backend. At every point each
  file, listening socket, process and jail directory that was not there before belongs to a live instance or to
  the golden snapshot; once no instance is live, closing the backend leaves nothing.\<close>

theorem firecracker_no_leak:
  assumes "env_ok env cfg" "new_fc_backend cfg golden_id = Inr b"
    and "fold (fc_apply env cfg) ops (b, base) = (b', h')"
  shows "accounted cfg base (b', h') \<and>
    (fb_instances b' = [] \<longrightarrow>
       confined (fh_files base) (fh_listening base) (fh_procs base) (fh_jails base) (snd (fc_close (b', h'))))"
proof -
  have "\<not> (fc_jailer cfg \<and> fc_snapshot_restore cfg)" "accounted cfg base (b, base)"
    using assms(2) by (auto simp: new_fc_backend_def accounted_def holds_only_def confined_def split: if_splits)
  from accounted_history [OF assms(1) this, of ops] assms(3) accounted_closed show ?thesis by auto
qed

theorem firecracker_no_leak_witness:
  "accounted demo_fc_config bare_host
     (fold (fc_apply (demo_fc_env (Inr (PDict [(u ''type'', PStr (u ''ready''))]), True)) demo_fc_config)
        [BootOp (u ''a'') (u ''b''), TerminateOp \<lparr>h_id = u ''b'', h_tier = 2\<rparr>] (bare_backend, bare_host))"
proof -
  obtain b' h' where f: "fold (fc_apply (demo_fc_env (Inr (PDict [(u ''type'', PStr (u ''ready''))]), True)) demo_fc_config)
      [BootOp (u ''a'') (u ''b''), TerminateOp \<lparr>h_id = u ''b'', h_tier = 2\<rparr>] (bare_backend, bare_host) = (b', h')" by fastforce
  have "env_ok (demo_fc_env (Inr (PDict [(u ''type'', PStr (u ''ready''))]), True)) demo_fc_config"
    by (simp add: env_ok_def demo_fc_env_def)
  from firecracker_no_leak [OF this _ f, of "u ''0''"] show ?thesis unfolding f
    by (simp add: new_fc_backend_def demo_fc_config_def bare_backend_def)
qed

text \<open>C19: a machine that dies while it boots leaks what it used. If the firecracker process has ended by the time
  the wait for its guest is over (a bad kernel image, say), \<^verbatim>\<open>process.kill()\<close> raises \<^verbatim>\<open>ProcessLookupError\<close> before
  anything is cleaned up: the caller gets that instead of \<^verbatim>\<open>SandboxCrashedError\<close>, the copy of the root file system
  and the console log stay, the listener stays open, and as no instance was recorded, terminating the handle
  changes nothing.\<close>

theorem dead_boot_leaks:
  assumes "\<not> fc_jailer cfg" "\<not> fc_snapshot_restore cfg"
    and "fe_copy env (fc_path cfg i ''-rootfs.ext4'') = None" "fe_listen env (listen_path (fc_path cfg i ''-vsock.sock'')) = None"
    and "fe_spawn env i = None" "\<forall>p. fe_curl env p = None"
    and "fe_ready env i = (Inl e, False)" "exc_isa TimeoutError e" "dict_get (fb_instances b) i = None"
  shows "\<exists>h'. fc_boot_clean env cfg g i (b, h) = (Inl (raised ProcessLookupError []), (b, h')) \<and>
    {fc_path cfg i ''-rootfs.ext4'', fc_path cfg i ''-console.log''} \<subseteq> fh_files h' \<and>
    listen_path (fc_path cfg i ''-vsock.sock'') \<in> fh_listening h' \<and>
    fc_terminate env \<lparr>h_id = i, h_tier = 2\<rparr> (b, h') = (b, h')"
proof -
  let ?inst = "new_instance cfg True i"
  have inst: "in_vsock_uds ?inst = fc_path cfg i ''-vsock.sock''" "in_console_log ?inst = fc_path cfg i ''-console.log''"
    by (simp_all add: new_instance_def)
  have "\<exists>h'. start_instance env cfg i ?inst (cold_requests cfg i) (add_file (fc_path cfg i ''-rootfs.ext4'') h) =
      (Inl (raised ProcessLookupError []), h') \<and>
    {fc_path cfg i ''-rootfs.ext4'', fc_path cfg i ''-console.log''} \<subseteq> fh_files h' \<and>
    listen_path (fc_path cfg i ''-vsock.sock'') \<in> fh_listening h'"
    using dead_start [of env ?inst i e cfg "cold_requests cfg i" "add_file (fc_path cfg i ''-rootfs.ext4'') h"] inst assms(4-8)
    by (auto simp: add_file_def)
  with assms(1-3,9) show ?thesis by (auto simp: fc_boot_clean_def cold_boot_def Let_def fc_terminate_def)
qed

text \<open>A boot that is cancelled while it waits leaks the machine itself: the process keeps running, its root
  file system, log and listener stay, and no instance is recorded. The pool cancels a boot after five seconds;
  the boot waits up to ten.\<close>

lemma cancelled_boot_leaks:
  assumes "\<not> fc_jailer cfg" "\<not> fc_snapshot_restore cfg"
    and "fe_copy env (fc_path cfg i ''-rootfs.ext4'') = None" "fe_listen env (listen_path (fc_path cfg i ''-vsock.sock'')) = None"
    and "fe_spawn env i = None" "\<forall>p. fe_curl env p = None"
    and "fe_ready env i = (Inl (raised CancelledError []), True)" "dict_get (fb_instances b) i = None"
  shows "\<exists>h'. fc_boot_clean env cfg g i (b, h) = (Inl (raised CancelledError []), (b, h')) \<and> i \<in> fh_procs h' \<and>
    {fc_path cfg i ''-rootfs.ext4'', fc_path cfg i ''-console.log''} \<subseteq> fh_files h' \<and>
    listen_path (fc_path cfg i ''-vsock.sock'') \<in> fh_listening h' \<and>
    fc_terminate env \<lparr>h_id = i, h_tier = 2\<rparr> (b, h') = (b, h')"
proof -
  let ?inst = "new_instance cfg True i"
  have inst: "in_vsock_uds ?inst = fc_path cfg i ''-vsock.sock''" "in_console_log ?inst = fc_path cfg i ''-console.log''"
    by (simp_all add: new_instance_def)
  have "\<exists>h'. start_instance env cfg i ?inst (cold_requests cfg i) (add_file (fc_path cfg i ''-rootfs.ext4'') h) =
      (Inl (raised CancelledError []), h') \<and> i \<in> fh_procs h' \<and>
    {fc_path cfg i ''-rootfs.ext4'', fc_path cfg i ''-console.log''} \<subseteq> fh_files h' \<and>
    listen_path (fc_path cfg i ''-vsock.sock'') \<in> fh_listening h'"
    using cancelled_start [of env ?inst i cfg "cold_requests cfg i" "add_file (fc_path cfg i ''-rootfs.ext4'') h"] inst assms(4-7)
    by (auto simp: add_file_def started_host_def)
  with assms(1-3,8) show ?thesis by (auto simp: fc_boot_clean_def cold_boot_def Let_def fc_terminate_def)
qed

theorem dead_boot_leaks_witness:
  "\<exists>h'. fc_boot_clean (demo_fc_env (Inl (raised TimeoutError []), False)) demo_fc_config (u ''a'') (u ''b'') (bare_backend, bare_host) =
      (Inl (raised ProcessLookupError []), (bare_backend, h')) \<and>
    {fc_path demo_fc_config (u ''b'') ''-rootfs.ext4'', fc_path demo_fc_config (u ''b'') ''-console.log''} \<subseteq> fh_files h' \<and>
    listen_path (fc_path demo_fc_config (u ''b'') ''-vsock.sock'') \<in> fh_listening h' \<and>
    fc_terminate (demo_fc_env (Inl (raised TimeoutError []), False)) \<lparr>h_id = u ''b'', h_tier = 2\<rparr> (bare_backend, h') = (bare_backend, h')"
  by (rule dead_boot_leaks [where e = "raised TimeoutError []"])
     (simp_all add: demo_fc_config_def demo_fc_env_def bare_backend_def exc_simps)

lemma cancelled_boot_leaks_witness:
  "\<exists>h'. fc_boot_clean (demo_fc_env (Inl (raised CancelledError []), True)) demo_fc_config (u ''a'') (u ''b'') (bare_backend, bare_host) =
      (Inl (raised CancelledError []), (bare_backend, h')) \<and> u ''b'' \<in> fh_procs h' \<and>
    {fc_path demo_fc_config (u ''b'') ''-rootfs.ext4'', fc_path demo_fc_config (u ''b'') ''-console.log''} \<subseteq> fh_files h' \<and>
    listen_path (fc_path demo_fc_config (u ''b'') ''-vsock.sock'') \<in> fh_listening h' \<and>
    fc_terminate (demo_fc_env (Inl (raised CancelledError []), True)) \<lparr>h_id = u ''b'', h_tier = 2\<rparr> (bare_backend, h') = (bare_backend, h')"
  by (rule cancelled_boot_leaks) (simp_all add: demo_fc_config_def demo_fc_env_def bare_backend_def)

end
