(* ===== verification/SandboxContract.thy ===== *)
theory SandboxContract
  imports ExternalCalls FirecrackerBoot
begin

text \<open>
  The contract between a sandbox and the calls that run code in it, over \<^verbatim>\<open>SandboxBackend\<close> of
  \<^verbatim>\<open>src/fabrica/sandbox/backend.py\<close>. The locale \<open>running_sandbox\<close> says what the pool relies on when it
  runs a request in an instance and gives it back, \<open>answering_sandbox\<close> what the caller relies on, that a program that
  ends is reported and every failure is an \<^verbatim>\<open>Exception\<close>; the reply of an external call follows once, inside
  the locales. The backends of the code interpret them: the shim as a process, plain (Tier 0) or wrapped in \<^verbatim>\<open>srt\<close>
  (Tier 1), and in a micro virtual machine (Tier 2).
\<close>

section \<open>The request of an external call\<close>

text \<open>What a call of one of the two tools that run code orders, if it gets as far as the sandbox: exactly the code the
  caller gave to \<^verbatim>\<open>fabrica_run_code\<close>, with the registered tools, or the script of a loaded skill behind the line that
  binds \<^verbatim>\<open>args\<close> to the JSON of the caller's arguments, with no tools.\<close>

definition asked_for ::
    "('p, 'f, 'b, 't, 's, 'c, 'q) ports \<Rightarrow> ('p, 'f, 'g, 'b, 't, 's, 'c, 'q) fabrica \<Rightarrow> pystr \<Rightarrow> pydict \<Rightarrow> pystr
     \<Rightarrow> 't exec_request option" where
  "asked_for po fab name kwargs agent =
     (if name = u ''fabrica_run_code'' then
        (case dict_get kwargs (u ''code'') of
           Some (PStr code) \<Rightarrow>
             Some \<lparr>xr_action = u ''code_mode'', xr_agent_id = agent, xr_scope = agent_scope agent, xr_code = code,
                   xr_on_tool_call = tm_on_tool_call (fab_tools fab), xr_timeout = default_run_timeout,
                   xr_tool_call_timeout = None, xr_skill_name = None\<rparr>
         | _ \<Rightarrow> None)
      else if name = u ''fabrica_run_skill'' then
        (case dict_get kwargs (u ''name'') of
           Some (PStr n) \<Rightarrow>
             Option.bind (dict_get (fab_skills fab) n) (\<lambda>sk.
             Option.bind (sk_script sk) (\<lambda>script.
               case po_read_text po (sk_dir sk) script of
                 Inl e \<Rightarrow> None
               | Inr body \<Rightarrow>
                   Some \<lparr>xr_action = u ''skill_run:'' @ n, xr_agent_id = agent, xr_scope = agent_scope agent,
                         xr_code = u ''args = '' @ json_dumps (po_float_text po) (dict_get_or kwargs (u ''args'') (PDict []))
                           @ [10] @ body,
                         xr_on_tool_call = no_tools, xr_timeout = default_run_timeout, xr_tool_call_timeout = None,
                         xr_skill_name = Some n\<rparr>))
         | _ \<Rightarrow> None)
      else None)"

text \<open>The managers build just these requests.\<close>

lemma asked_for_requests:
  "asked_for po fab name kwargs agent =
     (if name = u ''fabrica_run_code'' then
        (case dict_get kwargs (u ''code'') of
           Some (PStr code) \<Rightarrow> Some (code_request (fab_tools fab) code agent (agent_scope agent) default_run_timeout None)
         | _ \<Rightarrow> None)
      else if name = u ''fabrica_run_skill'' then
        (case dict_get kwargs (u ''name'') of
           Some (PStr n) \<Rightarrow>
             Option.bind (dict_get (fab_skills fab) n) (\<lambda>sk.
             Option.bind (sk_script sk) (\<lambda>script.
               case po_read_text po (sk_dir sk) script of
                 Inl e \<Rightarrow> None
               | Inr body \<Rightarrow>
                   Some (skill_request n (skill_code (po_float_text po) (dict_get_or kwargs (u ''args'') (PDict [])) body)
                     agent (agent_scope agent) default_run_timeout None)))
         | _ \<Rightarrow> None)
      else None)"
  by (simp only: asked_for_def code_request_def skill_request_def skill_code_def)

definition replied :: "(real \<Rightarrow> pystr) \<Rightarrow> (exc \<Rightarrow> pystr) \<Rightarrow> run_result result \<Rightarrow> call_reply result" where
  "replied fr str_exc rr =
     (case rr of
        Inl e \<Rightarrow> if is_Exception e then Inr \<lparr>cr_text = str_exc e, cr_is_error = True\<rparr> else Inl e
      | Inr v \<Rightarrow> Inr \<lparr>cr_text = json_dumps fr (asdict_run_result v), cr_is_error = False\<rparr>)"

lemma asked_for_fields:
  assumes "asked_for po fab name kwargs agent = Some x"
  shows "xr_agent_id x = agent" "xr_scope x = agent_scope agent" "xr_timeout x = default_run_timeout" "xr_tool_call_timeout x = None"
    "xr_on_tool_call x = tm_on_tool_call (fab_tools fab) \<or> xr_on_tool_call x = no_tools"
  using assms
  by (auto simp: asked_for_def simp del: u_simps
      split: if_splits option.splits pyval.splits sum.splits bind_splits)

text \<open>What the managers do with the request, whatever ids the spans have.\<close>

lemma request_runs:
  assumes "asked_for po fab name kwargs agent = Some x"
    and "execute_outcome check (po_sandbox po) (po_wakes po) x (fab_exec fab) = (rr, w')"
  shows "\<exists>handler t'. tool_handler (fabrica_facade check po) name = Some handler \<and>
    handler agent kwargs (t, fab) = (map_sum id asdict_run_result rr, (t', fab\<lparr>fab_exec := w'\<rparr>))"
proof (cases "name = u ''fabrica_run_code''")
  case True
  then have name: "name = u ''fabrica_run_code''" .
  with assms(1) obtain code where c: "dict_get kwargs (u ''code'') = Some (PStr code)"
    and x: "x = code_request (fab_tools fab) code agent (agent_scope agent) default_run_timeout None"
    by (auto simp: asked_for_requests simp del: u_simps split: option.splits pyval.splits)
  obtain r1 ta x1 where run: "tm_run_code check (po_sandbox po) (po_hexdigest po) (po_latency po) (po_wakes po) (tools_of fab) code
      agent (agent_scope agent) default_run_timeout None (t, fab_exec fab) = (r1, (ta, x1))" by (metis prod.exhaust)
  from execute_implements [OF run [unfolded tm_run_code_def]] assms(2) x have r: "r1 = rr" "x1 = w'"
    by (simp_all add: tools_of_def)
  have "handle_run_code (fabrica_facade check po) agent kwargs (t, fab) =
      (map_sum id asdict_run_result rr, (ta, fab\<lparr>fab_exec := w'\<rparr>))"
    using c run r
    by (simp add: handle_run_code_def required_def and_then_def fabrica_facade_def facade_run_code_def shown_def on_exec_def
        io_zoom_def del: u_simps)
  with name show ?thesis by (simp add: tool_handler_def)
next
  case False
  with assms(1) have name: "name = u ''fabrica_run_skill''" by (simp add: asked_for_requests del: u_simps split: if_splits)
  let ?args = "dict_get_or kwargs (u ''args'') (PDict [])"
  from assms(1) False obtain n sk script body where n: "dict_get kwargs (u ''name'') = Some (PStr n)"
    and sk: "dict_get (fab_skills fab) n = Some sk" "sk_script sk = Some script" "po_read_text po (sk_dir sk) script = Inr body"
    and x: "x = skill_request n (skill_code (po_float_text po) ?args body) agent (agent_scope agent) default_run_timeout None"
    by (auto simp: asked_for_requests simp del: u_simps split: if_splits option.splits pyval.splits sum.splits bind_splits)
  obtain r1 ta x1 where run: "sm_run check (po_sandbox po) (po_hexdigest po) (po_latency po) (po_wakes po) (po_read_text po)
      (po_float_text po) (skills_of fab) n ?args agent (agent_scope agent) default_run_timeout None (t, fab_exec fab) = (r1, (ta, x1))"
    by (metis prod.exhaust)
  with sk x have "execute_in_sandbox check (po_sandbox po) (po_hexdigest po) (po_latency po) (po_wakes po) x (t, fab_exec fab) =
      (r1, (ta, x1))"
    by (simp add: sm_run_def skills_of_def)
  from execute_implements [OF this] assms(2) have r: "r1 = rr" "x1 = w'" by simp_all
  have "handle_run_skill (fabrica_facade check po) agent kwargs (t, fab) =
      (map_sum id asdict_run_result rr, (ta, fab\<lparr>fab_exec := w'\<rparr>))"
    using n run r
    by (simp add: handle_run_skill_def required_def and_then_def fabrica_facade_def facade_run_skill_def shown_def on_exec_def
        io_zoom_def del: u_simps)
  with name show ?thesis by (auto simp: tool_handler_def)
qed

text \<open>A call whose agent may run its request is the run of that request, its result as JSON text.\<close>

definition allowed_call ::
    "(pystr \<Rightarrow> pystr \<Rightarrow> scope \<Rightarrow> 'g \<Rightarrow> grant result \<times> 'g) \<Rightarrow> mcp_server \<Rightarrow> access_token option \<Rightarrow> ('p, 'f, 'b, 't, 's, 'c, 'q) ports
     \<Rightarrow> ('p, 'f, 'g, 'b, 't, 's, 'c, 'q) fabrica \<Rightarrow> pystr \<Rightarrow> pydict \<Rightarrow> 't exec_request \<Rightarrow> 'g \<Rightarrow> bool" where
  "allowed_call check srv access po fab name kwargs x c' \<longleftrightarrow>
     (case resolve_agent_id srv access of
        Inl e \<Rightarrow> False
      | Inr agent \<Rightarrow>
          kwargs_ok kwargs \<and> asked_for po fab name kwargs agent = Some x \<and> \<not> isl (utf8_encode (xr_code x)) \<and>
          (case check agent (xr_action x) (agent_scope agent) (ew_client (fab_exec fab)) of
             (Inl e, c) \<Rightarrow> False
           | (Inr g, c) \<Rightarrow> gr_decision g = Allow \<and> c = c'))"

lemma allowed_encodes: "allowed_call check srv access po fab name kwargs x c' \<Longrightarrow> \<exists>bytes. utf8_encode (xr_code x) = Inr bytes"
  by (auto simp: allowed_call_def isl_def split: sum.splits) (meson sumE)

lemma allowed_reply:
  assumes "allowed_call check srv access po fab name kwargs x c'"
    and "sandboxed_outcome (po_sandbox po) (po_wakes po) x ((fab_exec fab)\<lparr>ew_client := c'\<rparr>) = (rr, w')"
  shows "\<exists>t'. on_call_tool fr str_exc srv (fabrica_facade check po) access name (Some kwargs) (t, fab) =
    (replied fr str_exc rr, (t', fab\<lparr>fab_exec := w'\<rparr>))"
proof -
  from assms(1) obtain agent where a: "resolve_agent_id srv access = Inr agent" "kwargs_ok kwargs"
    "asked_for po fab name kwargs agent = Some x"
    by (auto simp: allowed_call_def split: sum.splits)
  obtain g where g: "check agent (xr_action x) (agent_scope agent) (ew_client (fab_exec fab)) = (Inr g, c')" "gr_decision g = Allow"
    using assms(1) a(1)
    by (cases "check agent (xr_action x) (agent_scope agent) (ew_client (fab_exec fab))"; cases "fst (check agent (xr_action x)
      (agent_scope agent) (ew_client (fab_exec fab)))") (auto simp: allowed_call_def)
  obtain bytes where b: "utf8_encode (xr_code x) = Inr bytes" using allowed_encodes [OF assms(1)] ..
  have "execute_outcome check (po_sandbox po) (po_wakes po) x (fab_exec fab) = (rr, w')"
    using g(1) b refusal_None [THEN iffD2, OF g(2)] assms(2) asked_for_fields(1,2) [OF a(3)]
    by (simp add: execute_outcome_def on_client_def)
  from request_runs [OF a(3) this, of t] obtain handler t' where "tool_handler (fabrica_facade check po) name = Some handler"
    "handler agent kwargs (t, fab) = (map_sum id asdict_run_result rr, (t', fab\<lparr>fab_exec := w'\<rparr>))" by blast
  with a(1,2) show ?thesis by (cases rr) (auto simp: on_call_tool_def Let_def replied_def)
qed

section \<open>What the pool relies on\<close>

text \<open>The instance a call is given, without waiting, and what the backend is then: the newest warm one, or one that
  boots in time while there is a slot; no other task holds the lock.\<close>

definition hands_out :: "('b, 't) sandbox \<Rightarrow> 'b waits \<Rightarrow> 'b pool_world \<Rightarrow> handle \<Rightarrow> 'b \<Rightarrow> bool" where
  "hands_out sb waits w h b \<longleftrightarrow>
     fst waits = None \<and>
     (case fst (try_acquire (pw_pool w)) of
        WarmHit warm \<Rightarrow> warm = h \<and> pw_backend w = b
      | ColdStart \<Rightarrow>
          (case sb_boot_clean sb (pw_backend w) of
             (d, (r, b')) \<Rightarrow> r = Inr h \<and> b' = b \<and> (d \<le> 0 \<or> d \<le> pl_acquire_timeout (pw_pool w)))
      | MustWait \<Rightarrow> False)"

lemma hands_out_acquires:
  assumes "hands_out sb waits w h b"
  shows "\<exists>warm d w'. acquire_handle sb waits w = (Inr (h, warm, d), w') \<and> pw_backend w' = b \<and>
    pl_concurrent_count (pw_pool w') = pl_concurrent_count (pw_pool w) + 1"
  using assms
  by (auto simp: hands_out_def acquire_handle_def acquire_loop.simps try_acquire_def cold_start_def on_backend_def
      split: prod.splits if_splits)

locale running_sandbox =
  fixes sb :: "('b, 't) sandbox"
    and ready :: "handle \<Rightarrow> pystr \<Rightarrow> 'b \<Rightarrow> bool"
    and runs_to :: "handle \<Rightarrow> pystr \<Rightarrow> 't tool_callback \<Rightarrow> real \<Rightarrow> real option \<Rightarrow> 't \<Rightarrow> run_result result \<times> 't \<Rightarrow> bool"
    and ended :: "handle \<Rightarrow> 'b \<Rightarrow> 'b \<Rightarrow> bool"
  assumes run: "ready h code b \<Longrightarrow>
      \<exists>a b1. sb_execute sb h code cb tmo limit (b, t) = (fst a, (b1, snd a)) \<and> runs_to h code cb tmo limit t a"
    and stop: "ready h code b \<Longrightarrow> \<exists>b2. sb_terminate sb h (fst (snd (sb_execute sb h code cb tmo limit (b, t)))) = (Inr (), b2) \<and> ended h b b2"
begin

text \<open>A request is run in the instance, the slot is given back and the instance has ended.\<close>

lemma outcome:
  assumes "hands_out sb waits (ew_pool w) h b" "ready h (xr_code x) b"
  shows "\<exists>a w'. sandboxed_outcome sb waits x w = (fst a, w') \<and>
    runs_to h (xr_code x) (xr_on_tool_call x) (xr_timeout x) (xr_tool_call_timeout x) (ew_tools w) a \<and>
    ew_tools w' = snd a \<and> ew_client w' = ew_client w \<and>
    pl_concurrent_count (pw_pool (ew_pool w')) = pl_concurrent_count (pw_pool (ew_pool w)) \<and> ended h b (pw_backend (ew_pool w'))"
proof -
  obtain warm d w1 where acq: "acquire_handle sb waits (ew_pool w) = (Inr (h, warm, d), w1)" "pw_backend w1 = b"
    and up: "pl_concurrent_count (pw_pool w1) = pl_concurrent_count (pw_pool (ew_pool w)) + 1"
    using hands_out_acquires [OF assms(1)] by blast
  let ?ex = "sb_execute sb h (xr_code x) (xr_on_tool_call x) (xr_timeout x) (xr_tool_call_timeout x) (b, ew_tools w)"
  obtain a b1 where ex: "?ex = (fst a, (b1, snd a))"
    and a: "runs_to h (xr_code x) (xr_on_tool_call x) (xr_timeout x) (xr_tool_call_timeout x) (ew_tools w) a"
    using run [OF assms(2)] by blast
  obtain b2 where "sb_terminate sb h b1 = (Inr (), b2)" "ended h b b2"
    using stop [OF assms(2), of "xr_on_tool_call x" "xr_timeout x" "xr_tool_call_timeout x" "ew_tools w"] ex by auto
  with acq up ex a show ?thesis
    by (intro exI [of _ a])
       (auto simp: sandboxed_outcome_def run_and_release_def pl_release_def on_backend_def finish_release_def)
qed

text \<open>So the reply of an external call is what the run came to.\<close>

lemma reply:
  assumes "allowed_call check srv access po fab name kwargs x c'" "po_sandbox po = sb"
    and "hands_out sb (po_wakes po) (ew_pool (fab_exec fab)) h b" "ready h (xr_code x) b"
  shows "\<exists>a t' fab'. on_call_tool fr str_exc srv (fabrica_facade check po) access name (Some kwargs) (t, fab) =
      (replied fr str_exc (fst a), (t', fab')) \<and>
    runs_to h (xr_code x) (xr_on_tool_call x) default_run_timeout None (ew_tools (fab_exec fab)) a \<and>
    ew_tools (fab_exec fab') = snd a \<and> ew_client (fab_exec fab') = c' \<and>
    pl_concurrent_count (pw_pool (ew_pool (fab_exec fab'))) = pl_concurrent_count (pw_pool (ew_pool (fab_exec fab))) \<and>
    ended h b (pw_backend (ew_pool (fab_exec fab')))"
proof -
  from assms(1) obtain agent where "asked_for po fab name kwargs agent = Some x"
    by (auto simp: allowed_call_def split: sum.split_asm)
  note x = asked_for_fields(3,4) [OF this]
  from assms(3) have "hands_out sb (po_wakes po) (ew_pool ((fab_exec fab)\<lparr>ew_client := c'\<rparr>)) h b" by simp
  from outcome [OF this assms(4)] x obtain a w' where
    o: "sandboxed_outcome (po_sandbox po) (po_wakes po) x ((fab_exec fab)\<lparr>ew_client := c'\<rparr>) = (fst a, w')"
    and w: "runs_to h (xr_code x) (xr_on_tool_call x) default_run_timeout None (ew_tools (fab_exec fab)) a"
      "ew_tools w' = snd a" "ew_client w' = c'"
      "pl_concurrent_count (pw_pool (ew_pool w')) = pl_concurrent_count (pw_pool (ew_pool (fab_exec fab)))"
      "ended h b (pw_backend (ew_pool w'))"
    by (auto simp: assms(2))
  from allowed_reply [OF assms(1) o] obtain t' where
    "on_call_tool fr str_exc srv (fabrica_facade check po) access name (Some kwargs) (t, fab) =
      (replied fr str_exc (fst a), (t', fab\<lparr>fab_exec := w'\<rparr>))" by blast
  with w show ?thesis by (intro exI [of _ a] exI [of _ t'] exI [of _ "fab\<lparr>fab_exec := w'\<rparr>"]) simp
qed

end

section \<open>What the caller relies on\<close>

text \<open>What the sandbox calls, the tools and the JSON reader, is not cancelled: it raises an \<^verbatim>\<open>Exception\<close> if anything.\<close>

definition regular_calls :: "('a \<Rightarrow> pyval result) \<Rightarrow> 't tool_callback \<Rightarrow> bool" where
  "regular_calls loads cb \<longleftrightarrow>
     (\<forall>tool params t e. fst (cb tool params t) = Inl e \<longrightarrow> is_Exception e) \<and> (\<forall>s e. loads s = Inl e \<longrightarrow> is_Exception e)"

locale answering_sandbox = running_sandbox sb ready runs_to ended
  for sb :: "('b, 't) sandbox"
    and ready :: "handle \<Rightarrow> pystr \<Rightarrow> 'b \<Rightarrow> bool"
    and runs_to :: "handle \<Rightarrow> pystr \<Rightarrow> 't tool_callback \<Rightarrow> real \<Rightarrow> real option \<Rightarrow> 't \<Rightarrow> run_result result \<times> 't \<Rightarrow> bool"
    and ended :: "handle \<Rightarrow> 'b \<Rightarrow> 'b \<Rightarrow> bool" +
  fixes regular :: "'t tool_callback \<Rightarrow> bool"
    and carries :: "handle \<Rightarrow> pystr \<Rightarrow> prog \<Rightarrow> bool"
    and legible :: "prog \<Rightarrow> 't tool_callback \<Rightarrow> 't \<Rightarrow> pystr \<Rightarrow> pystr option \<Rightarrow> nat \<Rightarrow> bool"
    and cost :: "pystr \<Rightarrow> pydict \<Rightarrow> 't \<Rightarrow> real"
  assumes raises: "runs_to h code cb tmo limit t (Inl e, t') \<Longrightarrow> regular cb \<Longrightarrow> is_Exception e"
    and reports: "runs_to h code cb tmo limit t a \<Longrightarrow> carries h code p \<Longrightarrow> 0 < tmo \<Longrightarrow>
      run_prog p cb 0 t = (Ended out msg n, t') \<Longrightarrow> in_time p cb cost tmo limit t \<Longrightarrow> legible p cb t out msg n \<Longrightarrow>
      \<exists>used. a = (Inr (told out msg n used), t')"
begin

lemma always_answered:
  assumes "allowed_call check srv access po fab name kwargs x c'" "po_sandbox po = sb"
    and "hands_out sb (po_wakes po) (ew_pool (fab_exec fab)) h b" "ready h (xr_code x) b" "regular (xr_on_tool_call x)"
  shows "\<exists>a reply t' fab'. on_call_tool fr str_exc srv (fabrica_facade check po) access name (Some kwargs) (t, fab) =
      (Inr reply, (t', fab')) \<and> replied fr str_exc (fst a) = Inr reply \<and>
    runs_to h (xr_code x) (xr_on_tool_call x) default_run_timeout None (ew_tools (fab_exec fab)) a \<and>
    ew_tools (fab_exec fab') = snd a \<and> ew_client (fab_exec fab') = c' \<and>
    pl_concurrent_count (pw_pool (ew_pool (fab_exec fab'))) = pl_concurrent_count (pw_pool (ew_pool (fab_exec fab))) \<and>
    ended h b (pw_backend (ew_pool (fab_exec fab')))"
proof -
  from reply [OF assms(1-4), of fr str_exc t] obtain a t' fab' where
    call: "on_call_tool fr str_exc srv (fabrica_facade check po) access name (Some kwargs) (t, fab) =
      (replied fr str_exc (fst a), (t', fab'))"
    and a: "runs_to h (xr_code x) (xr_on_tool_call x) default_run_timeout None (ew_tools (fab_exec fab)) a"
    and w: "ew_tools (fab_exec fab') = snd a" "ew_client (fab_exec fab') = c'"
      "pl_concurrent_count (pw_pool (ew_pool (fab_exec fab'))) = pl_concurrent_count (pw_pool (ew_pool (fab_exec fab)))"
      "ended h b (pw_backend (ew_pool (fab_exec fab')))"
    by blast
  have "\<exists>reply. replied fr str_exc (fst a) = Inr reply"
  proof (cases "fst a")
    case (Inl e)
    with a have "runs_to h (xr_code x) (xr_on_tool_call x) default_run_timeout None (ew_tools (fab_exec fab)) (Inl e, snd a)"
      by (metis prod.collapse)
    from raises [OF this assms(5)] Inl show ?thesis by (simp add: replied_def)
  qed (simp add: replied_def)
  with call a w show ?thesis by (intro exI [of _ a]) auto
qed

lemma answered:
  assumes "allowed_call check srv access po fab name kwargs x c'" "po_sandbox po = sb"
    and "hands_out sb (po_wakes po) (ew_pool (fab_exec fab)) h b" "ready h (xr_code x) b" "carries h (xr_code x) p"
    and "run_prog p (xr_on_tool_call x) 0 (ew_tools (fab_exec fab)) = (Ended out msg n, tools')"
      "in_time p (xr_on_tool_call x) cost default_run_timeout None (ew_tools (fab_exec fab))"
      "legible p (xr_on_tool_call x) (ew_tools (fab_exec fab)) out msg n"
  shows "\<exists>used t' fab'. on_call_tool fr str_exc srv (fabrica_facade check po) access name (Some kwargs) (t, fab) =
      (Inr \<lparr>cr_text = json_dumps fr (asdict_run_result (told out msg n used)), cr_is_error = False\<rparr>, (t', fab')) \<and>
    ew_tools (fab_exec fab') = tools' \<and> ew_client (fab_exec fab') = c' \<and>
    pl_concurrent_count (pw_pool (ew_pool (fab_exec fab'))) = pl_concurrent_count (pw_pool (ew_pool (fab_exec fab))) \<and>
    ended h b (pw_backend (ew_pool (fab_exec fab')))"
proof -
  from reply [OF assms(1-4), of fr str_exc t] obtain a t' fab' where
    call: "on_call_tool fr str_exc srv (fabrica_facade check po) access name (Some kwargs) (t, fab) =
      (replied fr str_exc (fst a), (t', fab'))"
    and a: "runs_to h (xr_code x) (xr_on_tool_call x) default_run_timeout None (ew_tools (fab_exec fab)) a"
    and w: "ew_tools (fab_exec fab') = snd a" "ew_client (fab_exec fab') = c'"
      "pl_concurrent_count (pw_pool (ew_pool (fab_exec fab'))) = pl_concurrent_count (pw_pool (ew_pool (fab_exec fab)))"
      "ended h b (pw_backend (ew_pool (fab_exec fab')))"
    by blast
  have "0 < default_run_timeout" by (simp add: default_run_timeout_def)
  from reports [OF a assms(5) this assms(6-8)] obtain used where "a = (Inr (told out msg n used), tools')" ..
  with call w show ?thesis
    by (intro exI [of _ used] exI [of _ t'] exI [of _ fab']) (simp add: replied_def)
qed

end

section \<open>Failures are exceptions\<close>

lemma protocol_exceptions:
  "is_Exception (raised TypeError a)" "is_Exception (raised KeyError a)" "is_Exception (raised AttributeError a)"
  "is_Exception (raised StructError a)" "is_Exception (raised UnicodeEncodeError a)" "is_Exception (raised IncompleteReadError a)"
  "is_Exception run_timeout" "is_Exception crashed" "is_Exception tool_timeout"
  by (simp_all add: run_timeout_def crashed_def tool_timeout_def exc_simps)

lemma subscript_raises: "subscript v k = Inl e \<Longrightarrow> is_Exception e"
  by (auto simp: subscript_def protocol_exceptions split: pyval.splits option.splits)

lemma read_request_raises: "read_request req = Inl e \<Longrightarrow> is_Exception e"
  by (auto simp: read_request_def protocol_exceptions rbind_def dest: subscript_raises simp del: u_simps
      split: pyval.splits sum.splits)

lemma serve_call_raises:
  assumes "serve_call cb cost left limit tool params t = (Inl (ServeFailed e), t')" "regular_calls loads cb"
  shows "is_Exception e"
proof -
  have "is_Exception e'" if "cb tool params t = (Inl e', t1)" for e' t1
    using assms(2) that unfolding regular_calls_def by (metis fst_conv)
  with assms(1) show ?thesis
    by (auto simp: serve_call_def protocol_exceptions split: option.splits if_splits prod.splits sum.splits)
qed

lemma serve_raises:
  assumes "serve c cb cost left limit t = (ServeFailed e, t')" "regular_calls loads cb"
  shows "is_Exception e"
  using assms(1)
proof (induction c arbitrary: left t)
  case (Asks d req k)
  show ?case
  proof (cases "\<exists>tool params. read_request req = Inr (tool, params) \<and> d \<le> left")
    case False
    with Asks.prems show ?thesis by (auto dest: read_request_raises split: if_splits sum.splits)
  next
    case True
    then obtain tool params where r: "read_request req = Inr (tool, params)" "\<not> d > left" by auto
    obtain q t1 where q: "serve_call cb cost (left - d) limit tool params t = (q, t1)" by (metis prod.exhaust)
    show ?thesis
    proof (cases q)
      case (Inl s)
      with Asks.prems r q have "s = ServeFailed e" by simp
      with serve_call_raises [OF q [unfolded Inl this] assms(2)] Inl show ?thesis by simp
    next
      case (Inr rc)
      with Asks.prems Asks.IH [OF rangeI] r q show ?thesis by (cases rc) auto
    qed
  qed
qed (auto split: if_splits)

lemma tool_reply_raises: "rbind (tool_reply r) (\<lambda>a. rbind (fc_frame fr a) (\<lambda>bytes. Inr a)) = Inl e \<Longrightarrow> is_Exception e"
  by (auto simp: tool_reply_def rbind_def fc_frame_def pack_u32_def protocol_exceptions dest: subscript_raises simp del: u_simps
      split: sum.splits if_splits)

lemma told_fields_raises: "told_fields m = Inl e \<Longrightarrow> is_Exception e"
  by (auto simp: told_fields_def rbind_def dest: subscript_raises simp del: u_simps split: sum.splits)

lemma fc_serve_raises:
  assumes "fc_serve fr loads v cb cost left limit n t = (Failed e, t')" "regular_calls loads cb"
  shows "is_Exception e"
  using assms(1)
proof (induction v arbitrary: left n t)
  case (Says d body k)
  have ld: "is_Exception e'" if "loads s = Inl e'" for s e' using assms(2) that by (auto simp: regular_calls_def)
  show ?case
  proof (cases "\<exists>m tool params. loads body = Inr m \<and> subscript m (u ''type'') = Inr (PStr (u ''tool_call'')) \<and>
      read_request m = Inr (tool, params) \<and> d \<le> left")
    case False
    with Says.prems show ?thesis
      by (auto simp del: u_simps dest: ld subscript_raises read_request_raises told_fields_raises intro: protocol_exceptions
          split: if_splits sum.splits)
  next
    case True
    then obtain m tool params where r: "loads body = Inr m" "subscript m (u ''type'') = Inr (PStr (u ''tool_call''))"
      "read_request m = Inr (tool, params)" "\<not> d > left" by auto
    obtain q t1 where q: "serve_call cb cost (left - d) limit tool params t = (q, t1)" by (metis prod.exhaust)
    show ?thesis
    proof (cases q)
      case (Inl s)
      with Says.prems r q have "s = ServeFailed e" by (auto simp: unserved_def simp del: u_simps split: served.splits)
      with serve_call_raises [OF q [unfolded Inl this] assms(2)] Inl show ?thesis by simp
    next
      case (Inr rc)
      with Says.prems Says.IH [OF rangeI] r q show ?thesis
        by (cases rc) (auto simp del: u_simps dest: tool_reply_raises split: sum.splits)
    qed
  qed
next
  case (Gone d)
  then show ?case by (auto simp: protocol_exceptions split: if_splits)
qed auto

lemma fc_execute_raises:
  assumes "fc_execute fr loads used machine code cb cost tmo limit t = (Inl e, t')" "regular_calls loads cb"
  shows "is_Exception e"
proof -
  have h: "is_Exception (fc_handled e')" if "is_Exception e'" for e' using that protocol_exceptions by (simp add: fc_handled_def)
  have f: "is_Exception e'" if "fc_frame fr m = Inl e'" for e' m
    using that by (auto simp: fc_frame_def rbind_def pack_u32_def protocol_exceptions split: sum.splits if_splits)
  have r: "is_Exception e'" if "fc_result fs n used = Inl e'" for e' fs n
    using that by (auto simp: fc_result_def rbind_def utf8_encode_def protocol_exceptions simp del: u_simps
        split: pyval.splits sum.splits if_splits)
  from assms(1) show ?thesis
    by (auto simp: fc_execute_def Let_def simp del: u_simps dest: f r fc_serve_raises [OF _ assms(2)] intro: protocol_exceptions h
        split: if_splits sum.splits prod.splits vm_end.splits)
qed

lemma served_result_raises:
  assumes "serve c cb cost tmo limit t = (s, t')" "served_result loads cpu ms s = Inl e" "regular_calls loads cb"
  shows "is_Exception e"
proof -
  have ld: "is_Exception e'" if "parse_trailer loads err = Inl e'" for err e'
    using assms(3) that by (auto simp: regular_calls_def parse_trailer_def Let_def split: if_splits sum.splits)
  from assms(1,2) show ?thesis
    by (cases s) (auto simp: served_result_def protocol_exceptions dest: ld serve_raises [OF _ assms(3)] split: sum.splits option.splits)
qed

section \<open>The shim as a process\<close>

text \<open>The host starts the child \<open>c\<close> on the code and can remove its files; under \<^verbatim>\<open>srt\<close> it first writes the settings.\<close>

definition removes_files :: "'w shim_env \<Rightarrow> bool" where
  "removes_files env \<longleftrightarrow> (\<forall>path w. \<exists>w'. se_unlink env path w = (Inr (), w'))"

definition starts_child :: "'w shim_env \<Rightarrow> pystr list \<Rightarrow> pystr \<Rightarrow> pystr \<Rightarrow> 'w \<Rightarrow> child \<Rightarrow> bool" where
  "starts_child env wrapper ipc code w c \<longleftrightarrow>
     (case (utf8_encode code, fst (se_spawn env (wrapper @ [se_python env, u ''-m'', shim_module, u ''ipc://'' @ ipc]) w)) of
        (Inr bytes, Inr start) \<Rightarrow> start bytes = c
      | _ \<Rightarrow> False)"

definition plain_ready :: "'w shim_env \<Rightarrow> pystr \<Rightarrow> child \<Rightarrow> handle \<Rightarrow> pystr \<Rightarrow> 'w \<Rightarrow> bool" where
  "plain_ready env dir c h code w \<longleftrightarrow> removes_files env \<and> starts_child env [] (sock_path dir (h_id h)) code w c"

definition srt_ready :: "'w shim_env \<Rightarrow> srt_config \<Rightarrow> child \<Rightarrow> handle \<Rightarrow> pystr \<Rightarrow> 'w \<Rightarrow> bool" where
  "srt_ready env cfg c h code w \<longleftrightarrow>
     removes_files env \<and>
     (let ipc = sock_path (sr_socket_dir cfg) (h_id h); settings = settings_path (sr_socket_dir cfg) (h_id h) in
      case se_write_text env settings (json_dumps (\<lambda>_. []) (srt_build_settings cfg ipc)) w of
        (Inl e, w1) \<Rightarrow> False
      | (Inr _, w1) \<Rightarrow> starts_child env [u ''srt'', u ''--settings'', settings, u ''--''] ipc code w1 c)"

definition child_runs_to ::
    "(pystr \<Rightarrow> pyval result) \<Rightarrow> (pystr \<Rightarrow> pydict \<Rightarrow> 't \<Rightarrow> real) \<Rightarrow> child \<Rightarrow> handle \<Rightarrow> pystr \<Rightarrow> 't tool_callback \<Rightarrow> real
     \<Rightarrow> real option \<Rightarrow> 't \<Rightarrow> run_result result \<times> 't \<Rightarrow> bool" where
  "child_runs_to loads cost c h code cb tmo limit t a \<longleftrightarrow>
     (\<exists>cpu ms s. serve c cb cost tmo limit t = (s, snd a) \<and> fst a = served_result loads cpu ms s)"

definition child_carries :: "(exc \<Rightarrow> nat list) \<Rightarrow> child \<Rightarrow> handle \<Rightarrow> pystr \<Rightarrow> prog \<Rightarrow> bool" where
  "child_carries tb c h code p \<longleftrightarrow> c = guest_shim tb p 0"

text \<open>The output fits, what the program leaves on its error stream ends with a line, and the trailer is read back.\<close>

definition child_legible ::
    "(pystr \<Rightarrow> pyval result) \<Rightarrow> prog \<Rightarrow> 't tool_callback \<Rightarrow> 't \<Rightarrow> pystr \<Rightarrow> pystr option \<Rightarrow> nat \<Rightarrow> bool" where
  "child_legible loads p cb t out msg n \<longleftrightarrow>
     (case utf8_encode out of
        Inl e \<Rightarrow> False
      | Inr bs \<Rightarrow>
          list_all (\<lambda>c. c \<le> 0x10FFFF) out \<and> length bs \<le> 65536 \<and> unfinished [] (utf8_decode (prog_stderr p cb t)) = [] \<and>
          loads (json_dumps (\<lambda>_. []) (trailer msg n)) = Inr (trailer msg n))"

lemma starts_child_runs:
  assumes "removes_files env" "starts_child env wrapper ipc code w c"
  shows "\<exists>a w'. run_shimmed env loads cost wrapper ipc code cb tmo limit (w, t) = (fst a, (w', snd a)) \<and>
    child_runs_to loads cost c h code cb tmo limit t a"
proof -
  from assms(2) obtain bytes start w1 where b: "utf8_encode code = Inr bytes" and c: "start bytes = c"
    and start: "se_spawn env (wrapper @ [se_python env, u ''-m'', shim_module, u ''ipc://'' @ ipc]) w = (Inr start, w1)"
    by (auto simp: starts_child_def simp del: u_simps split: sum.splits) (metis prod.collapse)
  obtain s t' where s: "serve c cb cost tmo limit t = (s, t')" by (metis prod.exhaust)
  obtain w2 where "se_unlink env ipc w1 = (Inr (), w2)" using assms(1) unfolding removes_files_def by blast
  from run_shimmed_served [OF b start c s this] s show ?thesis
    by (intro exI [of _ "(served_result loads (fst (se_times env w2)) (snd (se_times env w2)) s, t')"] exI [of _ w2])
       (auto simp: child_runs_to_def)
qed

lemma child_reports:
  assumes "child_runs_to loads cost c h code cb tmo limit t a" "child_carries tb c h code p"
    and "run_prog p cb 0 t = (Ended out msg n, t')" "in_time p cb cost tmo limit t" "child_legible loads p cb t out msg n"
  shows "\<exists>used. a = (Inr (told out msg n used), t')"
proof -
  from assms(5) obtain bs where out: "utf8_encode out = Inr bs" "\<forall>c \<in> set out. c \<le> 0x10FFFF" "length bs \<le> 65536"
    and err: "unfinished [] (utf8_decode (prog_stderr p cb t)) = []"
    and json: "loads (json_dumps (\<lambda>_. []) (trailer msg n)) = Inr (trailer msg n)"
    by (auto simp: child_legible_def list_all_iff simp del: json_dumps.simps split: sum.splits)
  from serve_guest [OF assms(3,4), of tb] out(1)
  have "serve (guest_shim tb p 0) cb cost tmo limit t =
      (Exited bs (prog_stderr p cb t @ json_dumps (\<lambda>_. []) (trailer msg n) @ [10]), t')"
    by simp
  with assms(1,2) obtain cpu ms where
    "fst a = served_result loads cpu ms (Exited bs (prog_stderr p cb t @ json_dumps (\<lambda>_. []) (trailer msg n) @ [10]))"
    and "snd a = t'"
    by (auto simp: child_runs_to_def child_carries_def simp del: json_dumps.simps)
  with served_result_told [where loads = loads, OF out err json] have "a = (Inr (told out msg n (cpu, ms)), t')"
    by (simp add: prod_eq_iff del: json_dumps.simps)
  then show ?thesis by blast
qed

lemma child_raises:
  assumes "child_runs_to loads cost c h code cb tmo limit t (Inl e, t')" "regular_calls loads cb"
  shows "is_Exception e"
  using assms by (auto simp: child_runs_to_def intro: served_result_raises [OF _ sym])

interpretation plain: answering_sandbox "subprocess_sandbox env loads cost dir" "plain_ready env dir c" "child_runs_to loads cost c"
    "\<lambda>h w w'. True" "regular_calls loads" "child_carries tb c" "child_legible loads" cost
  for env loads cost dir c tb
proof unfold_locales
  show "\<exists>a b1. sb_execute (subprocess_sandbox env loads cost dir) h code cb tmo limit (b, t) = (fst a, (b1, snd a)) \<and>
      child_runs_to loads cost c h code cb tmo limit t a"
    if "plain_ready env dir c h code b" for h code b cb tmo limit t
    using that starts_child_runs [where loads = loads and cost = cost]
    by (fastforce simp: plain_ready_def subprocess_sandbox_def)
  show "\<exists>b2. sb_terminate (subprocess_sandbox env loads cost dir) h
      (fst (snd (sb_execute (subprocess_sandbox env loads cost dir) h code cb tmo limit (b, t)))) = (Inr (), b2) \<and> True"
    if "plain_ready env dir c h code b" for h code b cb tmo limit t
    using that by (simp add: plain_ready_def removes_files_def subprocess_sandbox_def)
qed (fact child_raises, rule child_reports)

interpretation wrapped: answering_sandbox "srt_sandbox env loads cost cfg" "srt_ready env cfg c" "child_runs_to loads cost c"
    "\<lambda>h w w'. True" "regular_calls loads" "child_carries tb c" "child_legible loads" cost
  for env loads cost cfg c tb
proof unfold_locales
  show "\<exists>a b1. sb_execute (srt_sandbox env loads cost cfg) h code cb tmo limit (b, t) = (fst a, (b1, snd a)) \<and>
      child_runs_to loads cost c h code cb tmo limit t a"
    if r: "srt_ready env cfg c h code b" for h code b cb tmo limit t
  proof -
    let ?ipc = "sock_path (sr_socket_dir cfg) (h_id h)" and ?st = "settings_path (sr_socket_dir cfg) (h_id h)"
    from r obtain w1 where w1: "se_write_text env ?st (json_dumps (\<lambda>_. []) (srt_build_settings cfg ?ipc)) b = (Inr (), w1)"
      and c: "starts_child env [u ''srt'', u ''--settings'', ?st, u ''--''] ?ipc code w1 c" and rm: "removes_files env"
      by (auto simp: srt_ready_def Let_def simp del: u_simps json_dumps.simps split: prod.splits sum.splits)
    from starts_child_runs [OF rm c, where loads = loads and cost = cost and cb = cb and tmo = tmo and limit = limit and t = t] obtain a w2
      where a: "run_shimmed env loads cost [u ''srt'', u ''--settings'', ?st, u ''--''] ?ipc code cb tmo limit (w1, t) =
        (fst a, (w2, snd a))" "child_runs_to loads cost c h code cb tmo limit t a" by blast
    moreover obtain w3 where "se_unlink env ?st w2 = (Inr (), w3)" using rm unfolding removes_files_def by blast
    ultimately show ?thesis using w1
      by (intro exI [of _ a]) (simp add: srt_sandbox_def srt_execute_def Let_def del: u_simps json_dumps.simps)
  qed
  show "\<exists>b2. sb_terminate (srt_sandbox env loads cost cfg) h
      (fst (snd (sb_execute (srt_sandbox env loads cost cfg) h code cb tmo limit (b, t)))) = (Inr (), b2) \<and> True"
    if "srt_ready env cfg c h code b" for h code b cb tmo limit t
    using that by (auto simp: srt_ready_def removes_files_def srt_sandbox_def srt_terminate_def split: prod.splits sum.splits)
      (metis Pair_inject sum.distinct(1))+
qed (fact child_raises, rule child_reports)

section \<open>The micro virtual machine\<close>

text \<open>An instance is registered from its boot to \<^verbatim>\<open>terminate\<close>; it lives while its process runs as well. What it has on the
  host can be removed if it is not jailed, or the commands run with \<^verbatim>\<open>sudo\<close> succeed.\<close>

definition registered_machine :: "handle \<Rightarrow> fc_world \<Rightarrow> bool" where
  "registered_machine h w \<longleftrightarrow> dict_get (fb_instances (fst (fw_state w))) (h_id h) \<noteq> None"

definition live_machine :: "handle \<Rightarrow> fc_world \<Rightarrow> bool" where
  "live_machine h w \<longleftrightarrow> registered_machine h w \<and> h_id h \<in> fh_procs (snd (fw_state w))"

definition can_end_machine :: "fc_env \<Rightarrow> handle \<Rightarrow> fc_world \<Rightarrow> bool" where
  "can_end_machine env h w \<longleftrightarrow>
     (case Option.bind (dict_get (fb_instances (fst (fw_state w))) (h_id h)) in_jail_dir of
        None \<Rightarrow> True
      | Some jail \<Rightarrow> fe_sudo env (pkill_argv (h_id h)) \<and> fe_sudo env (rm_argv jail))"

text \<open>An instance has ended when it is not registered any more, its process does not run, its server does not listen, and
  none of its files and no jail of it is left.\<close>

definition machine_ended :: "handle \<Rightarrow> fc_world \<Rightarrow> fc_world \<Rightarrow> bool" where
  "machine_ended h before after \<longleftrightarrow>
     (case dict_get (fb_instances (fst (fw_state before))) (h_id h) of
        None \<Rightarrow> False
      | Some inst \<Rightarrow>
          let host = snd (fw_state after) in
          \<not> registered_machine h after \<and> h_id h \<notin> fh_procs host \<and> listen_path (in_vsock_uds inst) \<notin> fh_listening host \<and>
          inst_files inst \<inter> fh_files host = {} \<and> set_option (in_jail_dir inst) \<inter> fh_jails host = {})"

lemma terminate_ends:
  assumes "registered_machine h w" "can_end_machine env h w"
  shows "machine_ended h w (w\<lparr>fw_state := fc_terminate env h (fw_state w)\<rparr>)"
proof -
  obtain b hst where st: "fw_state w = (b, hst)" by (cases "fw_state w")
  then obtain inst where inst: "dict_get (fb_instances b) (h_id h) = Some inst"
    using assms(1) by (auto simp: registered_machine_def)
  show ?thesis
  proof (cases "in_jail_dir inst")
    case None
    with st inst show ?thesis
      by (auto simp: machine_ended_def registered_machine_def fc_terminate_def Let_def map_of_dict_pop kill_process_def
          cleanup_files_def unlink_files_def close_server_def inst_files_def split: option.splits)
  next
    case (Some jail)
    with st inst assms(2) show ?thesis
      by (auto simp: machine_ended_def registered_machine_def can_end_machine_def fc_terminate_def Let_def map_of_dict_pop
          terminate_jailed_def called_def unlink_files_def close_server_def inst_files_def)
  qed
qed

definition machine_runs_to ::
    "(real \<Rightarrow> pystr) \<Rightarrow> (nat list \<Rightarrow> pyval result) \<Rightarrow> (pystr \<Rightarrow> pyval \<Rightarrow> vm) \<Rightarrow> real \<times> real \<times> real \<Rightarrow> (pystr \<Rightarrow> pydict \<Rightarrow> 't \<Rightarrow> real)
     \<Rightarrow> handle \<Rightarrow> pystr \<Rightarrow> 't tool_callback \<Rightarrow> real \<Rightarrow> real option \<Rightarrow> 't \<Rightarrow> run_result result \<times> 't \<Rightarrow> bool" where
  "machine_runs_to fr loads machine used cost h code cb tmo limit t a \<longleftrightarrow>
     fc_execute fr loads used (machine (h_id h)) code cb cost tmo limit t = a"

text \<open>In the machine of the instance the guest shim runs the code of the request it gets, and the request fits its frame;
  \<open>python\<close> is what running a text as Python does.\<close>

definition machine_carries ::
    "(real \<Rightarrow> pystr) \<Rightarrow> (pystr \<Rightarrow> prog) \<Rightarrow> (pystr \<Rightarrow> pyval \<Rightarrow> vm) \<Rightarrow> handle \<Rightarrow> pystr \<Rightarrow> bool" where
  "machine_carries fr python machine h code \<longleftrightarrow>
     machine (h_id h) = fc_main fr python \<and>
     length (json_dumps fr (PDict [(u ''type'', PStr (u ''code'')), (u ''code'', PStr code)])) < 2 ^ 32"

definition machine_legible ::
    "(real \<Rightarrow> pystr) \<Rightarrow> (nat list \<Rightarrow> pyval result) \<Rightarrow> prog \<Rightarrow> 't tool_callback \<Rightarrow> 't \<Rightarrow> pystr \<Rightarrow> pystr option \<Rightarrow> nat \<Rightarrow> bool" where
  "machine_legible fr loads p cb t out msg n \<longleftrightarrow>
     readable fr loads p cb 0 t \<and> (case utf8_encode out of Inl e \<Rightarrow> False | Inr bytes \<Rightarrow> length bytes \<le> 65536)"

interpretation machine: answering_sandbox "fc_sandbox env cfg uuid fr loads machine on_path exists took used cost"
    "\<lambda>h code w. live_machine h w \<and> can_end_machine env h w" "machine_runs_to fr loads machine used cost" machine_ended
    "regular_calls loads" "\<lambda>h code p. machine_carries fr python machine h code \<and> p = python code" "machine_legible fr loads" cost
  for env cfg uuid fr loads machine on_path exists took used cost python
proof unfold_locales
  let ?sb = "fc_sandbox env cfg uuid fr loads machine on_path exists took used cost"
  show "\<exists>a b1. sb_execute ?sb h code cb tmo limit (b, t) = (fst a, (b1, snd a)) \<and>
      machine_runs_to fr loads machine used cost h code cb tmo limit t a"
    if "live_machine h b \<and> can_end_machine env h b" for h code b cb tmo limit t
    using that by (auto simp: live_machine_def registered_machine_def machine_runs_to_def fc_sandbox_def split: prod.split)
  show "\<exists>b2. sb_terminate ?sb h (fst (snd (sb_execute ?sb h code cb tmo limit (b, t)))) = (Inr (), b2) \<and> machine_ended h b b2"
    if r: "live_machine h b \<and> can_end_machine env h b" for h code b cb tmo limit t
  proof -
    have "fst (snd (sb_execute ?sb h code cb tmo limit (b, t))) = b" by (auto simp: fc_sandbox_def split: option.split prod.split)
    then show ?thesis using terminate_ends [of h b env] r by (simp add: live_machine_def fc_sandbox_def)
  qed
  show "is_Exception e"
    if "machine_runs_to fr loads machine used cost h code cb tmo limit t (Inl e, t')" "regular_calls loads cb"
    for h code cb tmo limit t e t'
    using that fc_execute_raises [OF _ that(2)] by (simp add: machine_runs_to_def)
  show "\<exists>used. a = (Inr (told out msg n used), t')"
    if a: "machine_runs_to fr loads machine used cost h code cb tmo limit t a" and m: "machine_carries fr python machine h code \<and> p = python code"
      and "0 < tmo" "run_prog p cb 0 t = (Ended out msg n, t')" "in_time p cb cost tmo limit t"
      and l: "machine_legible fr loads p cb t out msg n"
    for h code cb tmo limit t a p out msg n t'
  proof -
    from l obtain bytes where b: "utf8_encode out = Inr bytes" "length bytes \<le> 65536" and r: "readable fr loads p cb 0 t"
      by (auto simp: machine_legible_def split: sum.splits)
    obtain request where "fc_frame fr (PDict [(u ''type'', PStr (u ''code'')), (u ''code'', PStr code)]) = Inr request"
      using m fc_frame_short by (auto simp: machine_carries_def simp del: u_simps json_dumps.simps)
    then have f: "fc_frame fr (PDict [(u ''type'', PStr (u ''code'')), (u ''code'', PStr code)]) = Inr request" .
    have "machine (h_id h) (PDict [(u ''type'', PStr (u ''code'')), (u ''code'', PStr code)]) = fc_guest fr p 0"
      using m fc_main_code by (simp add: machine_carries_def del: u_simps)
    from fc_execute_told [where machine = "machine (h_id h)" and used = used and loads = loads, OF that(4,5) r that(3) f b(1) this] a b(2) show ?thesis
      by (intro exI [of _ "(max 0 (fst (snd used) - fst used), snd (snd used))"])
         (simp add: machine_runs_to_def told_def del: u_simps json_dumps.simps)
  qed
qed

end
