(* ===== verification/ToolGate.thy ===== *)
theory ToolGate
  imports SandboxContract
begin

text \<open>
  What a run can do to the tools. The locale \<open>tool_gate\<close> says that a sandbox touches the tools only through the
  callback it is given, whatever runs in it; all three backends interpret it, by induction over what a child or a
  machine does. Over sequences of external calls it follows that the tools change only by calls of registered
  namespaces, ordered by programs.
\<close>

section \<open>The callback is the only way\<close>

definition kept_by :: "'t tool_callback \<Rightarrow> ('t \<Rightarrow> bool) \<Rightarrow> bool" where
  "kept_by cb P \<longleftrightarrow> (\<forall>tool params t. P t \<longrightarrow> P (snd (cb tool params t)))"

text \<open>A sandbox reaches the state of the tools only through the callback it was given, whatever runs in it: what every
  call of the callback keeps, an execution keeps.\<close>

locale tool_gate =
  fixes sb :: "('b, 't) sandbox"
  assumes gate: "kept_by cb P \<Longrightarrow> P t \<Longrightarrow> P (snd (snd (sb_execute sb h code cb tmo limit (b, t))))"
begin

lemma outcome_gate:
  assumes "kept_by (xr_on_tool_call x) P" "P (ew_tools w)" "execute_outcome check sb wakes x w = (r, w')"
  shows "P (ew_tools w')"
proof -
  have g: "P t'" if "sb_execute sb h code (xr_on_tool_call x) tmo limit (b, ew_tools w) = (q, (b', t'))" for h code tmo limit b q b' t'
    using gate [where P = P, OF assms(1,2), of h code tmo limit b] that by simp
  from assms(2,3) show ?thesis
    by (auto simp: execute_outcome_def on_client_def sandboxed_outcome_def run_and_release_def
        split: sum.splits option.splits prod.splits dest: g)
qed

end

lemma serve_call_gate:
  assumes "kept_by cb P" "P t" "serve_call cb cost left limit tool params t = (q, t')"
  shows "P t'"
proof -
  have "P (snd (cb tool params t))" using assms(1,2) unfolding kept_by_def by blast
  with assms(2,3) show ?thesis by (auto simp: serve_call_def split: option.splits prod.splits if_splits)
qed

lemma serve_gate:
  assumes "kept_by cb P" "P t" "serve c cb cost left limit t = (s, t')"
  shows "P t'"
  using assms(2,3)
proof (induction c arbitrary: left t)
  case (Asks d req k)
  then show ?case
    by (auto split: if_splits sum.splits prod.splits dest: serve_call_gate [OF assms(1)] Asks.IH [OF rangeI, rotated])
qed (auto split: if_splits)

lemma fc_serve_gate:
  assumes "kept_by cb P" "P t" "fc_serve fr loads v cb cost left limit n t = (s, t')"
  shows "P t'"
  using assms(2,3)
proof (induction v arbitrary: left n t)
  case (Says d body k)
  then show ?case
    by (auto simp del: u_simps split: if_splits sum.splits prod.splits
        dest: serve_call_gate [OF assms(1)] Says.IH [OF rangeI, rotated])
qed (auto split: if_splits)

lemma run_shimmed_gate:
  assumes "kept_by cb P" "P t" "run_shimmed env loads cost wrapper ipc code cb tmo limit (w, t) = (r, (w', t'))"
  shows "P t'"
  using assms(2,3) by (auto simp: run_shimmed_def split: sum.splits prod.splits dest: serve_gate [OF assms(1)])

interpretation plain_gate: tool_gate "subprocess_sandbox env loads cost dir" for env loads cost dir
proof unfold_locales
  show "P (snd (snd (sb_execute (subprocess_sandbox env loads cost dir) h code cb tmo limit (b, t))))"
    if "kept_by cb P" "P t" for P cb t h code tmo limit b
    by (cases "run_shimmed env loads cost [] (sock_path dir (h_id h)) code cb tmo limit (b, t)")
       (auto simp: subprocess_sandbox_def dest: run_shimmed_gate [OF that])
qed

interpretation wrapped_gate: tool_gate "srt_sandbox env loads cost cfg" for env loads cost cfg
proof unfold_locales
  show "P (snd (snd (sb_execute (srt_sandbox env loads cost cfg) h code cb tmo limit (b, t))))"
    if "kept_by cb P" "P t" for P cb t h code tmo limit b
    using that(2)
    by (auto simp: srt_sandbox_def srt_execute_def Let_def simp del: u_simps json_dumps.simps
        split: sum.split prod.split dest: run_shimmed_gate [OF that])
qed

interpretation machine_gate: tool_gate "fc_sandbox env cfg uuid fr loads machine on_path exists took used cost"
  for env cfg uuid fr loads machine on_path exists took used cost
proof unfold_locales
  show "P (snd (snd (sb_execute (fc_sandbox env cfg uuid fr loads machine on_path exists took used cost) h code cb tmo limit (b, t))))"
    if "kept_by cb P" "P t" for P cb t h code tmo limit b
    using that(2)
    by (auto simp: fc_sandbox_def fc_execute_def Let_def simp del: u_simps json_dumps.simps
        split: sum.split prod.split option.split vm_end.split dest: fc_serve_gate [OF that])
qed

section \<open>External calls and the registered namespaces\<close>

text \<open>One call of a registered namespace, under a name it was registered for.\<close>

definition tool_step :: "(pystr, 't namespace) dict \<Rightarrow> 't \<Rightarrow> 't \<Rightarrow> bool" where
  "tool_step tools t t' \<longleftrightarrow> (\<exists>tool ns params. dict_get tools tool = Some ns \<and> t' = snd (ns_call ns tool params t))"

lemma manager_calls_step:
  assumes "(tool_step tools)\<^sup>*\<^sup>* s t"
  shows "(tool_step tools)\<^sup>*\<^sup>* s (snd (tm_on_tool_call tools tool params t))"
proof (cases "dict_get tools tool")
  case (Some ns)
  then have "tool_step tools t (snd (ns_call ns tool params t))" unfolding tool_step_def by blast
  with assms Some show ?thesis by (auto simp: tm_on_tool_call_def split: prod.split sum.split)
qed (use assms in \<open>simp add: tm_on_tool_call_def\<close>)

lemma requests_step:
  assumes "asked_for po fab name kwargs agent = Some x"
  shows "kept_by (xr_on_tool_call x) ((tool_step (fab_tools fab))\<^sup>*\<^sup>* s)"
  using asked_for_fields(5) [OF assms] manager_calls_step by (auto simp: kept_by_def no_tools_def)

text \<open>A skill has no tools.\<close>

lemma skills_step:
  assumes "asked_for po fab name kwargs agent = Some x" "name \<noteq> u ''fabrica_run_code''"
  shows "kept_by (xr_on_tool_call x) (\<lambda>t. t = s)"
  using assms
  by (auto simp: asked_for_requests skill_request_def kept_by_def no_tools_def simp del: u_simps
      split: if_splits option.splits pyval.splits sum.splits bind_splits)

text \<open>What a call leaves as it is: the names that are registered.\<close>

definition registry ::
    "('p, 'f, 'g, 'b, 't, 's, 'c, 'q) fabrica \<Rightarrow> (pystr, 't namespace) dict \<times> (pystr, skill) dict" where
  "registry fab = (fab_tools fab, fab_skills fab)"

lemma facade_registry:
  "facade_find_tools po q (t, fab) = (r1, (t', fab')) \<Longrightarrow> registry fab' = registry fab"
  "facade_find_skills po q (t, fab) = (r1, (t', fab')) \<Longrightarrow> registry fab' = registry fab"
  "facade_run_code check po c a s (t, fab) = (r2, (t', fab')) \<Longrightarrow> registry fab' = registry fab"
  "facade_run_skill check po n v a s (t, fab) = (r2, (t', fab')) \<Longrightarrow> registry fab' = registry fab"
  "facade_memory_write po s c' md (t, fab) = (r2, (t', fab')) \<Longrightarrow> registry fab' = registry fab"
  "facade_memory_search po s q k (t, fab) = (r1, (t', fab')) \<Longrightarrow> registry fab' = registry fab"
  by (auto simp: facade_find_tools_def facade_find_skills_def facade_run_code_def facade_run_skill_def facade_memory_write_def
      facade_memory_search_def shown_def on_exec_def on_retriever_def on_memory_def io_zoom_def io_raise_def tm_find_def sm_find_def
      with_tools_def with_skills_def tools_of_def skills_of_def share_memory_def registry_def
      split: pyval.splits prod.splits sum.splits)

lemma call_keeps_registry:
  assumes "on_call_tool fr str_exc srv (fabrica_facade check po) access name args (t, fab) = (r, (t', fab'))"
  shows "registry fab' = registry fab"
  using assms
  by (auto simp: on_call_tool_def Let_def tool_handler_def handle_find_def handle_run_code_def handle_run_skill_def
      handle_memory_write_def handle_memory_search_def and_then_def fabrica_facade_def simp del: u_simps
      dest!: facade_registry split: option.splits sum.splits if_splits prod.splits)

text \<open>A call runs the request it orders, if it orders one, and otherwise leaves the client, the pool and the tools alone.\<close>

lemma orders_no_code:
  assumes "asked_for po fab (u ''fabrica_run_code'') kwargs agent = None"
    and h: "handle_run_code (fabrica_facade check po) agent kwargs (t, fab) = (v, (t1, f1))"
  shows "fab_exec f1 = fab_exec fab"
proof (cases "dict_get kwargs (u ''code'')")
  case None
  with h show ?thesis by (auto simp: handle_run_code_def required_def and_then_def simp del: u_simps)
next
  case (Some c)
  with h have "facade_run_code check po c agent (agent_scope agent) (t, fab) = (v, (t1, f1))"
    by (simp add: handle_run_code_def required_def and_then_def fabrica_facade_def del: u_simps)
  from run_code_cases [OF this] Some assms(1) show ?thesis by (auto simp: asked_for_requests simp del: u_simps)
qed

lemma orders_no_skill:
  assumes "asked_for po fab (u ''fabrica_run_skill'') kwargs agent = None"
    and h: "handle_run_skill (fabrica_facade check po) agent kwargs (t, fab) = (v, (t1, f1))"
  shows "fab_exec f1 = fab_exec fab"
proof (cases "dict_get kwargs (u ''name'')")
  case None
  with h show ?thesis by (auto simp: handle_run_skill_def required_def and_then_def simp del: u_simps)
next
  case (Some n)
  with h have "facade_run_skill check po n (dict_get_or kwargs (u ''args'') (PDict [])) agent (agent_scope agent) (t, fab) = (v, (t1, f1))"
    by (simp add: handle_run_skill_def required_def and_then_def fabrica_facade_def del: u_simps)
  moreover have "u ''fabrica_run_skill'' \<noteq> u ''fabrica_run_code''" by simp
  ultimately show ?thesis using assms(1) Some
    by (auto simp: asked_for_requests facade_run_skill_def shown_def on_exec_def io_zoom_def io_raise_def sm_run_def skills_of_def
        simp del: u_simps split: pyval.splits option.splits sum.splits bind_splits)
qed

lemma orders_nothing:
  assumes "asked_for po fab name kwargs agent = None" "tool_handler (fabrica_facade check po) name = Some handler"
    and "handler agent kwargs (t, fab) = (v, (t1, f1))"
  shows "fab_exec f1 = fab_exec fab"
proof -
  consider (code) "name = u ''fabrica_run_code''" | (skill) "name = u ''fabrica_run_skill''" | (other) "\<not> runs_code name"
    by (auto simp: runs_code_def)
  then show ?thesis
  proof cases
    case code
    with assms(2,3) have "handle_run_code (fabrica_facade check po) agent kwargs (t, fab) = (v, (t1, f1))"
      by (simp add: tool_handler_def)
    from orders_no_code [OF assms(1) [unfolded code] this] show ?thesis .
  next
    case skill
    with assms(2,3) have "handle_run_skill (fabrica_facade check po) agent kwargs (t, fab) = (v, (t1, f1))"
      by (simp add: tool_handler_def)
    from orders_no_skill [OF assms(1) [unfolded skill] this] show ?thesis .
  next
    case other
    with assms(2,3) show ?thesis
      by (auto simp: tool_handler_def runs_code_def simp del: u_simps dest!: find_call_leaves memory_call_leaves split: if_splits)
  qed
qed

lemma external_request:
  assumes "on_call_tool fr str_exc srv (fabrica_facade check po) access name args (t, fab) = (r, (t', fab'))"
  shows "fab_exec fab' = fab_exec fab \<or>
    (\<exists>agent x rr. asked_for po fab name (case args of None \<Rightarrow> [] | Some d \<Rightarrow> d) agent = Some x \<and>
      execute_outcome check (po_sandbox po) (po_wakes po) x (fab_exec fab) = (rr, fab_exec fab'))"
proof (cases "\<exists>handler agent. tool_handler (fabrica_facade check po) name = Some handler \<and> resolve_agent_id srv access = Inr agent \<and>
    kwargs_ok (case args of None \<Rightarrow> [] | Some d \<Rightarrow> d)")
  case False
  with assms show ?thesis by (auto simp: on_call_tool_def Let_def split: option.splits sum.splits if_splits)
next
  case True
  define kwargs where "kwargs = (case args of None \<Rightarrow> [] | Some d \<Rightarrow> d)"
  from True obtain handler agent where h: "tool_handler (fabrica_facade check po) name = Some handler"
    "resolve_agent_id srv access = Inr agent" "kwargs_ok kwargs" by (auto simp: kwargs_def)
  obtain v t1 where v: "handler agent kwargs (t, fab) = (v, (t1, fab'))"
    using assms h by (cases "handler agent kwargs (t, fab)")
      (auto simp: on_call_tool_def Let_def kwargs_def [symmetric] split: sum.splits)
  show ?thesis
  proof (cases "asked_for po fab name kwargs agent")
    case None
    from orders_nothing [OF this h(1) v] show ?thesis ..
  next
    case (Some x)
    obtain rr w' where o: "execute_outcome check (po_sandbox po) (po_wakes po) x (fab_exec fab) = (rr, w')" by (metis prod.exhaust)
    from request_runs [OF Some o, of t] h(1) v have "fab' = fab\<lparr>fab_exec := w'\<rparr>" by auto
    with Some o show ?thesis unfolding kwargs_def [symmetric] by auto
  qed
qed

context tool_gate
begin

lemma call_reaches:
  assumes "on_call_tool fr str_exc srv (fabrica_facade check po) access name args (t, fab) = (r, (t', fab'))" "po_sandbox po = sb"
  shows "(tool_step (fab_tools fab))\<^sup>*\<^sup>* (ew_tools (fab_exec fab)) (ew_tools (fab_exec fab')) \<and>
    (name \<noteq> u ''fabrica_run_code'' \<longrightarrow> ew_tools (fab_exec fab') = ew_tools (fab_exec fab))"
  using external_request [OF assms(1)]
proof
  assume "fab_exec fab' = fab_exec fab"
  then show ?thesis by simp
next
  assume "\<exists>agent x rr. asked_for po fab name (case args of None \<Rightarrow> [] | Some d \<Rightarrow> d) agent = Some x \<and>
      execute_outcome check (po_sandbox po) (po_wakes po) x (fab_exec fab) = (rr, fab_exec fab')"
  then obtain agent x rr where a: "asked_for po fab name (case args of None \<Rightarrow> [] | Some d \<Rightarrow> d) agent = Some x"
    and o: "execute_outcome check sb (po_wakes po) x (fab_exec fab) = (rr, fab_exec fab')" unfolding assms(2) by blast
  have "(tool_step (fab_tools fab))\<^sup>*\<^sup>* (ew_tools (fab_exec fab)) (ew_tools (fab_exec fab'))"
    by (rule outcome_gate [OF requests_step [OF a] _ o]) simp
  moreover have "ew_tools (fab_exec fab') = ew_tools (fab_exec fab)" if "name \<noteq> u ''fabrica_run_code''"
    using outcome_gate [OF skills_step [OF a that] refl o] .
  ultimately show ?thesis by blast
qed

text \<open>Over a sequence of calls, each on this sandbox.\<close>

lemma run_reaches:
  assumes "\<forall>k \<in> set ks. po_sandbox (ec_ports k) = sb"
    and "(k, f, r, f') \<in> set (external_run fr str_exc srv api ks (t, fab))"
  shows "fab_tools f = fab_tools fab \<and> (tool_step (fab_tools fab))\<^sup>*\<^sup>* (ew_tools (fab_exec fab)) (ew_tools (fab_exec f)) \<and>
    (tool_step (fab_tools fab))\<^sup>*\<^sup>* (ew_tools (fab_exec f)) (ew_tools (fab_exec f')) \<and>
    (ec_name k \<noteq> u ''fabrica_run_code'' \<longrightarrow> ew_tools (fab_exec f') = ew_tools (fab_exec f))"
  using assms
proof (induction ks arbitrary: t fab)
  case (Cons j ks)
  obtain q t1 fab1 where c: "external_call fr str_exc srv api j (t, fab) = (q, (t1, fab1))" by (metis prod.exhaust)
  have j: "po_sandbox (ec_ports j) = sb" using Cons.prems(1) by simp
  note step = call_reaches [OF c [unfolded external_call_def] j]
  have "registry fab1 = registry fab" using call_keeps_registry [OF c [unfolded external_call_def]] .
  then have same: "fab_tools fab1 = fab_tools fab" by (simp add: registry_def)
  from Cons.prems(2) c consider (now) "k = j" "f = fab" "f' = fab1"
    | (later) "(k, f, r, f') \<in> set (external_run fr str_exc srv api ks (t1, fab1))" by auto
  then show ?case
  proof cases
    case now
    with step show ?thesis by auto
  next
    case later
    from Cons.IH [OF _ this] Cons.prems(1) same step show ?thesis by (auto intro: rtranclp_trans)
  qed
qed simp

end

end
