(* ===== verification/ServiceLife.thy ===== *)
theory ServiceLife
  imports ToolGate
begin

text \<open>
  The life of a service whose sandboxes are micro virtual machines: warm instances are booted, external callers run
  code, scheduled refills run in between, and the pool is closed. The locale \<open>tidy_sandbox\<close> says what the pool relies on
  when it keeps track of the instances of a backend: identifiers are new, and an instance is alive from its boot to its
  termination. The Firecracker backend interprets it on a host whose steps succeed.
\<close>

section \<open>A backend that keeps track of its instances\<close>

locale tidy_sandbox =
  fixes sb :: "('b, 't) sandbox"
    and sound :: "'b \<Rightarrow> bool"
    and issued :: "'b \<Rightarrow> handle \<Rightarrow> bool"
    and alive :: "'b \<Rightarrow> handle \<Rightarrow> bool"
    and took :: real
  assumes boot: "sound b \<Longrightarrow> sb_boot_clean sb b = (d, (r, b')) \<Longrightarrow>
      d = took \<and> sound b' \<and> (\<forall>h. issued b h \<longrightarrow> issued b' h) \<and>
      (case r of
         Inl e \<Rightarrow> \<forall>h. alive b' h \<longleftrightarrow> alive b h
       | Inr h \<Rightarrow> \<not> issued b h \<and> issued b' h \<and> (\<forall>h'. alive b' h' \<longleftrightarrow> h' = h \<or> alive b h'))"
    and exec: "sound b \<Longrightarrow> sb_execute sb h code cb tmo limit (b, t) = (rr, (b', t')) \<Longrightarrow>
      sound b' \<and> (\<forall>h. issued b h \<longrightarrow> issued b' h) \<and> (\<forall>h. alive b' h \<longleftrightarrow> alive b h)"
    and stop: "sound b \<Longrightarrow> issued b h \<Longrightarrow> sb_terminate sb h b = (x, b') \<Longrightarrow>
      x = Inr () \<and> sound b' \<and> (\<forall>h. issued b h \<longrightarrow> issued b' h) \<and> (\<forall>h'. alive b' h' \<longleftrightarrow> alive b h' \<and> h' \<noteq> h)"
begin

text \<open>The live instances are the warm ones and those in \<open>H\<close>, each once.\<close>

definition tidy :: "int \<Rightarrow> handle set \<Rightarrow> 'b pool_world \<Rightarrow> bool" where
  "tidy ws H w \<longleftrightarrow>
     pl_warm_size (pw_pool w) = ws \<and>
     sound (pw_backend w) \<and> distinct (pl_warm (pw_pool w)) \<and>
     int (length (pl_warm (pw_pool w))) \<le> max (pl_warm_size (pw_pool w)) 0 \<and>
     H \<inter> set (pl_warm (pw_pool w)) = {} \<and>
     (\<forall>h. alive (pw_backend w) h \<longleftrightarrow> h \<in> set (pl_warm (pw_pool w)) \<union> H) \<and>
     (\<forall>h \<in> set (pl_warm (pw_pool w)) \<union> H. issued (pw_backend w) h) \<and>
     (took \<le> 0 \<or> took \<le> pl_acquire_timeout (pw_pool w))"

lemma tidy_acquire:
  assumes "tidy ws {} w" "acquire_loop sb [] 0 w = (r, w')"
  shows "tidy ws (case r of Inl e \<Rightarrow> {} | Inr (h, warm, d) \<Rightarrow> {h}) w' \<and> pw_refills w' = pw_refills w"
proof (cases "pl_warm (pw_pool w) \<noteq> []")
  case True
  then obtain hs h where "pl_warm (pw_pool w) = hs @ [h]" by (metis rev_exhaust)
  with assms True show ?thesis by (auto simp: acquire_loop.simps try_acquire_def tidy_def)
next
  case False
  show ?thesis
  proof (cases "pl_concurrent_count (pw_pool w) < pl_max_concurrent (pw_pool w)")
    case True
    obtain d rb b where b: "sb_boot_clean sb (pw_backend w) = (d, (rb, b))" by (metis prod.exhaust)
    from boot [OF _ b] assms(1) have law: "d = took" "sound b" "\<forall>h. issued (pw_backend w) h \<longrightarrow> issued b h"
      "case rb of
         Inl e \<Rightarrow> \<forall>h. alive b h \<longleftrightarrow> alive (pw_backend w) h
       | Inr h \<Rightarrow> \<not> issued (pw_backend w) h \<and> issued b h \<and> (\<forall>h'. alive b h' \<longleftrightarrow> h' = h \<or> alive (pw_backend w) h')"
      by (auto simp: tidy_def)
    show ?thesis using assms(2) False True b law assms(1)
      by (cases rb)
         (auto simp: acquire_loop.simps try_acquire_def cold_start_def on_backend_def tidy_def split: if_splits)
  next
    case full: False
    with assms False show ?thesis by (auto simp: acquire_loop.simps try_acquire_def)
  qed
qed

lemma tidy_execute:
  assumes "tidy ws H w" "sb_execute sb h code cb tmo limit (pw_backend w, t) = (rr, (b, t'))"
  shows "tidy ws H (w\<lparr>pw_backend := b\<rparr>)"
  using assms exec [OF _ assms(2)] by (auto simp: tidy_def)

lemma tidy_release:
  assumes "tidy ws {h} w" "pl_release sb h w = (r, w')"
  shows "r = Inr () \<and> tidy ws {} w'"
proof -
  obtain x b where b: "sb_terminate sb h (pw_backend w) = (x, b)" by (metis prod.exhaust)
  from assms(1) have "sound (pw_backend w)" "issued (pw_backend w) h" by (auto simp: tidy_def)
  from stop [OF this b] assms b show ?thesis
    by (auto simp: pl_release_def on_backend_def finish_release_def tidy_def)
qed

lemma tidy_run:
  assumes "tidy ws {} (ew_pool w)" "execute_outcome check sb no_waits x w = (rr, w')"
  shows "tidy ws {} (ew_pool w')"
proof (cases "ew_pool w' = ew_pool w")
  case False
  obtain rg w1 where g: "on_client (check (xr_agent_id x) (xr_action x) (xr_scope x)) w = (rg, w1)" by (metis prod.exhaust)
  then have same: "ew_pool w1 = ew_pool w" by (auto simp: on_client_def split: prod.splits)
  from assms(2) g False same have o: "sandboxed_outcome sb no_waits x w1 = (rr, w')"
    by (auto simp: execute_outcome_def split: sum.splits option.splits)
  obtain r p where a: "acquire_loop sb [] 0 (ew_pool w1) = (r, p)" by (metis prod.exhaust)
  from tidy_acquire [OF _ this] assms(1) same have t: "tidy ws (case r of Inl e \<Rightarrow> {} | Inr (h, warm, d) \<Rightarrow> {h}) p" by simp
  show ?thesis
  proof (cases r)
    case (Inl e)
    with o a t show ?thesis by (auto simp: sandboxed_outcome_def)
  next
    case (Inr y)
    obtain h warm d where y: "y = (h, warm, d)" by (cases y)
    obtain re b t' where e: "sb_execute sb h (xr_code x) (xr_on_tool_call x) (xr_timeout x) (xr_tool_call_timeout x)
        (pw_backend p, ew_tools w1) = (re, (b, t'))" by (metis prod.exhaust)
    obtain q p' where rel: "pl_release sb h (p\<lparr>pw_backend := b\<rparr>) = (q, p')" by (metis prod.exhaust)
    from tidy_release [OF tidy_execute [OF _ e] rel] t Inr y have "tidy ws {} p'" "q = Inr ()" by auto
    with o a Inr y e rel show ?thesis by (auto simp: sandboxed_outcome_def run_and_release_def)
  qed
qed (use assms(1) in simp)

lemma tidy_refill:
  assumes "tidy ws {} w"
  shows "tidy ws {} (run_refill sb w)"
proof -
  obtain d r b where b: "sb_boot_clean sb (pw_backend w) = (d, (r, b))" by (metis prod.exhaust)
  show ?thesis
  proof (cases r)
    case (Inl e)
    with boot [OF _ b] assms b show ?thesis by (auto simp: run_refill_def on_backend_def tidy_def)
  next
    case (Inr h)
    with boot [OF _ b] assms have new: "sound b" "issued b h" "h \<notin> set (pl_warm (pw_pool w))"
      "\<forall>h'. issued (pw_backend w) h' \<longrightarrow> issued b h'" "\<forall>h'. alive b h' \<longleftrightarrow> h' = h \<or> alive (pw_backend w) h'"
      by (auto simp: tidy_def)
    obtain x b2 where b2: "sb_terminate sb h b = (x, b2)" by (metis prod.exhaust)
    from stop [OF new(1,2) b2] new b b2 Inr assms show ?thesis
      by (auto simp: run_refill_def on_backend_def put_fresh_def tidy_def)
  qed
qed

lemma tidy_refills: "tidy ws {} w \<Longrightarrow> tidy ws {} ((run_refill sb ^^ n) w)"
  by (induction n) (simp_all add: tidy_refill)

lemma tidy_boots:
  assumes "tidy ws {} w" "int (length (pl_warm (pw_pool w))) + int n \<le> max (pl_warm_size (pw_pool w)) 0"
  shows "tidy ws {} (snd (boot_missing sb n w))"
  using assms
proof (induction n arbitrary: w)
  case (Suc n)
  obtain d r b where b: "sb_boot_clean sb (pw_backend w) = (d, (r, b))" by (metis prod.exhaust)
  show ?case
  proof (cases r)
    case (Inl e)
    with boot [OF _ b] Suc.prems b show ?thesis by (auto simp: on_backend_def tidy_def)
  next
    case (Inr h)
    let ?w = "w\<lparr>pw_backend := b, pw_pool := (pw_pool w)\<lparr>pl_warm := pl_warm (pw_pool w) @ [h]\<rparr>\<rparr>"
    from boot [OF _ b] Suc.prems Inr have "tidy ws {} ?w" by (auto simp: tidy_def)
    from Suc.IH [OF this] Suc.prems(2) b Inr show ?thesis by (simp add: on_backend_def)
  qed
qed simp

lemma tidy_prewarm: "tidy ws {} w \<Longrightarrow> tidy ws {} (snd (pl_prewarm sb w))"
  unfolding pl_prewarm_def by (rule tidy_boots) (auto simp: tidy_def)

lemma tidy_terminate_all:
  assumes "sound b" "\<forall>h \<in> set hs. issued b h" "\<forall>h. alive b h \<longleftrightarrow> h \<in> set hs"
  shows "\<exists>b'. terminate_all sb hs b = (Inr (), b') \<and> sound b' \<and> (\<forall>h. \<not> alive b' h)"
proof -
  have "\<exists>b'. terminate_all sb hs b = (Inr (), b') \<and> sound b' \<and> (\<forall>h. alive b' h \<longrightarrow> alive b h \<and> h \<notin> set hs)"
    using assms(1,2)
  proof (induction hs arbitrary: b)
    case (Cons h hs)
    obtain x b1 where s: "sb_terminate sb h b = (x, b1)" by (metis prod.exhaust)
    from stop [OF Cons.prems(1) _ s] Cons.prems have "x = Inr ()" "sound b1" "\<forall>h \<in> set hs. issued b1 h"
      "\<forall>h'. alive b1 h' \<longleftrightarrow> alive b h' \<and> h' \<noteq> h" by auto
    with Cons.IH [OF this(2,3)] s show ?case by fastforce
  qed simp
  with assms(3) show ?thesis by blast
qed

text \<open>Closing the pool leaves no instance alive.\<close>

lemma tidy_close:
  assumes "tidy ws {} w" "pl_close sb w = (r, w')"
  shows "\<exists>b. sb_close sb b = (r, pw_backend w') \<and> sound b \<and> (\<forall>h. \<not> alive b h)"
proof -
  define w1 where "w1 = (run_refill sb ^^ pw_refills w) w"
  from tidy_refills [OF assms(1)] have "tidy ws {} w1" by (simp add: w1_def)
  then obtain b where "terminate_all sb (pl_warm (pw_pool w1)) (pw_backend w1) = (Inr (), b)" "sound b" "\<forall>h. \<not> alive b h"
    using tidy_terminate_all [of "pw_backend w1" "pl_warm (pw_pool w1)"] by (auto simp: tidy_def)
  with assms(2) show ?thesis
    by (auto simp: pl_close_def Let_def on_backend_def simp flip: w1_def split: prod.splits)
qed

end

section \<open>Micro virtual machines\<close>

definition fc_issued :: "(nat \<Rightarrow> pystr) \<Rightarrow> fc_world \<Rightarrow> handle \<Rightarrow> bool" where
  "fc_issued uuid w h \<longleftrightarrow> h_tier h = 2 \<and> (\<exists>i < fw_ids w. h_id h = uuid i)"

definition fc_alive :: "fc_world \<Rightarrow> handle \<Rightarrow> bool" where
  "fc_alive w h \<longleftrightarrow> h_tier h = 2 \<and> registered_machine h w"

text \<open>Identifiers do not repeat, the steps of the host succeed, every instance has an identifier that was given and a
  process that runs, and what is on the host is accounted for.\<close>

definition fc_sound :: "fc_env \<Rightarrow> fc_config \<Rightarrow> (nat \<Rightarrow> pystr) \<Rightarrow> fc_host \<Rightarrow> fc_world \<Rightarrow> bool" where
  "fc_sound env cfg uuid base w \<longleftrightarrow>
     inj uuid \<and> env_ok env cfg \<and> \<not> (fc_jailer cfg \<and> fc_snapshot_restore cfg) \<and> accounted cfg base (fw_state w) \<and>
     (\<forall>k. dict_get (fb_instances (fst (fw_state w))) k \<noteq> None \<longrightarrow>
        (\<exists>i < fw_ids w. k = uuid i) \<and> k \<in> fh_procs (snd (fw_state w)))"

lemma sound_live: "fc_sound env cfg uuid base w \<Longrightarrow> live_machine h w \<longleftrightarrow> registered_machine h w"
  by (auto simp: fc_sound_def live_machine_def registered_machine_def)

lemma sound_can_end: "fc_sound env cfg uuid base w \<Longrightarrow> can_end_machine env h w"
  by (auto simp: fc_sound_def can_end_machine_def env_ok_def split: option.split)

text \<open>A boot starts the process of its instance and, for the golden snapshot, that of another, and stops no other.\<close>

definition other_procs :: "pystr set \<Rightarrow> fc_host \<Rightarrow> pystr set" where
  "other_procs I h = fh_procs h - I"

lemma other_procs_simps [simp]:
  "other_procs I (add_file p h) = other_procs I h" "other_procs I (unlink_files ps h) = other_procs I h"
  "other_procs I (close_server p h) = other_procs I h" "other_procs I (called c h) = other_procs I h"
  "other_procs I (h\<lparr>fh_files := F\<rparr>) = other_procs I h" "other_procs I (h\<lparr>fh_listening := L\<rparr>) = other_procs I h"
  "other_procs I (h\<lparr>fh_jails := J\<rparr>) = other_procs I h"
  by (simp_all add: other_procs_def add_file_def unlink_files_def close_server_def called_def)

lemma other_procs_cleanup [simp]: "other_procs I (cleanup_files inst rootfs h) = other_procs I h"
  by (simp only: cleanup_files_def other_procs_simps)

lemma killed_procs: "kill_process i h = (r, h') \<Longrightarrow> other_procs {i} h' = other_procs {i} h"
  by (auto simp: other_procs_def kill_process_def split: if_splits)

lemma api_procs: "fh_procs (snd (api_calls env sock requests h)) = fh_procs h"
  by (induction requests arbitrary: h) (auto simp: called_def simp del: u_simps split: prod.split option.split)

lemma await_procs:
  assumes "await_ready env i undo h = (r, h')" "\<And>h. other_procs {i} (snd (undo h)) = other_procs {i} h"
  shows "other_procs {i} h' = other_procs {i} h \<and> (\<not> isl r \<longrightarrow> snd (fe_ready env i) \<longrightarrow> h' = h)"
proof -
  define h1 where "h1 = (if snd (fe_ready env i) then h else h\<lparr>fh_procs := fh_procs h - {i}\<rparr>)"
  have h1: "other_procs {i} h1 = other_procs {i} h" by (simp add: h1_def other_procs_def)
  from assms(1) have "\<not> isl r \<and> h' = h1 \<or> isl r \<and> (h' = h1 \<or> h' = snd (undo h1))"
    by (auto simp: await_ready_def Let_def simp del: u_simps simp flip: h1_def
        split: sum.splits prod.splits pyval.splits if_splits)
  then show ?thesis using h1 assms(2) by (auto simp: h1_def)
qed

lemma start_procs:
  assumes "start_instance env cfg i inst requests h = (r, h')"
  shows "other_procs {i} h' = other_procs {i} h \<and> (\<not> isl r \<longrightarrow> snd (fe_ready env i) \<longrightarrow> i \<in> fh_procs h')"
proof -
  have undo: "other_procs {i} (snd (undo_boot i inst h)) = other_procs {i} h" for h
    by (auto simp: undo_boot_def dest: killed_procs split: prod.split sum.split)
  let ?h1 = "add_file (in_console_log inst) (add_file (listen_path (in_vsock_uds inst))
    (h\<lparr>fh_listening := insert (listen_path (in_vsock_uds inst)) (fh_listening h)\<rparr>))"
  define h2 where "h2 = called (Command [fc_binary cfg, u ''--api-sock'', in_api_sock inst])
    (?h1\<lparr>fh_procs := insert i (fh_procs ?h1), fh_files := fh_files ?h1 \<union> fe_made env i\<rparr>)"
  have h2: "fh_procs h2 = insert i (fh_procs h)" by (simp add: h2_def called_def add_file_def)
  obtain ra h3 where a: "api_calls env (in_api_sock inst) requests h2 = (ra, h3)" by (metis prod.exhaust)
  have h3: "fh_procs h3 = insert i (fh_procs h)" using api_procs [of env "in_api_sock inst" requests h2] a h2 by simp
  then have h3': "other_procs {i} h3 = other_procs {i} h" by (auto simp: other_procs_def)
  consider (unlistened) e where "fe_listen env (listen_path (in_vsock_uds inst)) = Some e"
    | (unspawned) e where "fe_listen env (listen_path (in_vsock_uds inst)) = None" "fe_spawn env i = Some e"
    | (spawned) "fe_listen env (listen_path (in_vsock_uds inst)) = None" "fe_spawn env i = None" by fastforce
  then show ?thesis
  proof cases
    case unlistened
    with assms show ?thesis by (auto simp: start_instance_def)
  next
    case unspawned
    with assms show ?thesis by (auto simp: start_instance_def Let_def)
  next
    case spawned
    with assms a have "(case ra of Inl e \<Rightarrow> (Inl e, h3) | Inr x \<Rightarrow> await_ready env i (undo_boot i inst) h3) = (r, h')"
      by (simp add: start_instance_def Let_def flip: h2_def del: u_simps)
    then show ?thesis using await_procs [OF _ undo, of env h3 r h'] h3 h3' by (auto split: sum.splits)
  qed
qed

lemma cold_procs:
  assumes "cold_boot env cfg i (b, h) = (r, (b', h'))"
  shows "other_procs {i} h' = other_procs {i} h \<and> (\<not> isl r \<longrightarrow> snd (fe_ready env i) \<longrightarrow> i \<in> fh_procs h')"
proof -
  obtain x h1 where s: "start_instance env cfg i (new_instance cfg True i) (cold_requests cfg i)
      (add_file (fc_path cfg i ''-rootfs.ext4'') h) = (x, h1)" by (metis prod.exhaust)
  have "h' = h \<and> isl r \<or> h' = h1 \<and> isl r = isl x"
    using assms s by (cases x) (auto simp: cold_boot_def Let_def simp del: u_simps split: option.splits)
  with start_procs [OF s] show ?thesis by auto
qed

lemma restore_procs:
  assumes "restore_instance env cfg i (b, h) = (r, (b', h'))"
  shows "other_procs {i} h' = other_procs {i} h \<and> (\<not> isl r \<longrightarrow> snd (fe_ready env i) \<longrightarrow> i \<in> fh_procs h')"
proof (cases "fb_golden_snapshot b")
  case (Some snap)
  obtain x h1 where s: "start_instance env cfg i (new_instance cfg False i) (restore_requests cfg i snap) h = (x, h1)"
    by (metis prod.exhaust)
  have "h' = h1 \<and> isl r = isl x"
    using assms s Some by (cases x) (auto simp: restore_instance_def Let_def simp del: u_simps)
  with start_procs [OF s] show ?thesis by auto
qed (use assms in \<open>auto simp: restore_instance_def\<close>)

lemma golden_procs:
  assumes "ensure_golden_snapshot env cfg g (b, h) = (x, (b1, h1))"
  shows "other_procs {g} h1 = other_procs {g} h"
proof (cases "fb_golden_snapshot b = None")
  case True
  obtain rc bc hc where c: "cold_boot env cfg g (b, h) = (rc, (bc, hc))" by (metis prod.exhaust)
  let ?snap = "snapshot_paths cfg b" and ?sock = "in_api_sock (new_instance cfg True g)"
  obtain ra h2 where a: "api_calls env ?sock (snapshot_requests ?snap) (unlink_files [fst ?snap, snd ?snap] hc) = (ra, h2)"
    by (metis prod.exhaust)
  define h3 where "h3 = (if fe_snapped env then add_file (fst ?snap) (add_file (snd ?snap) h2) else h2)"
  have "other_procs {g} h2 = other_procs {g} hc"
    using api_procs [of env ?sock "snapshot_requests ?snap" "unlink_files [fst ?snap, snd ?snap] hc"] a
    by (simp add: other_procs_def unlink_files_def)
  then have h2: "other_procs {g} h2 = other_procs {g} h" "other_procs {g} hc = other_procs {g} h"
    using cold_procs [OF c] by simp_all
  then have h3: "other_procs {g} h3 = other_procs {g} h" by (simp add: h3_def)
  obtain rk h4 where k: "kill_process g h3 = (rk, h4)" by (metis prod.exhaust)
  then have h4: "other_procs {g} h4 = other_procs {g} h" using killed_procs [OF k] h3 by simp
  let ?undone = "cleanup_files (new_instance cfg True g) False (close_server (listen_path (in_vsock_uds (new_instance cfg True g))) h4)"
  have "h1 = hc \<or> h1 = h2 \<or> h1 = h4 \<or> h1 = ?undone"
    using assms True c a k
    by (cases rc; cases ra; cases rk) (simp_all add: ensure_golden_snapshot_def Let_def del: u_simps flip: h3_def)
  with h2 h4 show ?thesis by auto
qed (use assms in \<open>simp add: ensure_golden_snapshot_def\<close>)

lemma jailed_procs:
  assumes "boot_jailed env cfg i (b, h) = (r, (b', h'))"
  shows "other_procs {i} h' = other_procs {i} h \<and> (\<not> isl r \<longrightarrow> snd (fe_ready env i) \<longrightarrow> i \<in> fh_procs h')"
proof -
  let ?inst = "jailed_instance cfg i" and ?jail = "jail_dir_of cfg i"
  have undo: "other_procs {i} (snd (undo_jailed env i ?inst ?jail h)) = other_procs {i} h" for h
    by (simp add: undo_jailed_def terminate_jailed_def Let_def) (simp add: other_procs_def called_def close_server_def)
  define h2 where "h2 = (if snd (fe_stage env i)
      then called (Command (stage_argv cfg i)) h\<lparr>fh_jails := insert ?jail (fh_jails (called (Command (stage_argv cfg i)) h))\<rparr>
      else called (Command (stage_argv cfg i)) h)"
  define h3 where "h3 = called (Wrote (?jail @ u ''/root/vm-config.json'') (vm_config cfg)) h2"
  define h4 where "h4 = add_file (in_console_log ?inst)
      (h3\<lparr>fh_listening := insert (listen_path (in_vsock_uds ?inst)) (fh_listening h3)\<rparr>)"
  define h5 where "h5 = called (Command (jailer_argv cfg i)) (h4\<lparr>fh_procs := insert i (fh_procs h4)\<rparr>)"
  have procs: "other_procs {i} h2 = other_procs {i} h" "other_procs {i} h3 = other_procs {i} h"
    "other_procs {i} h4 = other_procs {i} h" "other_procs {i} h5 = other_procs {i} h" "i \<in> fh_procs h5"
    by (auto simp: h2_def h3_def h4_def h5_def other_procs_def called_def add_file_def)
  obtain rw h6 where w: "await_ready env i (undo_jailed env i ?inst ?jail) h5 = (rw, h6)" by (metis prod.exhaust)
  note k = await_procs [OF w undo]
  have "isl r \<and> h' \<in> {h2, h3, h4} \<or> h' = h6 \<and> isl r = isl rw"
    using assms w
    by (cases rw) (auto simp: boot_jailed_def Let_def simp del: u_simps simp flip: h2_def h3_def h4_def h5_def
        split: if_splits option.splits)
  with k procs show ?thesis by auto
qed

lemma boot_procs:
  assumes "fc_boot_clean env cfg g i (b, h) = (r, (b', h'))"
  shows "other_procs {g, i} h' = other_procs {g, i} h \<and> (\<not> isl r \<longrightarrow> snd (fe_ready env i) \<longrightarrow> i \<in> fh_procs h')"
proof -
  have wide: "other_procs {i} h1 = other_procs {i} h2 \<Longrightarrow> other_procs {g, i} h1 = other_procs {g, i} h2"
    "other_procs {g} h1 = other_procs {g} h2 \<Longrightarrow> other_procs {g, i} h1 = other_procs {g, i} h2" for h1 h2
    by (auto simp: other_procs_def)
  obtain x b1 h1 where x: "ensure_golden_snapshot env cfg g (b, h) = (x, (b1, h1))" by (metis prod.exhaust)
  show ?thesis
  proof (cases "\<not> fc_jailer cfg \<and> fc_snapshot_restore cfg")
    case True
    with assms x golden_procs [OF x] show ?thesis
      by (cases x) (auto simp: fc_boot_clean_def dest!: restore_procs wide)
  next
    case False
    with assms show ?thesis
      by (auto simp: fc_boot_clean_def dest!: cold_procs jailed_procs wide split: if_splits)
  qed
qed

lemma boot_instances:
  assumes "fc_boot_clean env cfg g i (b, h) = (r, (b', h'))" "dict_get (fb_instances b) g = None"
  shows "case r of
      Inl e \<Rightarrow> \<forall>k. dict_get (fb_instances b') k = dict_get (fb_instances b) k
    | Inr hdl \<Rightarrow> hdl = \<lparr>h_id = i, h_tier = 2\<rparr> \<and>
        (\<forall>k. dict_get (fb_instances b') k \<noteq> None \<longleftrightarrow> k = i \<or> dict_get (fb_instances b) k \<noteq> None)"
proof -
  have golden: "dict_get (fb_instances b1) k = dict_get (fb_instances b) k"
    if "ensure_golden_snapshot env cfg g (b, h) = (x, (b1, h1))" for x b1 h1 k
    using that assms(2)
    by (auto simp: ensure_golden_snapshot_def cold_boot_def Let_def register_instance_def map_of_dict_pop map_of_dict_set
        simp del: u_simps split: if_splits option.splits prod.splits sum.splits)
  have restore: "case r of
      Inl e \<Rightarrow> b' = b1
    | Inr hdl \<Rightarrow> hdl = \<lparr>h_id = i, h_tier = 2\<rparr> \<and>
        (\<forall>k. dict_get (fb_instances b') k \<noteq> None \<longleftrightarrow> k = i \<or> dict_get (fb_instances b1) k \<noteq> None)"
    if "restore_instance env cfg i (b1, h1) = (r, (b', h'))" for b1 h1
    using that
    by (auto simp: restore_instance_def Let_def register_instance_def map_of_dict_set simp del: u_simps
        split: if_splits option.splits prod.splits sum.splits)
  show ?thesis
  proof (cases "\<not> fc_jailer cfg \<and> fc_snapshot_restore cfg")
    case True
    obtain x b1 h1 where x: "ensure_golden_snapshot env cfg g (b, h) = (x, (b1, h1))" by (metis prod.exhaust)
    show ?thesis
    proof (cases x)
      case (Inl e)
      with assms(1) True x golden [OF x] show ?thesis by (auto simp: fc_boot_clean_def)
    next
      case (Inr y)
      with assms(1) True x have "restore_instance env cfg i (b1, h1) = (r, (b', h'))" by (simp add: fc_boot_clean_def)
      from restore [OF this] golden [OF x] show ?thesis by (cases r) auto
    qed
  next
    case False
    with assms(1) show ?thesis
      by (auto simp: fc_boot_clean_def boot_jailed_def cold_boot_def Let_def register_instance_def map_of_dict_set simp del: u_simps
          split: if_splits option.splits prod.splits sum.splits)
  qed
qed

lemma fc_boot_tidy:
  assumes "fc_sound env cfg uuid base w" "sb_boot_clean (fc_sandbox env cfg uuid fr loads machine on_path exists took used cost) w = (d, (r, w'))"
  shows "d = took \<and> fc_sound env cfg uuid base w' \<and> (\<forall>h. fc_issued uuid w h \<longrightarrow> fc_issued uuid w' h) \<and>
    (case r of
       Inl e \<Rightarrow> \<forall>h. fc_alive w' h \<longleftrightarrow> fc_alive w h
     | Inr h \<Rightarrow> \<not> fc_issued uuid w h \<and> fc_issued uuid w' h \<and> (\<forall>h'. fc_alive w' h' \<longleftrightarrow> h' = h \<or> fc_alive w h'))"
proof -
  obtain b hst where st: "fw_state w = (b, hst)" by (cases "fw_state w")
  obtain r' b' hst' where bc: "fc_boot_clean env cfg (uuid (fw_ids w)) (uuid (fw_ids w + 1)) (b, hst) = (r', (b', hst'))"
    by (metis prod.exhaust)
  from assms(1) have inj: "inj uuid" and env: "env_ok env cfg" "\<not> (fc_jailer cfg \<and> fc_snapshot_restore cfg)"
    and acc: "accounted cfg base (b, hst)"
    and ids: "\<And>k. dict_get (fb_instances b) k \<noteq> None \<Longrightarrow> \<exists>i < fw_ids w. k = uuid i"
    and procs: "\<And>k. dict_get (fb_instances b) k \<noteq> None \<Longrightarrow> k \<in> fh_procs hst"
    using st by (simp_all add: fc_sound_def)
  have fresh: "dict_get (fb_instances b) (uuid (fw_ids w)) = None"
  proof (rule ccontr)
    assume "dict_get (fb_instances b) (uuid (fw_ids w)) \<noteq> None"
    from ids [OF this] inj show False by (auto simp: inj_eq)
  qed
  note inst = boot_instances [OF bc fresh]
  from accounted_boot [OF env(1) acc env(2), of "uuid (fw_ids w)" "uuid (fw_ids w + 1)"] bc
  have acc': "accounted cfg base (b', hst')" by auto
  from assms(2) st bc have w': "d = took" "r = r'" "w' = w\<lparr>fw_state := (b', hst'), fw_ids := fw_ids w + 2\<rparr>"
    by (auto simp: fc_sandbox_def)
  have "\<exists>i < fw_ids w + 2. k = uuid i" if "dict_get (fb_instances b') k \<noteq> None" for k
    using that inst ids [of k] by (cases r') (auto intro: less_trans)
  moreover have "k \<in> fh_procs hst'" if k: "dict_get (fb_instances b') k \<noteq> None" for k
  proof -
    have running: "k \<in> fh_procs hst'" if old: "dict_get (fb_instances b) k \<noteq> None"
    proof -
      have "k \<noteq> uuid (fw_ids w)" "k \<noteq> uuid (fw_ids w + 1)" using ids [OF old] inj by (auto simp: inj_eq)
      with procs [OF old] boot_procs [OF bc] show ?thesis by (auto simp: other_procs_def)
    qed
    have "snd (fe_ready env (uuid (fw_ids w + 1)))" using env(1) by (simp add: env_ok_def)
    with boot_procs [OF bc] inst k running show ?thesis by (cases r') auto
  qed
  ultimately have "fc_sound env cfg uuid base w'"
    using inj env acc' w' by (simp add: fc_sound_def)
  moreover have "case r of
       Inl e \<Rightarrow> \<forall>h. fc_alive w' h \<longleftrightarrow> fc_alive w h
     | Inr h \<Rightarrow> \<not> fc_issued uuid w h \<and> fc_issued uuid w' h \<and> (\<forall>h'. fc_alive w' h' \<longleftrightarrow> h' = h \<or> fc_alive w h')"
    using inst w' st inj
    by (cases r) (auto simp: fc_alive_def registered_machine_def fc_issued_def inj_eq)
  ultimately show ?thesis using w' by (auto simp: fc_issued_def intro: less_trans)
qed

lemma fc_stop_tidy:
  assumes "fc_sound env cfg uuid base w" "fc_issued uuid w h"
    and "sb_terminate (fc_sandbox env cfg uuid fr loads machine on_path exists took used cost) h w = (x, w')"
  shows "x = Inr () \<and> fc_sound env cfg uuid base w' \<and> (\<forall>h. fc_issued uuid w h \<longrightarrow> fc_issued uuid w' h) \<and>
    (\<forall>h'. fc_alive w' h' \<longleftrightarrow> fc_alive w h' \<and> h' \<noteq> h)"
proof -
  obtain b hst where st: "fw_state w = (b, hst)" by (cases "fw_state w")
  obtain b' hst' where t: "fc_terminate env h (b, hst) = (b', hst')" by (metis prod.exhaust)
  from assms(1) have "env_ok env cfg" "accounted cfg base (b, hst)" using st by (simp_all add: fc_sound_def)
  from accounted_terminate [OF this, of h] t have acc: "accounted cfg base (b', hst')" by simp
  have inst: "dict_get (fb_instances b') k = (if k = h_id h then None else dict_get (fb_instances b) k)" for k
    using t by (auto simp: fc_terminate_def Let_def map_of_dict_pop split: option.splits)
  from assms(3) st t have w': "x = Inr ()" "w' = w\<lparr>fw_state := (b', hst')\<rparr>" by (auto simp: fc_sandbox_def)
  have "k \<noteq> h_id h \<Longrightarrow> k \<in> fh_procs hst \<Longrightarrow> k \<in> fh_procs hst'" for k
    using t by (auto simp: fc_terminate_def Let_def kill_process_def terminate_jailed_def called_def cleanup_files_def
        unlink_files_def close_server_def split: option.splits if_splits)
  then have "fc_sound env cfg uuid base w'"
    using assms(1) acc w' st inst by (simp add: fc_sound_def)
  moreover have "fc_alive w' h' \<longleftrightarrow> fc_alive w h' \<and> h' \<noteq> h" for h'
    using w' st inst assms(2) by (cases h, cases h') (auto simp: fc_alive_def registered_machine_def fc_issued_def)
  ultimately show ?thesis using w' by (auto simp: fc_issued_def)
qed

interpretation tidy_machine: tidy_sandbox "fc_sandbox env cfg uuid fr loads machine on_path exists took used cost"
    "fc_sound env cfg uuid base" "fc_issued uuid" fc_alive took
  for env cfg uuid fr loads machine on_path exists took used cost base
proof unfold_locales
  show "fc_sound env cfg uuid base b' \<and> (\<forall>h. fc_issued uuid b h \<longrightarrow> fc_issued uuid b' h) \<and> (\<forall>h. fc_alive b' h \<longleftrightarrow> fc_alive b h)"
    if "fc_sound env cfg uuid base b"
      "sb_execute (fc_sandbox env cfg uuid fr loads machine on_path exists took used cost) h code cb tmo limit (b, t) = (rr, (b', t'))"
    for b h code cb tmo limit t rr b' t'
    using that by (auto simp: fc_sandbox_def split: option.splits prod.splits)
qed (fact fc_boot_tidy, fact fc_stop_tidy)

section \<open>The whole life\<close>

text \<open>Between start and close: an external call, or one of the refills that were scheduled.\<close>

datatype 'k service_event = Called 'k | Refilled

definition service_step ::
    "(real \<Rightarrow> pystr) \<Rightarrow> (exc \<Rightarrow> pystr) \<Rightarrow> mcp_server \<Rightarrow> ('n, 'r) http_api \<Rightarrow> ('b, 't) sandbox
     \<Rightarrow> ('p, 'f, 'b, 't, 'd long_term_state, 'c, 'd prompt_state) ext_call service_event
     \<Rightarrow> tracer \<times> ('p, 'f, 'n rest_client client, 'b, 't, 'd long_term_state, 'c, 'd prompt_state) fabrica
     \<Rightarrow> tracer \<times> ('p, 'f, 'n rest_client client, 'b, 't, 'd long_term_state, 'c, 'd prompt_state) fabrica" where
  "service_step fr str_exc srv api sb ev = (\<lambda>(t, fab).
     case ev of
       Called k \<Rightarrow> snd (external_call fr str_exc srv api k (t, fab))
     | Refilled \<Rightarrow>
         (t, if pw_refills (ew_pool (fab_exec fab)) = 0 then fab
             else fab\<lparr>fab_exec := (fab_exec fab)\<lparr>ew_pool := run_refill sb (ew_pool (fab_exec fab))\<rparr>\<rparr>))"

definition prewarmed ::
    "('b, 't) sandbox \<Rightarrow> ('p, 'f, 'g, 'b, 't, 's, 'c, 'q) fabrica \<Rightarrow> ('p, 'f, 'g, 'b, 't, 's, 'c, 'q) fabrica" where
  "prewarmed sb fab = fab\<lparr>fab_exec := (fab_exec fab)\<lparr>ew_pool := snd (pl_prewarm sb (ew_pool (fab_exec fab)))\<rparr>\<rparr>"

text \<open>Every call runs on this sandbox, and no other task of the pool runs during it.\<close>

definition runs_on :: "('b, 't) sandbox \<Rightarrow> ('p, 'f, 'b, 't, 's, 'c, 'q) ext_call service_event \<Rightarrow> bool" where
  "runs_on sb ev \<longleftrightarrow> (case ev of Called k \<Rightarrow> po_sandbox (ec_ports k) = sb \<and> po_wakes (ec_ports k) = no_waits | Refilled \<Rightarrow> True)"

context tidy_sandbox
begin

lemma tidy_step:
  assumes "tidy ws {} (ew_pool (fab_exec fab))" "runs_on sb ev" "service_step fr str_exc srv api sb ev (t, fab) = (t', fab')"
  shows "tidy ws {} (ew_pool (fab_exec fab'))"
proof (cases ev)
  case (Called k)
  obtain r t1 fab1 where c: "external_call fr str_exc srv api k (t, fab) = (r, (t1, fab1))" by (metis prod.exhaust)
  with assms(3) Called have f: "fab1 = fab'" by (simp add: service_step_def)
  have k: "po_sandbox (ec_ports k) = sb" "po_wakes (ec_ports k) = no_waits" using assms(2) Called by (simp_all add: runs_on_def)
  from external_request [OF c [unfolded external_call_def], unfolded k] assms(1) show ?thesis
    unfolding f by (auto dest: tidy_run)
next
  case Refilled
  with assms tidy_refill show ?thesis by (auto simp: service_step_def)
qed

lemma tidy_history:
  assumes "tidy ws {} (ew_pool (fab_exec fab))" "list_all (runs_on sb) evs"
    and "fold (service_step fr str_exc srv api sb) evs (t, fab) = (t', fab')"
  shows "tidy ws {} (ew_pool (fab_exec fab'))"
  using assms
proof (induction evs arbitrary: t fab)
  case (Cons ev evs)
  obtain t1 fab1 where s: "service_step fr str_exc srv api sb ev (t, fab) = (t1, fab1)" by (metis prod.exhaust)
  with Cons.prems have "fold (service_step fr str_exc srv api sb) evs (t1, fab1) = (t', fab')" by simp
  from Cons.IH [OF tidy_step [OF Cons.prems(1) _ s] _ this] Cons.prems(2) show ?case by simp
qed simp

text \<open>From an empty pool over a backend without instances to its closing.\<close>

lemma life:
  assumes "sound b" "\<forall>h. \<not> alive b h" "took \<le> 0 \<or> took \<le> tmo"
    and start: "ew_pool (fab_exec fab) = \<lparr>pw_pool = new_pool ws mc tmo, pw_backend = b, pw_refills = 0\<rparr>"
    and evs: "list_all (runs_on sb) evs" "fold (service_step fr str_exc srv api sb) evs (t, prewarmed sb fab) = (t', fab')"
    and close: "fabrica_close sb fab' = (r, fab'')"
  shows "sound (pw_backend (ew_pool (fab_exec fab'))) \<and>
    (\<forall>h. alive (pw_backend (ew_pool (fab_exec fab'))) h \<longleftrightarrow> h \<in> set (pl_warm (pw_pool (ew_pool (fab_exec fab'))))) \<and>
    distinct (pl_warm (pw_pool (ew_pool (fab_exec fab')))) \<and>
    int (length (pl_warm (pw_pool (ew_pool (fab_exec fab'))))) \<le> max ws 0 \<and>
    (\<exists>b'. sb_close sb b' = (r, pw_backend (ew_pool (fab_exec fab''))) \<and> sound b' \<and> (\<forall>h. \<not> alive b' h))"
proof -
  have "tidy ws {} (ew_pool (fab_exec fab))" using assms(1-4) by (simp add: tidy_def new_pool_def)
  from tidy_prewarm [OF this] have "tidy ws {} (ew_pool (fab_exec (prewarmed sb fab)))" by (simp add: prewarmed_def)
  from tidy_history [OF this evs] have h: "tidy ws {} (ew_pool (fab_exec fab'))" .
  obtain p where p: "pl_close sb (ew_pool (fab_exec fab')) = (r, p)" "ew_pool (fab_exec fab'') = p"
    using close by (auto simp: fabrica_close_def split: prod.splits)
  from tidy_close [OF h p(1)] h p(2) show ?thesis by (auto simp: tidy_def)
qed

end

text \<open>C4: the life of an isolated service leaves nothing behind. On a host whose steps succeed, with a new Firecracker
  backend behind an empty pool: boot the warm instances, then serve any sequence of MCP tool calls of whatever
  callers, running whatever code, with the scheduled refills in between. At every point the instances that are
  registered are exactly the warm ones of the pool, the process of each runs, there are no more than the pool's size, and
  every file, socket, process and jail directory that was not there before belongs to one of them or to the golden
  snapshot: no call leaves a machine behind, and none is used twice. Closing then succeeds and leaves the host as it
  was.\<close>

theorem isolated_service_leaves_nothing:
  assumes "inj uuid" "env_ok env cfg" "new_fc_backend cfg golden_id = Inr b" "took \<le> 0 \<or> took \<le> tmo"
    and sb: "sb = fc_sandbox env cfg uuid ft loads machine on_path exists took used cost"
    and start: "ew_pool (fab_exec fab) =
      \<lparr>pw_pool = new_pool ws mc tmo, pw_backend = \<lparr>fw_state = (b, base), fw_ids = 0\<rparr>, pw_refills = 0\<rparr>"
    and evs: "list_all (runs_on sb) evs" "fold (service_step fr str_exc srv api sb) evs (t, prewarmed sb fab) = (t', fab')"
    and close: "fabrica_close sb fab' = (r, fab'')"
  shows "(\<forall>h. h_tier h = 2 \<longrightarrow>
      (registered_machine h (pw_backend (ew_pool (fab_exec fab'))) \<longleftrightarrow> h \<in> set (pl_warm (pw_pool (ew_pool (fab_exec fab'))))) \<and>
      (live_machine h (pw_backend (ew_pool (fab_exec fab'))) \<longleftrightarrow> h \<in> set (pl_warm (pw_pool (ew_pool (fab_exec fab')))))) \<and>
    distinct (pl_warm (pw_pool (ew_pool (fab_exec fab')))) \<and> int (length (pl_warm (pw_pool (ew_pool (fab_exec fab'))))) \<le> max ws 0 \<and>
    accounted cfg base (fw_state (pw_backend (ew_pool (fab_exec fab')))) \<and> r = Inr () \<and>
    confined (fh_files base) (fh_listening base) (fh_procs base) (fh_jails base) (snd (fw_state (pw_backend (ew_pool (fab_exec fab'')))))"
proof -
  have jail: "\<not> (fc_jailer cfg \<and> fc_snapshot_restore cfg)" and b: "fb_instances b = []" "accounted cfg base (b, base)"
    using assms(3) by (auto simp: new_fc_backend_def accounted_def holds_only_def confined_def split: if_splits)
  have sound: "fc_sound env cfg uuid base \<lparr>fw_state = (b, base), fw_ids = 0\<rparr>" "\<forall>h. \<not> fc_alive \<lparr>fw_state = (b, base), fw_ids = 0\<rparr> h"
    using assms(1,2) jail b by (auto simp: fc_sound_def fc_alive_def registered_machine_def)
  from tidy_machine.life [OF sound assms(4) start evs [unfolded sb] close [unfolded sb]] obtain w where
    h: "fc_sound env cfg uuid base (pw_backend (ew_pool (fab_exec fab')))"
      "\<forall>h. fc_alive (pw_backend (ew_pool (fab_exec fab'))) h \<longleftrightarrow> h \<in> set (pl_warm (pw_pool (ew_pool (fab_exec fab'))))"
      "distinct (pl_warm (pw_pool (ew_pool (fab_exec fab'))))"
      "int (length (pl_warm (pw_pool (ew_pool (fab_exec fab'))))) \<le> max ws 0"
    and w: "r = Inr ()" "w\<lparr>fw_state := fc_close (fw_state w)\<rparr> = pw_backend (ew_pool (fab_exec fab''))" "fc_sound env cfg uuid base w"
      "\<forall>h. \<not> fc_alive w h"
    by (auto simp: fc_sandbox_def)
  have "dict_get (fb_instances (fst (fw_state w))) k = None" for k
    using w(4) [THEN spec, of "\<lparr>h_id = k, h_tier = 2\<rparr>"] by (simp add: fc_alive_def registered_machine_def)
  then have "fb_instances (fst (fw_state w)) = []" by (simp add: fun_eq_iff flip: map_of_eq_empty_iff)
  then have "confined (fh_files base) (fh_listening base) (fh_procs base) (fh_jails base) (snd (fc_close (fw_state w)))"
    using accounted_closed [of cfg base "fst (fw_state w)" "snd (fw_state w)"] w(3) by (simp add: fc_sound_def)
  with h w(1) w(2) [symmetric] sound_live [OF h(1)] show ?thesis by (auto simp: fc_sound_def fc_alive_def)
qed

text \<open>A service to try the property on: a pool of one, an external call and a refill.\<close>

definition life_sandbox :: "(fc_world, unit) sandbox" where
  "life_sandbox =
     fc_sandbox (demo_fc_env (Inr (PDict [(u ''type'', PStr (u ''ready''))]), True)) demo_fc_config (\<lambda>n. replicate n 97) (\<lambda>_. [])
       (\<lambda>bytes. Inr PNone) (\<lambda>i code. Gone 1) (\<lambda>_. True) (\<lambda>_. True) 0 (1, 3, 5) (\<lambda>tool params t. 1)"

definition life_fabrica :: "(keyword_state, keyword_state, nat rest_client client, fc_world, unit,
    memory_state + pydict option persisted_memory, unit option, prompts + pydict option persisted_prompts) fabrica" where
  "life_fabrica =
     \<lparr>fab_retriever = new_retriever [] [], fab_tools = [], fab_skills = [],
      fab_exec =
        \<lparr>ew_client = Presidium (new_rest_client (u ''http://p/'') 0 5 30),
         ew_pool = \<lparr>pw_pool = new_pool 1 1 5, pw_backend = \<lparr>fw_state = (bare_backend, bare_host), fw_ids = 0\<rparr>, pw_refills = 0\<rparr>,
         ew_tools = ()\<rparr>,
      fab_memory = \<lparr>mm_working = new_working_memory default_quota_bytes, mm_long_term = Inl [], mm_compactor = None\<rparr>,
      fab_prompts = new_prompt_manager (Inl [])\<rparr>"

definition life_call :: "(keyword_state, keyword_state, fc_world, unit, memory_state + pydict option persisted_memory, unit option,
    prompts + pydict option persisted_prompts) ext_call" where
  "life_call =
     \<lparr>ec_now1 = 0, ec_now2 = 0, ec_ports = demo_ports life_sandbox, ec_access = None, ec_name = u ''fabrica_run_code'',
      ec_args = Some [(u ''code'', PStr [49])]\<rparr>"

lemma isolated_service_leaves_nothing_witness:
  "\<exists>t fab r fab'. fold (service_step (\<lambda>_. []) (\<lambda>_. []) demo_server allow_api life_sandbox) [Called life_call, Refilled]
      (null_tracer, prewarmed life_sandbox life_fabrica) = (t, fab) \<and>
    fabrica_close life_sandbox fab = (r, fab') \<and> r = Inr () \<and>
    confined {} {} {} {} (snd (fw_state (pw_backend (ew_pool (fab_exec fab')))))"
proof -
  obtain t fab where f: "fold (service_step (\<lambda>_. []) (\<lambda>_. []) demo_server allow_api life_sandbox) [Called life_call, Refilled]
      (null_tracer, prewarmed life_sandbox life_fabrica) = (t, fab)" by (metis prod.exhaust)
  obtain r fab' where c: "fabrica_close life_sandbox fab = (r, fab')" by (metis prod.exhaust)
  have ids: "inj (\<lambda>n. replicate n (97 :: nat))" by (auto simp: inj_def)
  have env: "env_ok (demo_fc_env (Inr (PDict [(u ''type'', PStr (u ''ready''))]), True)) demo_fc_config"
    by (simp add: env_ok_def demo_fc_env_def)
  have new: "new_fc_backend demo_fc_config (u ''0'') = Inr bare_backend"
    by (simp add: new_fc_backend_def demo_fc_config_def bare_backend_def)
  have start: "ew_pool (fab_exec life_fabrica) =
      \<lparr>pw_pool = new_pool 1 1 5, pw_backend = \<lparr>fw_state = (bare_backend, bare_host), fw_ids = 0\<rparr>, pw_refills = 0\<rparr>"
    by (simp add: life_fabrica_def)
  have on: "list_all (runs_on life_sandbox) [Called life_call, Refilled]"
    by (simp add: runs_on_def life_call_def demo_ports_def del: u_simps)
  from isolated_service_leaves_nothing [OF ids env new _ life_sandbox_def start on f c] f c show ?thesis
    by (auto simp: bare_host_def)
qed

end
