(* ===== verification/EndToEnd.thy ===== *)
theory EndToEnd
  imports ServiceLife
begin

text \<open>
  A whole call of \<^verbatim>\<open>fabrica_run_code\<close> or \<^verbatim>\<open>fabrica_run_skill\<close> on an assembled Fabrica: the MCP server, the facade, the
  grant check, the pool, the host and guest side of the shim, and the tools the managers route the program's calls to,
  composed the way the code composes them. The properties rest on the contract of \<^verbatim>\<open>SandboxContract\<close> and its
  interpretations for the three backends.
\<close>

section \<open>The shim as a process, plain or wrapped\<close>

definition shim_sandbox ::
    "'w shim_env \<Rightarrow> (pystr \<Rightarrow> pyval result) \<Rightarrow> (pystr \<Rightarrow> pydict \<Rightarrow> 't \<Rightarrow> real) \<Rightarrow> pystr \<Rightarrow> srt_config option \<Rightarrow> ('w, 't) sandbox" where
  "shim_sandbox env loads cost dir cfg =
     (case cfg of None \<Rightarrow> subprocess_sandbox env loads cost dir | Some c \<Rightarrow> srt_sandbox env loads cost c)"

definition shim_ready :: "'w shim_env \<Rightarrow> pystr \<Rightarrow> srt_config option \<Rightarrow> child \<Rightarrow> handle \<Rightarrow> pystr \<Rightarrow> 'w \<Rightarrow> bool" where
  "shim_ready env dir cfg c h code w =
     (case cfg of None \<Rightarrow> plain_ready env dir c h code w | Some k \<Rightarrow> srt_ready env k c h code w)"

lemmas shim_cases = shim_sandbox_def shim_ready_def

lemma shim_reply:
  assumes "allowed_call check srv access po fab name kwargs x c'" "po_sandbox po = shim_sandbox env loads cost dir cfg"
    and "hands_out (po_sandbox po) (po_wakes po) (ew_pool (fab_exec fab)) h b" "shim_ready env dir cfg c h (xr_code x) b"
  shows "\<exists>a t' fab'. on_call_tool fr str_exc srv (fabrica_facade check po) access name (Some kwargs) (t, fab) =
      (replied fr str_exc (fst a), (t', fab')) \<and>
    child_runs_to loads cost c h (xr_code x) (xr_on_tool_call x) default_run_timeout None (ew_tools (fab_exec fab)) a \<and>
    pl_concurrent_count (pw_pool (ew_pool (fab_exec fab'))) = pl_concurrent_count (pw_pool (ew_pool (fab_exec fab)))"
proof (cases cfg)
  case None
  with assms have "po_sandbox po = subprocess_sandbox env loads cost dir" "plain_ready env dir c h (xr_code x) b"
    by (simp_all add: shim_cases)
  from plain.reply [OF assms(1) this(1) _ this(2)] assms(3) this(1) show ?thesis by metis
next
  case (Some k)
  with assms have "po_sandbox po = srt_sandbox env loads cost k" "srt_ready env k c h (xr_code x) b"
    by (simp_all add: shim_cases)
  from wrapped.reply [OF assms(1) this(1) _ this(2)] assms(3) this(1) show ?thesis by metis
qed

section \<open>What an external caller is told\<close>

text \<open>C10: an external caller is told what its program did. On a Fabrica whose pool runs the shim as a process, plain
  (Tier 0) or under \<^verbatim>\<open>srt\<close> (Tier 1), and can hand out an instance, when the service allows the call: if the code, given
  directly or as the script of a loaded skill, ends by itself within the default time limit, its output fits and its
  last line on the error stream is finished, the reply is no error and its text is the JSON of exactly what the program
  did, its output, its exception if one ended it, and the number of tool calls it made; the tools have seen those calls
  in order, the client has been asked once, and the slot of the pool is given back. A program that ended in an exception
  is a reply without the error flag.\<close>

theorem external_program_answered:
  assumes "allowed_call check srv access po fab name kwargs x c'" "po_sandbox po = shim_sandbox env loads cost dir cfg"
    and "hands_out (po_sandbox po) (po_wakes po) (ew_pool (fab_exec fab)) h b" "shim_ready env dir cfg (guest_shim tb p 0) h (xr_code x) b"
    and "run_prog p (xr_on_tool_call x) 0 (ew_tools (fab_exec fab)) = (Ended out msg n, tools')"
      "in_time p (xr_on_tool_call x) cost default_run_timeout None (ew_tools (fab_exec fab))"
      "child_legible loads p (xr_on_tool_call x) (ew_tools (fab_exec fab)) out msg n"
  shows "\<exists>used t' fab'.
    on_call_tool fr str_exc srv (fabrica_facade check po) access name (Some kwargs) (t, fab) =
      (Inr \<lparr>cr_text = json_dumps fr (asdict_run_result (told out msg n used)), cr_is_error = False\<rparr>, (t', fab')) \<and>
    ew_tools (fab_exec fab') = tools' \<and> ew_client (fab_exec fab') = c' \<and>
    pl_concurrent_count (pw_pool (ew_pool (fab_exec fab'))) = pl_concurrent_count (pw_pool (ew_pool (fab_exec fab)))"
proof (cases cfg)
  case None
  with assms(2,4) have "po_sandbox po = subprocess_sandbox env loads cost dir" "plain_ready env dir (guest_shim tb p 0) h (xr_code x) b"
    by (simp_all add: shim_cases)
  from plain.answered [OF assms(1) this(1) _ this(2) _ assms(5-7), of tb] assms(3) this(1) show ?thesis
    by (simp add: child_carries_def)
next
  case (Some k)
  with assms(2,4) have "po_sandbox po = srt_sandbox env loads cost k" "srt_ready env k (guest_shim tb p 0) h (xr_code x) b"
    by (simp_all add: shim_cases)
  from wrapped.answered [OF assms(1) this(1) _ this(2) _ assms(5-7), of tb] assms(3) this(1) show ?thesis
    by (simp add: child_carries_def)
qed

text \<open>Every callback an external call can use answers, if the namespaces keep their contract and are not cancelled.\<close>

lemma calls_answer:
  assumes "\<forall>ns \<in> set (dict_values tools). tool_namespace ns" "cb = tm_on_tool_call tools \<or> cb = no_tools"
    and "\<forall>tool params t e. fst (tm_on_tool_call tools tool params t) = Inl e \<longrightarrow> is_Exception e"
  shows "\<exists>reply. fst (cb tool params t) = Inr reply"
proof (cases "fst (tm_on_tool_call tools tool params t)")
  case (Inl e)
  obtain r t' where r: "tm_on_tool_call tools tool params t = (r, t')" by (metis prod.exhaust)
  with tool_call_answers [OF assms(1) r] assms(3) Inl show ?thesis by (metis fst_conv sum.inject(1) sum.distinct(1))
next
  case (Inr y)
  with assms(2) show ?thesis by (auto simp: no_tools_def)
qed

lemma allowed_callback:
  assumes "allowed_call check srv access po fab name kwargs x c'"
  shows "xr_on_tool_call x = tm_on_tool_call (fab_tools fab) \<or> xr_on_tool_call x = no_tools"
  using assms by (auto simp: allowed_call_def dest: asked_for_fields(5) split: sum.splits)

text \<open>C11: an external caller always gets an answer. On the same Fabrica, whatever the program does, loops, prints, asks
  or crashes, the call replies: with the JSON of a result, or with the error flag and the text of a timeout or of a
  crash of the sandbox and nothing else, provided the registered namespaces keep their contract and are not cancelled,
  and unreadable JSON text is reported as such; and the slot of the pool is given back, so the pool is not used up by
  programs that fail.\<close>

theorem external_program_always_answered:
  assumes "allowed_call check srv access po fab name kwargs x c'" "po_sandbox po = shim_sandbox env loads cost dir cfg"
    and "hands_out (po_sandbox po) (po_wakes po) (ew_pool (fab_exec fab)) h b" "shim_ready env dir cfg (guest_shim tb p 0) h (xr_code x) b"
    and ns: "\<forall>ns \<in> set (dict_values (fab_tools fab)). tool_namespace ns"
      "\<forall>tool params t e. fst (tm_on_tool_call (fab_tools fab) tool params t) = Inl e \<longrightarrow> is_Exception e"
    and json: "\<forall>s e. loads s = Inl e \<longrightarrow> exc_isa JSONDecodeError e"
  shows "\<exists>reply t' fab'.
    on_call_tool fr str_exc srv (fabrica_facade check po) access name (Some kwargs) (t, fab) = (Inr reply, (t', fab')) \<and>
    (if cr_is_error reply then cr_text reply = str_exc run_timeout \<or> cr_text reply = str_exc crashed
     else \<exists>v. cr_text reply = json_dumps fr (asdict_run_result v)) \<and>
    pl_concurrent_count (pw_pool (ew_pool (fab_exec fab'))) = pl_concurrent_count (pw_pool (ew_pool (fab_exec fab)))"
proof -
  let ?cb = "xr_on_tool_call x"
  from shim_reply [OF assms(1-4), of fr str_exc t] obtain a t' fab' where
    call: "on_call_tool fr str_exc srv (fabrica_facade check po) access name (Some kwargs) (t, fab) =
      (replied fr str_exc (fst a), (t', fab'))"
    and a: "child_runs_to loads cost (guest_shim tb p 0) h (xr_code x) ?cb default_run_timeout None (ew_tools (fab_exec fab)) a"
    and slot: "pl_concurrent_count (pw_pool (ew_pool (fab_exec fab'))) = pl_concurrent_count (pw_pool (ew_pool (fab_exec fab)))"
    by blast
  from a obtain cpu ms s where s: "serve (guest_shim tb p 0) ?cb cost default_run_timeout None (ew_tools (fab_exec fab)) = (s, snd a)"
    and r: "fst a = served_result loads cpu ms s" by (auto simp: child_runs_to_def)
  have answers: "\<forall>tool params t. \<exists>reply. fst (?cb tool params t) = Inr reply"
    using calls_answer [OF ns(1) allowed_callback [OF assms(1)] ns(2)] by blast
  show ?thesis
  proof (cases "fst a")
    case (Inl e)
    with served_failures [OF s answers json, of cpu ms] r [symmetric] have "e = run_timeout \<or> e = crashed" by auto
    with Inl protocol_exceptions have "replied fr str_exc (fst a) = Inr \<lparr>cr_text = str_exc e, cr_is_error = True\<rparr>"
      "e = run_timeout \<or> e = crashed" by (auto simp: replied_def)
    with call slot show ?thesis by auto
  next
    case (Inr v)
    then have "replied fr str_exc (fst a) = Inr \<lparr>cr_text = json_dumps fr (asdict_run_result v), cr_is_error = False\<rparr>"
      by (simp add: replied_def)
    with call slot show ?thesis by auto
  qed
qed

section \<open>The call on a micro virtual machine\<close>

lemma replied_cases:
  assumes "replied fr str_exc rr = Inr reply"
  shows "case rr of
      Inl e \<Rightarrow> is_Exception e \<and> reply = \<lparr>cr_text = str_exc e, cr_is_error = True\<rparr>
    | Inr v \<Rightarrow> reply = \<lparr>cr_text = json_dumps fr (asdict_run_result v), cr_is_error = False\<rparr>"
  using assms by (auto simp: replied_def split: sum.splits if_splits)

text \<open>C6: an external caller is told what its program did in a machine of its own. Over a pool of micro virtual machines
  that hands out a live one, warm or booted for the call, in which the guest shim runs the code of the request it is
  sent, when the service allows the call: if the code the caller asked to be run, run as Python, ends by itself within
  the default time limit and its messages fit their frames and are read back as written, the reply is no error and its
  text is the JSON of exactly what that program did; the tools have seen its calls in order, the client was asked once,
  the slot of the pool is given back, and the machine that ran the program has ended: its process, its listener, its
  files and its jail are gone. (A jailed machine is removed by commands run with \<^verbatim>\<open>sudo\<close>, which must succeed.)\<close>

theorem isolated_program_answered:
  assumes "allowed_call check srv access po fab name kwargs x c'"
    and "po_sandbox po = fc_sandbox env cfg uuid ft loads machine on_path exists took used cost"
    and "hands_out (po_sandbox po) (po_wakes po) (ew_pool (fab_exec fab)) h b" "live_machine h b" "can_end_machine env h b"
    and "machine_carries ft python machine h (xr_code x)"
    and "run_prog (python (xr_code x)) (xr_on_tool_call x) 0 (ew_tools (fab_exec fab)) = (Ended out msg n, tools')"
      "in_time (python (xr_code x)) (xr_on_tool_call x) cost default_run_timeout None (ew_tools (fab_exec fab))"
      "machine_legible ft loads (python (xr_code x)) (xr_on_tool_call x) (ew_tools (fab_exec fab)) out msg n"
  shows "\<exists>used t' fab'.
    on_call_tool fr str_exc srv (fabrica_facade check po) access name (Some kwargs) (t, fab) =
      (Inr \<lparr>cr_text = json_dumps fr (asdict_run_result (told out msg n used)), cr_is_error = False\<rparr>, (t', fab')) \<and>
    ew_tools (fab_exec fab') = tools' \<and> ew_client (fab_exec fab') = c' \<and>
    pl_concurrent_count (pw_pool (ew_pool (fab_exec fab'))) = pl_concurrent_count (pw_pool (ew_pool (fab_exec fab))) \<and>
    machine_ended h b (pw_backend (ew_pool (fab_exec fab')))"
  using machine.answered [OF assms(1,2) _ conjI [OF assms(4,5)] conjI [OF assms(6) refl] assms(7-9)] assms(2,3) by metis

text \<open>C7: no guest can keep its caller without an answer. Whatever runs in the machine, the guest shim or anything else,
  whatever it sends, at whatever time, or whether it goes silent: an allowed call is answered, and the answer is what
  \<^verbatim>\<open>execute()\<close> makes of that machine sent the caller's code, its result as JSON or the text of its error; the tools
  are as that run left them, the slot of the pool is given back and the machine has ended: its process, its listener,
  its files and its jail are gone. The namespaces and the reading of JSON are to raise exceptions only, and the
  commands that remove a jail to succeed.\<close>

theorem isolated_program_always_answered:
  assumes "allowed_call check srv access po fab name kwargs x c'"
    and "po_sandbox po = fc_sandbox env cfg uuid ft loads machine on_path exists took used cost"
    and "hands_out (po_sandbox po) (po_wakes po) (ew_pool (fab_exec fab)) h b" "live_machine h b" "can_end_machine env h b"
    and calls: "regular_calls loads (tm_on_tool_call (fab_tools fab))"
  shows "\<exists>rr reply t' fab'.
    on_call_tool fr str_exc srv (fabrica_facade check po) access name (Some kwargs) (t, fab) = (Inr reply, (t', fab')) \<and>
    fc_execute ft loads used (machine (h_id h)) (xr_code x) (xr_on_tool_call x) cost default_run_timeout None
      (ew_tools (fab_exec fab)) = (rr, ew_tools (fab_exec fab')) \<and>
    (case rr of
       Inl e \<Rightarrow> is_Exception e \<and> reply = \<lparr>cr_text = str_exc e, cr_is_error = True\<rparr>
     | Inr v \<Rightarrow> reply = \<lparr>cr_text = json_dumps fr (asdict_run_result v), cr_is_error = False\<rparr>) \<and>
    ew_client (fab_exec fab') = c' \<and>
    pl_concurrent_count (pw_pool (ew_pool (fab_exec fab'))) = pl_concurrent_count (pw_pool (ew_pool (fab_exec fab))) \<and>
    machine_ended h b (pw_backend (ew_pool (fab_exec fab')))"
proof -
  have "regular_calls loads (xr_on_tool_call x)"
    using calls allowed_callback [OF assms(1)] by (auto simp: regular_calls_def no_tools_def)
  from machine.always_answered [OF assms(1,2) _ conjI [OF assms(4,5)] this] assms(2,3) obtain a reply t' fab' where
    call: "on_call_tool fr str_exc srv (fabrica_facade check po) access name (Some kwargs) (t, fab) = (Inr reply, (t', fab'))"
    and a: "replied fr str_exc (fst a) = Inr reply" "ew_tools (fab_exec fab') = snd a"
      "machine_runs_to ft loads machine used cost h (xr_code x) (xr_on_tool_call x) default_run_timeout None (ew_tools (fab_exec fab)) a"
    and w: "ew_client (fab_exec fab') = c'"
      "pl_concurrent_count (pw_pool (ew_pool (fab_exec fab'))) = pl_concurrent_count (pw_pool (ew_pool (fab_exec fab)))"
      "machine_ended h b (pw_backend (ew_pool (fab_exec fab')))"
    by metis
  from a(2,3) have "fc_execute ft loads used (machine (h_id h)) (xr_code x) (xr_on_tool_call x) cost default_run_timeout None
      (ew_tools (fab_exec fab)) = (fst a, ew_tools (fab_exec fab'))" by (simp add: machine_runs_to_def)
  with call replied_cases [OF a(1)] w show ?thesis by blast
qed

section \<open>From a SKILL.md to the caller\<close>

lemma no_tools_run: "snd (run_prog p no_tools n t) = t"
  by (induction p arbitrary: n) (auto simp: no_tools_def)

text \<open>C9: a loaded skill does what its script does. After a SKILL.md was loaded, a call of \<^verbatim>\<open>fabrica_run_skill\<close> with
  its name, allowed for this very skill, runs in a micro virtual machine exactly one text: the line that binds
  \<^verbatim>\<open>args\<close> to the JSON of the caller's arguments, and behind it the script of the file. If that text, run as Python by
  the guest shim, ends by itself within its limits, whatever tools it asks for, the reply is the JSON of what it did,
  no tool was touched, and the machine has ended with all it had on the host.\<close>

theorem loaded_skill_answered:
  assumes "sm_load bp bf yaml_load raw dir m = (Inr (), m')" "parse_skill yaml_load raw = Inr f" "sf_script f = Some script"
    and fab: "fab_skills fab = sm_skills m'" "po_read_text po dir script = Inr body"
    and args: "kwargs_ok kwargs" "dict_get kwargs (u ''name'') = Some (PStr (sf_name f))"
      "code = u ''args = '' @ json_dumps (po_float_text po) (dict_get_or kwargs (u ''args'') (PDict [])) @ [10] @ body"
      "utf8_encode code = Inr bytes"
    and agent: "resolve_agent_id srv access = Inr agent"
      "check agent (u ''skill_run:'' @ sf_name f) (agent_scope agent) (ew_client (fab_exec fab)) = (Inr g, c')" "gr_decision g = Allow"
    and sb: "po_sandbox po = fc_sandbox env cfg uuid ft loads machine on_path exists took used cost"
    and inst: "hands_out (po_sandbox po) (po_wakes po) (ew_pool (fab_exec fab)) h b" "live_machine h b" "can_end_machine env h b"
      "machine_carries ft python machine h code"
    and run: "fst (run_prog (python code) no_tools 0 (ew_tools (fab_exec fab))) = Ended out msg n"
      "in_time (python code) no_tools cost default_run_timeout None (ew_tools (fab_exec fab))"
      "machine_legible ft loads (python code) no_tools (ew_tools (fab_exec fab)) out msg n"
  shows "\<exists>used t' fab'.
    on_call_tool fr str_exc srv (fabrica_facade check po) access (u ''fabrica_run_skill'') (Some kwargs) (t, fab) =
      (Inr \<lparr>cr_text = json_dumps fr (asdict_run_result (told out msg n used)), cr_is_error = False\<rparr>, (t', fab')) \<and>
    ew_tools (fab_exec fab') = ew_tools (fab_exec fab) \<and> machine_ended h b (pw_backend (ew_pool (fab_exec fab')))"
proof -
  have "dict_get (fab_skills fab) (sf_name f) =
      Some \<lparr>sk_name = sf_name f, sk_description = sf_description f, sk_script = Some script, sk_dir = dir\<rparr>"
    using assms(1-3) fab(1) by (auto simp: sm_load_def Let_def map_of_dict_set split: sum.splits prod.splits)
  then have x: "asked_for po fab (u ''fabrica_run_skill'') kwargs agent =
      Some (skill_request (sf_name f) code agent (agent_scope agent) default_run_timeout None)" (is "_ = Some ?x")
    using fab(2) args(2,3) by (simp add: asked_for_requests skill_code_def)
  have fields: "xr_code ?x = code" "xr_action ?x = u ''skill_run:'' @ sf_name f" "xr_on_tool_call ?x = no_tools"
    by (simp_all add: skill_request_def)
  have ok: "allowed_call check srv access po fab (u ''fabrica_run_skill'') kwargs ?x c'"
    using x fields args(1,4) agent by (simp add: allowed_call_def del: u_simps)
  have r: "run_prog (python code) (xr_on_tool_call ?x) 0 (ew_tools (fab_exec fab)) = (Ended out msg n, ew_tools (fab_exec fab))"
    using run(1) no_tools_run [of "python code" 0 "ew_tools (fab_exec fab)"] unfolding fields by (metis prod.collapse)
  have c: "machine_carries ft python machine h (xr_code ?x) \<and> python code = python (xr_code ?x)" using inst(4) fields by simp
  from machine.answered [where fr = fr and str_exc = str_exc and t = t, OF ok sb _ conjI [OF inst(2,3)] c r] inst(1) run(2,3) sb
  show ?thesis unfolding fields by metis
qed

section \<open>What a run can do to the tools\<close>

text \<open>C8: code changes the tools only by calling them. Over any sequence of external calls on micro virtual machines,
  whatever runs in them: the names that are registered stay the same, the state of the tools at every point is reached
  from the first one by calls of registered namespaces under the names they were registered for, and a call other than
  \<^verbatim>\<open>fabrica_run_code\<close>, in particular the run of a skill, leaves it alone.\<close>

theorem tools_change_by_registered_calls:
  assumes "\<forall>k \<in> set ks. po_sandbox (ec_ports k) = fc_sandbox env cfg uuid ft loads machine on_path exists took used cost"
    and "(k, f, r, f') \<in> set (external_run fr str_exc srv api ks (t, fab))"
  shows "fab_tools f = fab_tools fab \<and>
    (tool_step (fab_tools fab))\<^sup>*\<^sup>* (ew_tools (fab_exec fab)) (ew_tools (fab_exec f)) \<and>
    (tool_step (fab_tools fab))\<^sup>*\<^sup>* (ew_tools (fab_exec f)) (ew_tools (fab_exec f')) \<and>
    (ec_name k \<noteq> u ''fabrica_run_code'' \<longrightarrow> ew_tools (fab_exec f') = ew_tools (fab_exec f))"
  using machine_gate.run_reaches [OF assms] .

section \<open>Calls to try the properties on\<close>

text \<open>A program that calls the echo tool once and prints, on a Fabrica where that tool is registered.\<close>

definition echo_prog :: prog where
  "echo_prog = CallTool 1 [101] [] (\<lambda>reply. Finish 1 (u ''hi'') [] None)"

definition echo_fabrica :: "'b pool_world \<Rightarrow> (keyword_state, keyword_state, nat rest_client client, 'b, unit,
    memory_state + pydict option persisted_memory, unit option, prompts + pydict option persisted_prompts) fabrica" where
  "echo_fabrica w =
     \<lparr>fab_retriever = new_retriever [] [], fab_tools = [([101], echo_namespace)], fab_skills = [],
      fab_exec = \<lparr>ew_client = Presidium (new_rest_client (u ''http://p/'') 0 5 30), ew_pool = w, ew_tools = ()\<rparr>,
      fab_memory = \<lparr>mm_working = new_working_memory default_quota_bytes, mm_long_term = Inl [], mm_compactor = None\<rparr>,
      fab_prompts = new_prompt_manager (Inl [])\<rparr>"

definition shim_world :: "pystr list pool_world" where
  "shim_world = \<lparr>pw_pool = new_pool 1 1 default_acquire_timeout, pw_backend = [], pw_refills = 0\<rparr>"

definition shim_handle :: "nat \<Rightarrow> handle" where "shim_handle tier = \<lparr>h_id = u ''0a1b2c3d'', h_tier = tier\<rparr>"

definition demo_srt :: srt_config where "demo_srt = new_srt_config no_network None None False (u ''11111111'')"

definition demo_machine :: handle where "demo_machine = \<lparr>h_id = u ''a'', h_tier = 2\<rparr>"

definition machine_world :: "fc_world pool_world" where
  "machine_world =
     \<lparr>pw_pool = (new_pool 1 1 default_acquire_timeout)\<lparr>pl_warm := [demo_machine]\<rparr>,
      pw_backend =
        \<lparr>fw_state = (bare_backend\<lparr>fb_instances := [(u ''a'', new_instance demo_fc_config True (u ''a''))]\<rparr>, bare_host\<lparr>fh_procs := {u ''a''}\<rparr>), fw_ids = 0\<rparr>,
      pw_refills = 0\<rparr>"

definition echo_reader :: "nat list \<Rightarrow> pyval result" where
  "echo_reader bytes =
     (if bytes = json_dumps (\<lambda>_. []) (result_message (u ''hi'') None 1) then Inr (result_message (u ''hi'') None 1)
      else Inr (tool_message [101] []))"

definition machine_sandbox :: "(pyval \<Rightarrow> vm) \<Rightarrow> (fc_world, unit) sandbox" where
  "machine_sandbox v =
     fc_sandbox (demo_fc_env (Inr (PDict []), True)) demo_fc_config (\<lambda>n. u ''b'') (\<lambda>_. []) echo_reader (\<lambda>i. v) (\<lambda>_. True)
       (\<lambda>_. True) 0 (1, 3, 5) (\<lambda>tool params t. 1)"

abbreviation demo_check :: "pystr \<Rightarrow> pystr \<Rightarrow> scope \<Rightarrow> nat rest_client client \<Rightarrow> grant result \<times> nat rest_client client" where
  "demo_check \<equiv> client_check (rest_check_grant allow_api 0 0)"

definition demo_client :: "nat \<Rightarrow> nat rest_client client" where
  "demo_client n = Presidium (new_rest_client (u ''http://p/'') n 5 30)"

definition echo_request :: "unit exec_request" where
  "echo_request = code_request [([101], echo_namespace)] [49] [97] (agent_scope [97]) default_run_timeout None"

lemma demo_allows:
  "demo_check [97] action (agent_scope [97]) (demo_client 0) =
     (Inr \<lparr>gr_decision = Allow, gr_reason = PNone, gr_approval_context = PNone\<rparr>, demo_client 1)"
  by (simp add: demo_client_def client_check_def allow_api_grants del: u_simps)

lemma demo_agent: "resolve_agent_id demo_server None = Inr [97]"
  by (simp add: resolve_agent_id_def demo_server_def)

lemma echo_allowed:
  "allowed_call demo_check demo_server None po (echo_fabrica w) (u ''fabrica_run_code'') [(u ''code'', PStr [49])] echo_request
     (demo_client 1)"
proof -
  have x: "asked_for po (echo_fabrica w) (u ''fabrica_run_code'') [(u ''code'', PStr [49])] [97] = Some echo_request"
    by (simp add: asked_for_requests echo_request_def echo_fabrica_def)
  have c: "ew_client (fab_exec (echo_fabrica w)) = demo_client 0" by (simp add: echo_fabrica_def demo_client_def)
  have e: "\<not> isl (utf8_encode (xr_code echo_request))"
    by (simp add: echo_request_def code_request_def utf8_encode_def is_surrogate_def)
  have "kwargs_ok [(u ''code'', PStr [49])]" by (simp add: kwargs_ok_def)
  with x c e show ?thesis by (simp add: allowed_call_def demo_agent demo_allows del: u_simps)
qed

lemma echo_answers:
  "tm_on_tool_call [([101], echo_namespace)] tool params t =
     (Inr (call_answer (if tool = [101] then \<lparr>tr_success = True, tr_value = PDict params, tr_error_message = None\<rparr>
        else failed_call (u ''unknown tool: '' @ tool))), t)"
  by (simp add: tm_on_tool_call_def echo_namespace_def dict_namespace_def dict_call_def echo_tools_def del: u_simps)

lemma echo_callback: "xr_on_tool_call echo_request = tm_on_tool_call [([101], echo_namespace)]"
  by (simp add: echo_request_def code_request_def)

lemma echo_runs:
  "run_prog echo_prog (xr_on_tool_call echo_request) 0 t = (Ended (u ''hi'') None 1, t)"
  "in_time echo_prog (xr_on_tool_call echo_request) (\<lambda>tool params t. 1) default_run_timeout None t"
  "prog_stderr echo_prog (xr_on_tool_call echo_request) t = []"
  by (simp_all add: echo_callback echo_answers echo_prog_def default_run_timeout_def del: u_simps)

lemma hi_encodes: "utf8_encode (u ''hi'') = Inr (u ''hi'')" "list_all (\<lambda>c. c \<le> 0x10FFFF) (u ''hi'')" "length (u ''hi'') \<le> 65536"
  by (simp_all add: utf8_encode_def is_surrogate_def utf8_char_def)

lemma shim_hands_out:
  assumes "sb_boot_clean sb [] = boot_tier (demo_shim_env p) tier []"
  shows "hands_out sb no_waits (ew_pool (fab_exec (echo_fabrica shim_world))) (shim_handle tier) []"
  using assms
  by (simp add: hands_out_def echo_fabrica_def shim_world_def new_pool_def try_acquire_def boot_tier_def demo_shim_env_def shim_handle_def)

lemma demo_starts: "starts_child (demo_shim_env p) wrapper ipc [49] w (guest_shim (\<lambda>e. []) p 0)" "removes_files (demo_shim_env p)"
  by (simp_all add: starts_child_def removes_files_def demo_shim_env_def utf8_encode_def is_surrogate_def del: u_simps)

lemma echo_code: "xr_code echo_request = [49]"
  by (simp add: echo_request_def code_request_def)

lemma external_program_answered_witness:
  "\<exists>used t' fab'.
    on_call_tool (\<lambda>_. []) (\<lambda>_. []) demo_server (fabrica_facade demo_check
        (demo_ports (shim_sandbox (demo_shim_env echo_prog) (demo_loads None 1) (\<lambda>tool params t. 1) (u ''/tmp'') None)))
      None (u ''fabrica_run_code'') (Some [(u ''code'', PStr [49])]) (null_tracer, echo_fabrica shim_world) =
    (Inr \<lparr>cr_text = json_dumps (\<lambda>_. []) (asdict_run_result (told (u ''hi'') None 1 used)), cr_is_error = False\<rparr>, (t', fab'))"
proof -
  let ?sb = "shim_sandbox (demo_shim_env echo_prog) (demo_loads None 1) (\<lambda>tool params t. 1) (u ''/tmp'') None"
  have p: "po_sandbox (demo_ports ?sb) = ?sb" "po_wakes (demo_ports ?sb) = no_waits" by (simp_all add: demo_ports_def)
  have h: "hands_out (po_sandbox (demo_ports ?sb)) (po_wakes (demo_ports ?sb)) (ew_pool (fab_exec (echo_fabrica shim_world))) (shim_handle 0) []"
    unfolding p by (rule shim_hands_out) (simp add: shim_sandbox_def subprocess_sandbox_def)
  have r: "shim_ready (demo_shim_env echo_prog) (u ''/tmp'') None (guest_shim (\<lambda>e. []) echo_prog 0) (shim_handle 0) (xr_code echo_request) []"
    by (simp add: shim_ready_def plain_ready_def demo_starts echo_code)
  have l: "child_legible (demo_loads None 1) echo_prog (xr_on_tool_call echo_request) t (u ''hi'') None 1" for t
    using hi_encodes by (simp add: child_legible_def echo_runs demo_loads_def del: u_simps json_dumps.simps)
  from external_program_answered [OF echo_allowed p(1) h r echo_runs(1,2) l] show ?thesis by blast
qed

lemma demo_srt_ready: "srt_ready (demo_shim_env p) cfg (guest_shim (\<lambda>e. []) p 0) h [49] w"
proof -
  have "\<exists>v. se_write_text (demo_shim_env p) path s w = (Inr (), v)" for path s by (simp add: demo_shim_env_def)
  then obtain v where "se_write_text (demo_shim_env p) (settings_path (sr_socket_dir cfg) (h_id h))
      (json_dumps (\<lambda>_. []) (srt_build_settings cfg (sock_path (sr_socket_dir cfg) (h_id h)))) w = (Inr (), v)" by blast
  then show ?thesis by (simp add: srt_ready_def Let_def demo_starts del: u_simps json_dumps.simps)
qed

lemma external_program_always_answered_witness:
  "\<exists>reply t' fab'.
    on_call_tool (\<lambda>_. []) (\<lambda>_. []) demo_server (fabrica_facade demo_check
        (demo_ports (shim_sandbox (demo_shim_env Forever) (demo_loads None 1) (\<lambda>tool params t. 1) [] (Some demo_srt))))
      None (u ''fabrica_run_code'') (Some [(u ''code'', PStr [49])]) (null_tracer, echo_fabrica shim_world) = (Inr reply, (t', fab'))"
proof -
  let ?sb = "shim_sandbox (demo_shim_env Forever) (demo_loads None 1) (\<lambda>tool params t. 1) [] (Some demo_srt)"
  have p: "po_sandbox (demo_ports ?sb) = ?sb" "po_wakes (demo_ports ?sb) = no_waits" by (simp_all add: demo_ports_def)
  have h: "hands_out (po_sandbox (demo_ports ?sb)) (po_wakes (demo_ports ?sb)) (ew_pool (fab_exec (echo_fabrica shim_world))) (shim_handle 1) []"
    unfolding p by (rule shim_hands_out) (simp add: shim_sandbox_def srt_sandbox_def)
  have r: "shim_ready (demo_shim_env Forever) [] (Some demo_srt) (guest_shim (\<lambda>e. []) Forever 0) (shim_handle 1) (xr_code echo_request) []"
    unfolding echo_code by (simp only: shim_ready_def option.simps demo_srt_ready)
  have ft: "fab_tools (echo_fabrica v) = [([101], echo_namespace)]" for v by (simp add: echo_fabrica_def)
  have "tool_namespace echo_namespace" unfolding echo_namespace_def by (rule dict_tools.tool_namespace_axioms)
  then have ns: "\<forall>ns \<in> set (dict_values (fab_tools (echo_fabrica shim_world))). tool_namespace ns" by (simp add: ft)
  have ok: "\<forall>tool params t e. fst (tm_on_tool_call (fab_tools (echo_fabrica shim_world)) tool params t) = Inl e \<longrightarrow> is_Exception e"
    by (simp add: ft echo_answers)
  have json: "\<forall>s e. demo_loads None 1 s = Inl e \<longrightarrow> exc_isa JSONDecodeError e" by (simp add: demo_loads_def exc_simps)
  from external_program_always_answered [OF echo_allowed p(1) h r ns ok json, where fr = "\<lambda>_. []" and str_exc = "\<lambda>_. []" and t = null_tracer]
  show ?thesis by blast
qed

lemma machine_hands_out: "hands_out sb no_waits (ew_pool (fab_exec (echo_fabrica machine_world))) demo_machine (pw_backend machine_world)"
  by (simp add: hands_out_def echo_fabrica_def machine_world_def new_pool_def try_acquire_def)

lemma machine_lives: "live_machine demo_machine (pw_backend machine_world)" "can_end_machine env demo_machine (pw_backend machine_world)"
  by (simp_all add: live_machine_def registered_machine_def can_end_machine_def machine_world_def demo_machine_def new_instance_def)

lemma machine_ports: "po_sandbox (demo_ports (machine_sandbox v)) = machine_sandbox v"
    "po_wakes (demo_ports (machine_sandbox v)) = no_waits"
  by (simp_all add: demo_ports_def)

lemma echo_machine_hands_out:
  "hands_out (po_sandbox (demo_ports (machine_sandbox v))) (po_wakes (demo_ports (machine_sandbox v)))
     (ew_pool (fab_exec (echo_fabrica machine_world))) demo_machine (pw_backend machine_world)"
  unfolding machine_ports(2) by (rule machine_hands_out)

text \<open>What Python does: the text of the call is the program that echoes, every other text loops.\<close>

definition echo_python :: "pystr \<Rightarrow> prog" where
  "echo_python code = (if code = [49] then echo_prog else Forever)"

lemma isolated_program_answered_witness:
  "\<exists>used t' fab'.
    on_call_tool (\<lambda>_. []) (\<lambda>_. []) demo_server (fabrica_facade demo_check (demo_ports (machine_sandbox (fc_main (\<lambda>_. []) echo_python))))
      None (u ''fabrica_run_code'') (Some [(u ''code'', PStr [49])]) (null_tracer, echo_fabrica machine_world) =
    (Inr \<lparr>cr_text = json_dumps (\<lambda>_. []) (asdict_run_result (told (u ''hi'') None 1 used)), cr_is_error = False\<rparr>, (t', fab')) \<and>
    machine_ended demo_machine (pw_backend machine_world) (pw_backend (ew_pool (fab_exec fab')))"
proof -
  have c: "machine_carries (\<lambda>_. []) echo_python (\<lambda>i. fc_main (\<lambda>_. []) echo_python) demo_machine (xr_code echo_request)"
    by (simp add: machine_carries_def echo_code json_str_def json_char_def)
  have p: "echo_python (xr_code echo_request) = echo_prog" by (simp add: echo_python_def echo_code)
  have l: "machine_legible (\<lambda>_. []) echo_reader echo_prog (xr_on_tool_call echo_request) t (u ''hi'') None 1" for t
    unfolding machine_legible_def hi_encodes(1) using hi_encodes(3)
    by (simp add: echo_prog_def echo_callback echo_answers echo_reader_def tool_message_def result_message_def reply_ok_def
        call_answer_def opt_val_def json_str_def json_char_def str_int_def dec.simps)
  from isolated_program_answered [where python = echo_python and fr = "\<lambda>_. []" and str_exc = "\<lambda>_. []" and t = null_tracer,
      OF echo_allowed machine_ports(1) [unfolded machine_sandbox_def] echo_machine_hands_out [unfolded machine_sandbox_def] machine_lives c echo_runs(1,2) [folded p] l [folded p]]
  show ?thesis unfolding machine_sandbox_def by blast
qed

lemma isolated_program_always_answered_witness:
  "\<exists>reply t' fab'.
    on_call_tool (\<lambda>_. []) (\<lambda>_. []) demo_server (fabrica_facade demo_check (demo_ports (machine_sandbox (\<lambda>code. Mute))))
      None (u ''fabrica_run_code'') (Some [(u ''code'', PStr [49])]) (null_tracer, echo_fabrica machine_world) = (Inr reply, (t', fab')) \<and>
    machine_ended demo_machine (pw_backend machine_world) (pw_backend (ew_pool (fab_exec fab')))"
proof -
  have c: "regular_calls echo_reader (tm_on_tool_call (fab_tools (echo_fabrica machine_world)))"
    by (simp add: regular_calls_def echo_reader_def echo_fabrica_def echo_answers del: u_simps)
  from isolated_program_always_answered [OF echo_allowed machine_ports(1) [unfolded machine_sandbox_def] echo_machine_hands_out [unfolded machine_sandbox_def]
      machine_lives c, where fr = "\<lambda>_. []" and str_exc = "\<lambda>_. []" and t = null_tracer]
  show ?thesis unfolding machine_sandbox_def by blast
qed

definition machine_call :: "(keyword_state, keyword_state, fc_world, unit, memory_state + pydict option persisted_memory, unit option,
    prompts + pydict option persisted_prompts) ext_call" where
  "machine_call =
     \<lparr>ec_now1 = 0, ec_now2 = 0, ec_ports = demo_ports (machine_sandbox (fc_main (\<lambda>_. []) echo_python)), ec_access = None,
      ec_name = u ''fabrica_run_code'', ec_args = Some [(u ''code'', PStr [49])]\<rparr>"

lemma tools_change_by_registered_calls_witness:
  "\<exists>r f'. (machine_call, echo_fabrica machine_world, r, f') \<in>
      set (external_run (\<lambda>_. []) (\<lambda>_. []) demo_server allow_api [machine_call] (null_tracer, echo_fabrica machine_world)) \<and>
    (tool_step [([101], echo_namespace)])\<^sup>*\<^sup>* () (ew_tools (fab_exec f'))"
proof -
  obtain r t f' where c: "external_call (\<lambda>_. []) (\<lambda>_. []) demo_server allow_api machine_call (null_tracer, echo_fabrica machine_world) =
      (r, (t, f'))" by (metis prod.exhaust)
  then have m: "(machine_call, echo_fabrica machine_world, r, f') \<in>
      set (external_run (\<lambda>_. []) (\<lambda>_. []) demo_server allow_api [machine_call] (null_tracer, echo_fabrica machine_world))" by simp
  have p: "\<forall>k \<in> set [machine_call]. po_sandbox (ec_ports k) = machine_sandbox (fc_main (\<lambda>_. []) echo_python)"
    by (simp add: machine_call_def machine_ports(1))
  from tools_change_by_registered_calls [OF p [unfolded machine_sandbox_def] m] m show ?thesis
    by (intro exI [of _ r] exI [of _ f']) (simp add: echo_fabrica_def)
qed

text \<open>A skill that is a script of one line, loaded from its SKILL.md.\<close>

definition script_yaml :: "pystr \<Rightarrow> pyval result" where
  "script_yaml doc = Inr (PDict [(u ''name'', PStr [97]), (u ''description'', PStr [98]), (u ''script'', PStr [115])])"

definition hi_reader :: "nat list \<Rightarrow> pyval result" where
  "hi_reader bytes = Inr (result_message (u ''hi'') None 0)"

definition hi_prog :: prog where "hi_prog = Finish 1 (u ''hi'') [] None"

definition hi_python :: "pystr \<Rightarrow> prog" where
  "hi_python code = (if code = u ''args = {}'' @ [10] then hi_prog else Forever)"

definition skill_sandbox :: "(fc_world, unit) sandbox" where
  "skill_sandbox =
     fc_sandbox (demo_fc_env (Inr (PDict []), True)) demo_fc_config (\<lambda>n. u ''b'') (\<lambda>_. []) hi_reader
       (\<lambda>i. fc_main (\<lambda>_. []) hi_python) (\<lambda>_. True) (\<lambda>_. True) 0 (1, 3, 5) (\<lambda>tool params t. 1)"

lemma loaded_skill_answered_witness:
  "\<exists>m' used t' fab'.
    sm_load (keyword_backend demo_bm25) (keyword_backend demo_bm25) script_yaml (Inr demo_skill_text) [100] demo_skill_manager =
      (Inr (), m') \<and>
    on_call_tool (\<lambda>_. []) (\<lambda>_. []) demo_server (fabrica_facade demo_check (demo_ports skill_sandbox)) None (u ''fabrica_run_skill'')
      (Some [(u ''name'', PStr [97])]) (null_tracer, (echo_fabrica machine_world)\<lparr>fab_skills := sm_skills m'\<rparr>) =
    (Inr \<lparr>cr_text = json_dumps (\<lambda>_. []) (asdict_run_result (told (u ''hi'') None 0 used)), cr_is_error = False\<rparr>, (t', fab'))"
proof -
  define f where "f = \<lparr>sf_name = [97], sf_description = [98], sf_script = Some [115], sf_eager = False\<rparr>"
  have p: "parse_skill script_yaml (Inr demo_skill_text) = Inr f"
    by (simp add: parse_skill_def demo_skill_text_def demo_frontmatter script_yaml_def dict_get_or_def field_checks_def
        max_description_length_def f_def name_matches_def plain_name_def alnum_char_def)
  obtain m' where l: "sm_load (keyword_backend demo_bm25) (keyword_backend demo_bm25) script_yaml (Inr demo_skill_text)
      [100] demo_skill_manager = (Inr (), m')"
    using p by (simp add: sm_load_def f_def make_indexable_def demo_skill_manager_def new_skill_manager_def
        demo_retriever_def new_retriever_def rt_register_def Let_def keyword_backend_def kw_add_def)
  let ?fab = "(echo_fabrica machine_world)\<lparr>fab_skills := sm_skills m'\<rparr>"
  let ?args = "dict_get_or [(u ''name'', PStr [97])] (u ''args'') (PDict [])"
  have code: "u ''args = {}'' @ [10] = u ''args = '' @ json_dumps (po_float_text (demo_ports skill_sandbox)) ?args @ [10] @ []"
    by (simp add: demo_ports_def dict_get_or_def)
  have kw: "kwargs_ok [(u ''name'', PStr [97])]" "dict_get [(u ''name'', PStr [97])] (u ''name'') = Some (PStr (sf_name f))"
    by (simp_all add: kwargs_ok_def f_def)
  have sc: "sf_script f = Some [115]" by (simp add: f_def)
  have po: "po_read_text (demo_ports skill_sandbox) [100] [115] = Inr []" "po_sandbox (demo_ports skill_sandbox) = skill_sandbox"
    "po_wakes (demo_ports skill_sandbox) = no_waits"
    by (simp_all add: demo_ports_def)
  have enc: "utf8_encode (u ''args = {}'' @ [10]) = Inr (u ''args = {}'' @ [10])"
    by (simp add: utf8_encode_def is_surrogate_def utf8_char_def)
  have agent: "demo_check [97] (u ''skill_run:'' @ sf_name f) (agent_scope [97]) (ew_client (fab_exec ?fab)) =
     (Inr \<lparr>gr_decision = Allow, gr_reason = PNone, gr_approval_context = PNone\<rparr>, demo_client 1)"
  proof -
    have "ew_client (fab_exec ?fab) = demo_client 0" by (simp add: echo_fabrica_def demo_client_def)
    then show ?thesis by (simp only: demo_allows)
  qed
  have inst: "hands_out (po_sandbox (demo_ports skill_sandbox)) (po_wakes (demo_ports skill_sandbox)) (ew_pool (fab_exec ?fab))
      demo_machine (pw_backend machine_world)"
    unfolding po(3) using machine_hands_out by simp
  have carries: "machine_carries (\<lambda>_. []) hi_python (\<lambda>i. fc_main (\<lambda>_. []) hi_python) demo_machine (u ''args = {}'' @ [10])"
    by (simp add: machine_carries_def json_str_def json_char_def)
  have run: "fst (run_prog hi_prog no_tools 0 t) = Ended (u ''hi'') None 0"
    "in_time hi_prog no_tools (\<lambda>tool params t. 1) default_run_timeout None t" for t
    by (simp_all add: hi_prog_def default_run_timeout_def)
  have legible: "machine_legible (\<lambda>_. []) hi_reader hi_prog no_tools t (u ''hi'') None 0" for t
    unfolding machine_legible_def hi_encodes(1) using hi_encodes(3)
    by (simp add: hi_prog_def hi_reader_def result_message_def opt_val_def json_str_def json_char_def str_int_def dec.simps)
  have python: "hi_python (u ''args = {}'' @ [10]) = hi_prog" by (simp add: hi_python_def)
  from loaded_skill_answered [where fr = "\<lambda>_. []" and str_exc = "\<lambda>_. []" and t = null_tracer and check = demo_check and fab = ?fab
      and machine = "\<lambda>i. fc_main (\<lambda>_. []) hi_python" and agent = "[97]" and python = hi_python and code = "u ''args = {}'' @ [10]"
      and ft = "\<lambda>_. []", unfolded python,
      OF l p sc _ po(1) kw code enc demo_agent agent _ trans [OF po(2) skill_sandbox_def] inst machine_lives carries run legible] l
  show ?thesis by (auto simp del: u_simps)
qed

end
