(* ===== verification/ServiceAnswers.thy ===== *)
theory ServiceAnswers
  imports EndToEnd
begin

text \<open>
  A service whose machines come up never runs out of them: the locale \<open>steady_sandbox\<close> adds to \<open>tidy_sandbox\<close> that a boot
  succeeds, and the pool then always has an instance to hand out between calls. The Firecracker backend interprets it
  on a host whose guests report that they are ready.
\<close>

section \<open>No slot is lost\<close>

locale steady_sandbox = tidy_sandbox sb sound issued alive took
  for sb :: "('b, 't) sandbox" and sound :: "'b \<Rightarrow> bool" and issued :: "'b \<Rightarrow> handle \<Rightarrow> bool" and alive :: "'b \<Rightarrow> handle \<Rightarrow> bool"
    and took :: real +
  assumes boots: "sound b \<Longrightarrow> \<exists>h b'. sb_boot_clean sb b = (took, (Inr h, b'))"
begin

text \<open>Between calls no slot is taken.\<close>

definition unused :: "int \<Rightarrow> int \<Rightarrow> 'b pool_world \<Rightarrow> bool" where
  "unused ws mc w \<longleftrightarrow> tidy ws {} w \<and> pl_concurrent_count (pw_pool w) = 0 \<and> pl_max_concurrent (pw_pool w) = mc"

lemma unused_boot:
  assumes "unused ws mc w"
  shows "\<exists>h b'. sb_boot_clean sb (pw_backend w) = (took, (Inr h, b'))"
  using assms boots by (auto simp: unused_def tidy_def)

lemma unused_hands_out:
  assumes "unused ws mc w" "0 < mc"
  shows "\<exists>h b. hands_out sb no_waits w h b \<and> alive b h \<and> sound b"
proof (cases "pl_warm (pw_pool w) \<noteq> []")
  case True
  with assms(1) have "alive (pw_backend w) (last (pl_warm (pw_pool w)))" "sound (pw_backend w)" by (auto simp: unused_def tidy_def)
  with True show ?thesis by (auto simp: hands_out_def try_acquire_def)
next
  case False
  obtain h b where b: "sb_boot_clean sb (pw_backend w) = (took, (Inr h, b))" using unused_boot [OF assms(1)] by blast
  from boot [OF _ b] assms(1) have "alive b h" "sound b" by (auto simp: unused_def tidy_def)
  with b False assms show ?thesis by (auto simp: hands_out_def try_acquire_def unused_def tidy_def)
qed

lemma unused_run:
  assumes u: "unused ws mc (ew_pool w)" and "0 < mc" "execute_outcome check sb no_waits x w = (rr, w')"
  shows "unused ws mc (ew_pool w')"
proof (cases "ew_pool w' = ew_pool w")
  case False
  have t: "tidy ws {} (ew_pool w')" using tidy_run [OF _ assms(3)] u by (simp add: unused_def)
  obtain rg w1 where g: "on_client (check (xr_agent_id x) (xr_action x) (xr_scope x)) w = (rg, w1)" by (metis prod.exhaust)
  then have same: "ew_pool w1 = ew_pool w" by (auto simp: on_client_def split: prod.splits)
  from assms(3) g False same have o: "sandboxed_outcome sb no_waits x w1 = (rr, w')"
    by (auto simp: execute_outcome_def split: sum.splits option.splits)
  obtain h b where "hands_out sb no_waits (ew_pool w1) h b" using unused_hands_out [OF u assms(2)] same by auto
  from hands_out_acquires [OF this] obtain warm d p where a: "acquire_loop sb [] 0 (ew_pool w1) = (Inr (h, warm, d), p)"
    and up: "pl_concurrent_count (pw_pool p) = 1" using u same by (auto simp: unused_def acquire_at_once)
  have mc: "pl_max_concurrent (pw_pool p) = mc"
    using a u same by (auto simp: unused_def acquire_loop.simps try_acquire_def cold_start_def on_backend_def
        split: if_splits prod.splits sum.splits)
  from tidy_acquire [OF _ a] u same have th: "tidy ws {h} p" by (simp add: unused_def)
  obtain re b' t' where e: "sb_execute sb h (xr_code x) (xr_on_tool_call x) (xr_timeout x) (xr_tool_call_timeout x)
      (pw_backend p, ew_tools w1) = (re, (b', t'))" by (metis prod.exhaust)
  obtain q p' where rel: "pl_release sb h (p\<lparr>pw_backend := b'\<rparr>) = (q, p')" by (metis prod.exhaust)
  from tidy_release [OF tidy_execute [OF th e] rel] have "q = Inr ()" by simp
  with rel up mc have "pl_concurrent_count (pw_pool p') = 0" "pl_max_concurrent (pw_pool p') = mc"
    by (auto simp: pl_release_def on_backend_def finish_release_def split: prod.splits sum.splits)
  with o a e rel \<open>q = Inr ()\<close> t show ?thesis by (auto simp: unused_def sandboxed_outcome_def run_and_release_def)
qed (use u in simp)

lemma unused_refill: "unused ws mc w \<Longrightarrow> unused ws mc (run_refill sb w)"
  using tidy_refill [of ws w]
  by (auto simp: unused_def run_refill_def on_backend_def put_fresh_def split: prod.splits sum.splits)

lemma prewarm_slots:
  "pl_concurrent_count (pw_pool (snd (boot_missing sb n w))) = pl_concurrent_count (pw_pool w) \<and>
   pl_max_concurrent (pw_pool (snd (boot_missing sb n w))) = pl_max_concurrent (pw_pool w)"
  by (induction n arbitrary: w) (auto simp: on_backend_def split: prod.split sum.split)

lemma unused_history:
  assumes "unused ws mc (ew_pool (fab_exec fab))" "0 < mc" "list_all (runs_on sb) evs"
    and "fold (service_step fr str_exc srv api sb) evs (t, fab) = (t', fab')"
  shows "unused ws mc (ew_pool (fab_exec fab'))"
  using assms(1,3,4)
proof (induction evs arbitrary: t fab)
  case (Cons ev evs)
  obtain t1 fab1 where s: "service_step fr str_exc srv api sb ev (t, fab) = (t1, fab1)" by (metis prod.exhaust)
  have "unused ws mc (ew_pool (fab_exec fab1))"
  proof (cases ev)
    case (Called k)
    obtain r t2 fab2 where c: "external_call fr str_exc srv api k (t, fab) = (r, (t2, fab2))" by (metis prod.exhaust)
    with s Called have f: "fab2 = fab1" by (simp add: service_step_def)
    have k: "po_sandbox (ec_ports k) = sb" "po_wakes (ec_ports k) = no_waits" using Cons.prems(2) Called by (simp_all add: runs_on_def)
    from external_request [OF c [unfolded external_call_def], unfolded k] Cons.prems(1) show ?thesis
      unfolding f by (auto dest: unused_run [OF _ assms(2)])
  next
    case Refilled
    with s Cons.prems(1) unused_refill show ?thesis by (auto simp: service_step_def)
  qed
  moreover from Cons.prems(3) s have "fold (service_step fr str_exc srv api sb) evs (t1, fab1) = (t', fab')" by simp
  ultimately show ?case using Cons.IH Cons.prems(2) by simp
qed simp

lemma service_hands_out:
  assumes "sound b" "\<forall>h. \<not> alive b h" "took \<le> 0 \<or> took \<le> tmo" "0 < mc"
    and start: "ew_pool (fab_exec fab) = \<lparr>pw_pool = new_pool ws mc tmo, pw_backend = b, pw_refills = 0\<rparr>"
    and evs: "list_all (runs_on sb) evs" "fold (service_step fr str_exc srv api sb) evs (t, prewarmed sb fab) = (t', fab')"
  shows "pl_concurrent_count (pw_pool (ew_pool (fab_exec fab'))) = 0 \<and>
    (\<exists>h b'. hands_out sb no_waits (ew_pool (fab_exec fab')) h b' \<and> alive b' h \<and> sound b')"
proof -
  have "tidy ws {} (ew_pool (fab_exec fab))" using assms(1-3) start by (simp add: tidy_def new_pool_def)
  from tidy_prewarm [OF this] start have "unused ws mc (ew_pool (fab_exec (prewarmed sb fab)))"
    by (simp add: unused_def prewarmed_def pl_prewarm_def prewarm_slots new_pool_def)
  from unused_history [OF this assms(4) evs] have u: "unused ws mc (ew_pool (fab_exec fab'))" .
  from unused_hands_out [OF u assms(4)] u show ?thesis by (simp add: unused_def)
qed

end

section \<open>Machines that come up\<close>

text \<open>The jail is staged, and the guest says that it is ready while its process runs.\<close>

definition brings_up :: "fc_env \<Rightarrow> bool" where
  "brings_up env \<longleftrightarrow>
     (\<forall>i. fst (fe_stage env i) \<and> snd (fe_ready env i) \<and>
        (case fst (fe_ready env i) of
           Inr (PDict d) \<Rightarrow> dict_get d (u ''type'') = Some (PStr (u ''ready''))
         | _ \<Rightarrow> False))"

lemma await_up:
  assumes "brings_up env"
  shows "await_ready env i undo h = (Inr (), h)"
proof -
  obtain d where "fst (fe_ready env i) = Inr (PDict d)" "dict_get d (u ''type'') = Some (PStr (u ''ready''))" "snd (fe_ready env i)"
    using assms [unfolded brings_up_def, THEN spec, of i] by (auto simp del: u_simps split: sum.splits pyval.splits)
  then show ?thesis by (simp add: await_ready_def Let_def del: u_simps)
qed

lemma start_up:
  assumes "env_ok env cfg" "brings_up env"
  shows "\<exists>h'. start_instance env cfg i inst requests h = (Inr (), h') \<and> i \<in> fh_procs h'"
  using start_instance_waits [of env inst i cfg requests h] await_up [OF assms(2)] assms(1)
  by (auto simp: env_ok_def started_host_def)

lemma cold_up:
  assumes "env_ok env cfg" "brings_up env"
  shows "\<exists>h'. cold_boot env cfg i (b, h) = (Inr \<lparr>h_id = i, h_tier = 2\<rparr>, (register_instance i (new_instance cfg True i) b, h')) \<and>
    i \<in> fh_procs h'"
proof -
  obtain h' where "start_instance env cfg i (new_instance cfg True i) (cold_requests cfg i) (add_file (fc_path cfg i ''-rootfs.ext4'') h) =
      (Inr (), h')" "i \<in> fh_procs h'" using start_up [OF assms] by blast
  moreover have "fe_copy env (fc_path cfg i ''-rootfs.ext4'') = None" using assms(1) by (simp add: env_ok_def)
  ultimately show ?thesis by (simp add: cold_boot_def Let_def)
qed

lemma golden_up:
  assumes "env_ok env cfg" "brings_up env"
  shows "\<exists>b' h'. ensure_golden_snapshot env cfg g (b, h) = (Inr (), (b', h')) \<and> fb_golden_snapshot b' \<noteq> None"
proof (cases "fb_golden_snapshot b")
  case None
  obtain h1 where c: "cold_boot env cfg g (b, h) = (Inr \<lparr>h_id = g, h_tier = 2\<rparr>, (register_instance g (new_instance cfg True g) b, h1))"
    "g \<in> fh_procs h1" using cold_up [OF assms] by blast
  let ?h2 = "unlink_files [fst (snapshot_paths cfg b), snd (snapshot_paths cfg b)] h1"
  have "\<forall>p. fe_curl env p = None" using assms(1) by (simp add: env_ok_def)
  from api_calls_ok [OF this] obtain cs where a: "api_calls env (in_api_sock (new_instance cfg True g)) (snapshot_requests (snapshot_paths cfg b))
      ?h2 = (Inr (), ?h2\<lparr>fh_calls := cs\<rparr>)" by blast
  have "g \<in> fh_procs (?h2\<lparr>fh_calls := cs\<rparr>)" using c(2) by (simp add: unlink_files_def)
  with None c(1) a show ?thesis
    by (auto simp: ensure_golden_snapshot_def Let_def kill_process_def add_file_def)
qed (auto simp: ensure_golden_snapshot_def)

lemma boot_up:
  assumes "env_ok env cfg" "brings_up env"
  shows "\<exists>s. fc_boot_clean env cfg g i (b, h) = (Inr \<lparr>h_id = i, h_tier = 2\<rparr>, s)"
proof -
  consider (jailed) "fc_jailer cfg" | (restored) "\<not> fc_jailer cfg" "fc_snapshot_restore cfg"
    | (cold) "\<not> fc_jailer cfg" "\<not> fc_snapshot_restore cfg" by blast
  then show ?thesis
  proof cases
    case jailed
    moreover have "fst (fe_stage env i)" using assms(2) by (simp add: brings_up_def)
    moreover have "fe_listen env p = None" "fe_spawn env i = None" for p using assms(1) by (simp_all add: env_ok_def)
    ultimately show ?thesis
      by (simp add: fc_boot_clean_def boot_jailed_def Let_def await_up [OF assms(2)] del: u_simps)
  next
    case restored
    obtain b' h' where g: "ensure_golden_snapshot env cfg g (b, h) = (Inr (), (b', h'))" "fb_golden_snapshot b' \<noteq> None"
      using golden_up [OF assms] by blast
    then obtain snap where snap: "fb_golden_snapshot b' = Some snap" by blast
    obtain h2 where "start_instance env cfg i (new_instance cfg False i) (restore_requests cfg i snap) h' = (Inr (), h2)"
      using start_up [OF assms] by blast
    with restored g(1) snap show ?thesis by (simp add: fc_boot_clean_def restore_instance_def Let_def)
  next
    case cold
    with cold_up [OF assms, of i b h] show ?thesis by (auto simp: fc_boot_clean_def)
  qed
qed

interpretation steady_machine: steady_sandbox "fc_sandbox env cfg uuid fr loads machine on_path exists took used cost"
    "\<lambda>w. fc_sound env cfg uuid base w \<and> brings_up env" "fc_issued uuid" fc_alive took
  for env cfg uuid fr loads machine on_path exists took used cost base
proof unfold_locales
  let ?sb = "fc_sandbox env cfg uuid fr loads machine on_path exists took used cost"
  show "d = took \<and> (fc_sound env cfg uuid base b' \<and> brings_up env) \<and> (\<forall>h. fc_issued uuid b h \<longrightarrow> fc_issued uuid b' h) \<and>
      (case r of
         Inl e \<Rightarrow> \<forall>h. fc_alive b' h \<longleftrightarrow> fc_alive b h
       | Inr h \<Rightarrow> \<not> fc_issued uuid b h \<and> fc_issued uuid b' h \<and> (\<forall>h'. fc_alive b' h' \<longleftrightarrow> h' = h \<or> fc_alive b h'))"
    if "fc_sound env cfg uuid base b \<and> brings_up env" "sb_boot_clean ?sb b = (d, (r, b'))" for b d r b'
    using tidy_machine.boot [OF conjunct1 [OF that(1)] that(2)] that(1) by simp
  show "(fc_sound env cfg uuid base b' \<and> brings_up env) \<and> (\<forall>h. fc_issued uuid b h \<longrightarrow> fc_issued uuid b' h) \<and>
      (\<forall>h. fc_alive b' h \<longleftrightarrow> fc_alive b h)"
    if "fc_sound env cfg uuid base b \<and> brings_up env" "sb_execute ?sb h code cb tmo limit (b, t) = (rr, (b', t'))"
    for b h code cb tmo limit t rr b' t'
    using tidy_machine.exec [OF conjunct1 [OF that(1)] that(2)] that(1) by simp
  show "x = Inr () \<and> (fc_sound env cfg uuid base b' \<and> brings_up env) \<and> (\<forall>h. fc_issued uuid b h \<longrightarrow> fc_issued uuid b' h) \<and>
      (\<forall>h'. fc_alive b' h' \<longleftrightarrow> fc_alive b h' \<and> h' \<noteq> h)"
    if "fc_sound env cfg uuid base b \<and> brings_up env" "fc_issued uuid b h" "sb_terminate ?sb h b = (x, b')" for b h x b'
    using tidy_machine.stop [OF conjunct1 [OF that(1)] that(2,3)] that(1) by simp
  show "\<exists>h b'. sb_boot_clean ?sb b = (took, (Inr h, b'))" if "fc_sound env cfg uuid base b \<and> brings_up env" for b
    using that boot_up [of env cfg "uuid (fw_ids b)" "uuid (fw_ids b + 1)" "fst (fw_state b)" "snd (fw_state b)"]
    by (auto simp: fc_sandbox_def fc_sound_def)
qed

section \<open>Every call of the service is answered\<close>

text \<open>C5: an isolated service answers every call it allows, for ever. On a host whose steps succeed and whose guests come
  up, with a new Firecracker backend behind an empty pool that allows at least one instance: after the warm boots and
  any sequence of MCP tool calls and refills, whatever ran in the machines so far and however it ended, no slot of the
  pool is taken, and the next allowed call that runs code is handed a machine that lives. It is answered, with the
  result as JSON or the text of the error that \<^verbatim>\<open>execute()\<close> makes of its code in that very machine; afterwards the slot is
  given back and the machine has ended with all it had on the host. The namespaces and the reading of JSON are to raise
  exceptions only. No history of failing, hanging or hostile programs uses the pool up.\<close>

theorem isolated_service_always_answers:
  assumes "inj uuid" "env_ok env cfg" "brings_up env" "new_fc_backend cfg golden_id = Inr b" "took \<le> 0 \<or> took \<le> tmo" "0 < mc"
    and sb: "sb = fc_sandbox env cfg uuid ft loads machine on_path exists took used cost"
    and start: "ew_pool (fab_exec fab) =
      \<lparr>pw_pool = new_pool ws mc tmo, pw_backend = \<lparr>fw_state = (b, base), fw_ids = 0\<rparr>, pw_refills = 0\<rparr>"
    and evs: "list_all (runs_on sb) evs" "fold (service_step fr str_exc srv api sb) evs (t, prewarmed sb fab) = (t', fab')"
    and call: "allowed_call check srv access po fab' name kwargs x c'" "po_sandbox po = sb" "po_wakes po = no_waits"
      "regular_calls loads (tm_on_tool_call (fab_tools fab'))"
  shows "pl_concurrent_count (pw_pool (ew_pool (fab_exec fab'))) = 0 \<and>
    (\<exists>h w rr reply t'' fab''. hands_out sb no_waits (ew_pool (fab_exec fab')) h w \<and> live_machine h w \<and>
      fc_execute ft loads used (machine (h_id h)) (xr_code x) (xr_on_tool_call x) cost default_run_timeout None
        (ew_tools (fab_exec fab')) = (rr, ew_tools (fab_exec fab'')) \<and>
      on_call_tool fr str_exc srv (fabrica_facade check po) access name (Some kwargs) (t', fab') = (Inr reply, (t'', fab'')) \<and>
      (case rr of
         Inl e \<Rightarrow> is_Exception e \<and> reply = \<lparr>cr_text = str_exc e, cr_is_error = True\<rparr>
       | Inr v \<Rightarrow> reply = \<lparr>cr_text = json_dumps fr (asdict_run_result v), cr_is_error = False\<rparr>) \<and>
      pl_concurrent_count (pw_pool (ew_pool (fab_exec fab''))) = 0 \<and>
      machine_ended h w (pw_backend (ew_pool (fab_exec fab''))))"
proof -
  have b: "fb_instances b = []" "accounted cfg base (b, base)" and jail: "\<not> (fc_jailer cfg \<and> fc_snapshot_restore cfg)"
    using assms(4) by (auto simp: new_fc_backend_def accounted_def holds_only_def confined_def split: if_splits)
  have sound: "fc_sound env cfg uuid base \<lparr>fw_state = (b, base), fw_ids = 0\<rparr> \<and> brings_up env"
    "\<forall>h. \<not> fc_alive \<lparr>fw_state = (b, base), fw_ids = 0\<rparr> h"
    using assms(1-3) jail b by (auto simp: fc_sound_def fc_alive_def registered_machine_def)
  from steady_machine.service_hands_out [OF sound assms(5,6) start evs [unfolded sb]] obtain h w where
    count: "pl_concurrent_count (pw_pool (ew_pool (fab_exec fab'))) = 0"
    and h: "hands_out sb no_waits (ew_pool (fab_exec fab')) h w" "fc_sound env cfg uuid base w" "registered_machine h w"
    unfolding sb by (auto simp: fc_alive_def)
  have live: "live_machine h w" "can_end_machine env h w" using sound_live [OF h(2)] sound_can_end [OF h(2)] h(3) by simp_all
  have regular: "regular_calls loads (xr_on_tool_call x)"
    using call(4) allowed_callback [OF call(1)] by (auto simp: regular_calls_def no_tools_def)
  have "hands_out (po_sandbox po) (po_wakes po) (ew_pool (fab_exec fab')) h w" unfolding call(2,3) by (rule h(1))
  from machine.always_answered [where fr = fr and str_exc = str_exc and t = t', OF call(1) call(2) [unfolded sb] _ conjI [OF live] regular]
    this call(2) obtain a reply t'' fab'' where
    r: "on_call_tool fr str_exc srv (fabrica_facade check po) access name (Some kwargs) (t', fab') = (Inr reply, (t'', fab''))"
    and a: "replied fr str_exc (fst a) = Inr reply" "ew_tools (fab_exec fab'') = snd a"
      "machine_runs_to ft loads machine used cost h (xr_code x) (xr_on_tool_call x) default_run_timeout None (ew_tools (fab_exec fab')) a"
    and after: "pl_concurrent_count (pw_pool (ew_pool (fab_exec fab''))) = pl_concurrent_count (pw_pool (ew_pool (fab_exec fab')))"
      "machine_ended h w (pw_backend (ew_pool (fab_exec fab'')))"
    unfolding sb by metis
  from a(2,3) have "fc_execute ft loads used (machine (h_id h)) (xr_code x) (xr_on_tool_call x) cost default_run_timeout None
      (ew_tools (fab_exec fab')) = (fst a, ew_tools (fab_exec fab''))" by (simp add: machine_runs_to_def)
  with h(1) live(1) r replied_cases [OF a(1)] after count show ?thesis
    by (intro conjI exI [of _ h] exI [of _ w] exI [of _ "fst a"] exI [of _ reply] exI [of _ t''] exI [of _ fab'']) simp_all
qed

lemma isolated_service_always_answers_witness:
  "\<exists>t fab h w reply t' fab'. fold (service_step (\<lambda>_. []) (\<lambda>_. []) demo_server allow_api life_sandbox) [Refilled]
      (null_tracer, prewarmed life_sandbox life_fabrica) = (t, fab) \<and>
    on_call_tool (\<lambda>_. []) (\<lambda>_. []) demo_server (fabrica_facade demo_check (demo_ports life_sandbox)) None (u ''fabrica_run_code'')
      (Some [(u ''code'', PStr [49])]) (t, fab) = (Inr reply, (t', fab')) \<and>
    live_machine h w \<and> machine_ended h w (pw_backend (ew_pool (fab_exec fab')))"
proof -
  obtain t fab where f: "fold (service_step (\<lambda>_. []) (\<lambda>_. []) demo_server allow_api life_sandbox) [Refilled]
      (null_tracer, prewarmed life_sandbox life_fabrica) = (t, fab)" by (metis prod.exhaust)
  have fab: "ew_client (fab_exec fab) = demo_client 0" "fab_tools fab = []"
    using f by (auto simp: service_step_def prewarmed_def life_fabrica_def demo_client_def simp del: u_simps)
  let ?x = "code_request [] [49] [97] (agent_scope [97]) default_run_timeout None"
  have "asked_for (demo_ports life_sandbox) fab (u ''fabrica_run_code'') [(u ''code'', PStr [49])] [97] = Some ?x"
    by (simp add: asked_for_requests fab)
  moreover have "\<not> isl (utf8_encode (xr_code ?x))" by (simp add: code_request_def utf8_encode_def is_surrogate_def)
  moreover have "kwargs_ok [(u ''code'', PStr [49])]" by (simp add: kwargs_ok_def)
  ultimately have call: "allowed_call demo_check demo_server None (demo_ports life_sandbox) fab (u ''fabrica_run_code'')
      [(u ''code'', PStr [49])] ?x (demo_client 1)"
    by (simp add: allowed_call_def demo_agent demo_allows fab del: u_simps)
  have ids: "inj (\<lambda>n. replicate n (97 :: nat))" by (auto simp: inj_def)
  have env: "env_ok (demo_fc_env (Inr (PDict [(u ''type'', PStr (u ''ready''))]), True)) demo_fc_config"
    "brings_up (demo_fc_env (Inr (PDict [(u ''type'', PStr (u ''ready''))]), True))"
    by (simp_all add: env_ok_def brings_up_def demo_fc_env_def)
  have new: "new_fc_backend demo_fc_config (u ''0'') = Inr bare_backend"
    by (simp add: new_fc_backend_def demo_fc_config_def bare_backend_def)
  have start: "ew_pool (fab_exec life_fabrica) =
      \<lparr>pw_pool = new_pool 1 1 5, pw_backend = \<lparr>fw_state = (bare_backend, bare_host), fw_ids = 0\<rparr>, pw_refills = 0\<rparr>"
    by (simp add: life_fabrica_def)
  have on: "list_all (runs_on life_sandbox) [Refilled]" by (simp add: runs_on_def)
  have sb: "po_sandbox (demo_ports life_sandbox) = life_sandbox" "po_wakes (demo_ports life_sandbox) = no_waits"
    by (simp_all add: demo_ports_def)
  have calls: "regular_calls (\<lambda>bytes :: nat list. Inr PNone) (tm_on_tool_call (fab_tools fab))"
    by (simp add: regular_calls_def fab tm_on_tool_call_def)
  from isolated_service_always_answers [OF ids env new _ _ life_sandbox_def start on f call sb calls] f show ?thesis by fastforce
qed

end
