(* ===== verification/WriteThrough.thy ===== *)
theory WriteThrough
  imports PromptManager
begin

text \<open>
  The persisted stores when operations overlap. A \<^verbatim>\<open>write()\<close>, \<^verbatim>\<open>forget()\<close>, \<^verbatim>\<open>put()\<close> or \<^verbatim>\<open>delete()\<close> changes the
  delegate and takes its snapshot without an await, then awaits the blob store's \<^verbatim>\<open>set\<close>; other tasks run until that
  returns. Nothing in \<^verbatim>\<open>memory/store.py\<close> or \<^verbatim>\<open>prompts/store.py\<close> orders the pending sets: here they finish, or fail,
  in any order. \<open>write_through\<close> is what the two stores have in common, and what holds for both follows from it.
\<close>

section \<open>Overlapping operations\<close>

text \<open>\<open>Begin c\<close>: the part of an operation up to its await. \<open>Finish i\<close>, \<open>Fail i\<close>: the pending set number \<open>i\<close>, the
  oldest first, takes effect and its operation returns, or has no effect and its operation raises.\<close>

datatype 'c ov_event = Begin 'c | Finish nat | Fail nat

record 'm overlap =
  ov_delegate :: 'm
  ov_held :: "pydict option"
  ov_pending :: "pydict list"

definition drop_nth :: "nat \<Rightarrow> 'a list \<Rightarrow> 'a list" where
  "drop_nth i xs = take i xs @ drop (Suc i) xs"

text \<open>\<open>act c m\<close>: whether the change goes on to be persisted, and the delegate after it.\<close>

fun ov_step :: "('c \<Rightarrow> 'm \<Rightarrow> bool \<times> 'm) \<Rightarrow> ('m \<Rightarrow> pydict) \<Rightarrow> 'c ov_event \<Rightarrow> 'm overlap \<Rightarrow> 'm overlap" where
  "ov_step act snap (Begin c) s =
     (case act c (ov_delegate s) of
        (goes_on, m) \<Rightarrow> s\<lparr>ov_delegate := m, ov_pending := ov_pending s @ (if goes_on then [snap m] else [])\<rparr>)"
| "ov_step act snap (Finish i) s =
     (if i < length (ov_pending s) then s\<lparr>ov_held := Some (ov_pending s ! i), ov_pending := drop_nth i (ov_pending s)\<rparr> else s)"
| "ov_step act snap (Fail i) s = s\<lparr>ov_pending := drop_nth i (ov_pending s)\<rparr>"

definition ov_run :: "('c \<Rightarrow> 'm \<Rightarrow> bool \<times> 'm) \<Rightarrow> ('m \<Rightarrow> pydict) \<Rightarrow> 'c ov_event list \<Rightarrow> 'm overlap \<Rightarrow> 'm overlap" where
  "ov_run act snap es s = fold (ov_step act snap) es s"

definition at_rest_with :: "'m \<Rightarrow> pydict option \<Rightarrow> 'm overlap" where
  "at_rest_with m h = \<lparr>ov_delegate = m, ov_held = h, ov_pending = []\<rparr>"

lemma at_rest_with_simps [simp]:
  "ov_delegate (at_rest_with m h) = m" "ov_held (at_rest_with m h) = h" "ov_pending (at_rest_with m h) = []"
  by (simp_all add: at_rest_with_def)

text \<open>The sets finish in the order they were asked for, and none fails.\<close>

fun in_order :: "'c ov_event \<Rightarrow> bool" where
  "in_order (Begin c) \<longleftrightarrow> True"
| "in_order (Finish i) \<longleftrightarrow> i = 0"
| "in_order (Fail i) \<longleftrightarrow> False"

fun begun_ok :: "('c \<Rightarrow> bool) \<Rightarrow> 'c ov_event \<Rightarrow> bool" where
  "begun_ok sound (Begin c) \<longleftrightarrow> sound c"
| "begun_ok sound (Finish i) \<longleftrightarrow> True"
| "begun_ok sound (Fail i) \<longleftrightarrow> True"

lemma ov_run_Nil [simp]: "ov_run act snap [] s = s"
  by (simp add: ov_run_def)

lemma ov_run_snoc [simp]: "ov_run act snap (es @ [e]) s = ov_step act snap e (ov_run act snap es s)"
  by (simp add: ov_run_def)

lemma set_drop_nth: "set (drop_nth i xs) \<subseteq> set xs"
  by (auto simp: drop_nth_def dest: in_set_takeD in_set_dropD)

lemma drop_nth_0 [simp]: "drop_nth 0 xs = tl xs"
  by (cases xs) (simp_all add: drop_nth_def)

text \<open>The delegate and what is held or on its way came from a state the delegate was in.\<close>

lemma held_is_past:
  assumes "ov_pending s = []"
  shows "(\<forall>v \<in> set (ov_pending (ov_run act snap es s)). \<exists>k \<le> length es. v = snap (ov_delegate (ov_run act snap (take k es) s))) \<and>
    (ov_held (ov_run act snap es s) = ov_held s \<or>
     (\<exists>k \<le> length es. ov_held (ov_run act snap es s) = Some (snap (ov_delegate (ov_run act snap (take k es) s)))))"
proof (induction es rule: rev_induct)
  case (snoc e es)
  let ?now = "ov_run act snap es s" and ?next = "ov_run act snap (es @ [e]) s"
  let ?past = "\<lambda>v. \<exists>k \<le> length (es @ [e]). v = snap (ov_delegate (ov_run act snap (take k (es @ [e])) s))"
  have old: "?past v" if "\<exists>k \<le> length es. v = snap (ov_delegate (ov_run act snap (take k es) s))" for v
  proof -
    from that obtain k where "k \<le> length es" "v = snap (ov_delegate (ov_run act snap (take k es) s))" by blast
    then show ?thesis by (intro exI [of _ k]) simp
  qed
  have this_one: "?past (snap (ov_delegate ?next))" by (intro exI [of _ "length (es @ [e])"]) simp
  have p: "\<forall>v \<in> set (ov_pending ?now). ?past v" using snoc.IH old by blast
  have h: "ov_held ?now = ov_held s \<or> (\<exists>v. ov_held ?now = Some v \<and> ?past v)" using snoc.IH old by blast
  have "(\<forall>v \<in> set (ov_pending ?next). ?past v) \<and> (ov_held ?next = ov_held s \<or> (\<exists>v. ov_held ?next = Some v \<and> ?past v))"
  proof (cases e)
    case (Begin c)
    then show ?thesis using p h this_one by (auto split: prod.splits)
  next
    case (Finish i)
    then show ?thesis using p h set_drop_nth [of i "ov_pending ?now"] by (auto simp del: take_append)
  next
    case (Fail i)
    then show ?thesis using p h set_drop_nth [of i "ov_pending ?now"] by (auto simp del: take_append)
  qed
  then show ?case by blast
qed (use assms in simp)

section \<open>What the stores have in common\<close>

locale write_through =
  fixes act :: "'c \<Rightarrow> 'm \<Rightarrow> bool \<times> 'm"
    and snap :: "'m \<Rightarrow> pydict"
    and reopen :: "pydict \<Rightarrow> unit result \<times> 'm"
    and good :: "'m \<Rightarrow> bool"
    and sound :: "'c \<Rightarrow> bool"
    and same :: "'m \<Rightarrow> 'm \<Rightarrow> bool"
  assumes act_good: "good m \<Longrightarrow> sound c \<Longrightarrow> good (snd (act c m))"
    and snap_reopen: "good m \<Longrightarrow> \<exists>m'. reopen (snap m) = (Inr (), m') \<and> same m' m"
    and refused: "act c m = (False, m') \<Longrightarrow> same m' m"
    and same_refl: "same m m"
    and same_sym: "same m m' \<Longrightarrow> same m' m"
    and same_trans: "same m m' \<Longrightarrow> same m' m'' \<Longrightarrow> same m m''"
begin

lemma run_good:
  "good m \<Longrightarrow> \<forall>e \<in> set es. begun_ok sound e \<Longrightarrow> good (ov_delegate (ov_run act snap es (at_rest_with m h)))"
proof (induction es rule: rev_induct)
  case (snoc e es)
  then show ?case by (cases e) (auto dest: act_good split: prod.splits)
qed simp

text \<open>Whatever is held can be reopened, as a state the delegate was in.\<close>

lemma never_torn:
  assumes "good m" and "\<forall>e \<in> set es. begun_ok sound e" and "h = Some (snap m)"
  shows "\<exists>k v m'. k \<le> length es \<and> ov_held (ov_run act snap es (at_rest_with m h)) = Some v \<and> reopen v = (Inr (), m') \<and>
    same m' (ov_delegate (ov_run act snap (take k es) (at_rest_with m h)))"
proof -
  let ?run = "\<lambda>k. ov_run act snap (take k es) (at_rest_with m h)"
  have "\<exists>k \<le> length es. ov_held (ov_run act snap es (at_rest_with m h)) = Some (snap (ov_delegate (?run k)))"
    using held_is_past [OF at_rest_with_simps(3), of act snap es m h, THEN conjunct2] assms(3)
  proof (elim disjE)
    assume "ov_held (ov_run act snap es (at_rest_with m h)) = ov_held (at_rest_with m h)"
    with assms(3) show ?thesis by (intro exI [of _ 0]) simp
  qed
  then obtain k where k: "k \<le> length es"
    "ov_held (ov_run act snap es (at_rest_with m h)) = Some (snap (ov_delegate (?run k)))" by blast
  have "good (ov_delegate (?run k))"
    by (rule run_good [OF assms(1)]) (use assms(2) in \<open>auto dest: in_set_takeD\<close>)
  from snap_reopen [OF this] k show ?thesis by blast
qed

lemma in_order_invariant:
  assumes "good m" and "\<forall>e \<in> set es. begun_ok sound e" and "\<forall>e \<in> set es. in_order e" and "h = Some (snap m)"
    and "s = ov_run act snap es (at_rest_with m h)"
  shows "\<exists>m'. (if ov_pending s = [] then ov_held s = Some (snap m') else last (ov_pending s) = snap m') \<and>
    good m' \<and> same m' (ov_delegate s)"
  using assms(2,3,5)
proof (induction es arbitrary: s rule: rev_induct)
  case Nil
  with assms(1,4) show ?case by (auto simp: same_refl)
next
  case (snoc e es)
  let ?s = "ov_run act snap es (at_rest_with m h)"
  from snoc.IH [of ?s] snoc.prems obtain m' where
    i: "if ov_pending ?s = [] then ov_held ?s = Some (snap m') else last (ov_pending ?s) = snap m'" "good m'" "same m' (ov_delegate ?s)"
    by auto
  have s: "s = ov_step act snap e ?s" using snoc.prems by simp
  have g: "good (ov_delegate ?s)" by (rule run_good [OF assms(1)]) (use snoc.prems in auto)
  show ?case
  proof (cases e)
    case (Begin c)
    obtain b n where a: "act c (ov_delegate ?s) = (b, n)" by (metis prod.exhaust)
    show ?thesis
    proof (cases b)
      case True
      with s Begin a act_good [OF g, of c] snoc.prems show ?thesis by (auto simp: same_refl)
    next
      case False
      with same_trans [OF i(3) same_sym [OF refused [of c "ov_delegate ?s" n]]] s Begin a i show ?thesis by auto
    qed
  next
    case (Finish j)
    with snoc.prems have "j = 0" by simp
    then show ?thesis using s Finish i by (cases "ov_pending ?s") (auto split: if_splits)
  next
    case (Fail j)
    with snoc.prems show ?thesis by simp
  qed
qed

lemma in_order_kept:
  assumes "good m" and "\<forall>e \<in> set es. begun_ok sound e" and "\<forall>e \<in> set es. in_order e" and "h = Some (snap m)"
    and "s = ov_run act snap es (at_rest_with m h)" and "ov_pending s = []"
  shows "\<exists>v m'. ov_held s = Some v \<and> reopen v = (Inr (), m') \<and> same m' (ov_delegate s)"
proof -
  from in_order_invariant [OF assms(1-5)] assms(6) obtain m1 where
    m: "ov_held s = Some (snap m1)" "good m1" "same m1 (ov_delegate s)" by auto
  from snap_reopen [OF m(2)] obtain m2 where "reopen (snap m1) = (Inr (), m2)" "same m2 m1" by blast
  with m same_trans show ?thesis by blast
qed

end

section \<open>The memory store\<close>

datatype mem_change = WriteItem pystr datetime scope memory_item | ForgetItem scope pystr

fun mem_act :: "mem_change \<Rightarrow> memory_state \<Rightarrow> bool \<times> memory_state" where
  "mem_act (WriteItem uuid now s x) m = (case ms_write uuid now s x m of (Inl e, m') \<Rightarrow> (False, m') | (Inr i, m') \<Rightarrow> (True, m'))"
| "mem_act (ForgetItem s i) m = (True, ms_forget s i m)"

fun mem_sound :: "mem_change \<Rightarrow> bool" where
  "mem_sound (WriteItem uuid now s x) \<longleftrightarrow> created_ok now x"
| "mem_sound (ForgetItem s i) \<longleftrightarrow> True"

definition same_items :: "memory_state \<Rightarrow> memory_state \<Rightarrow> bool" where
  "same_items m m' \<longleftrightarrow> (\<forall>k. ms_items m k = ms_items m' k)"

text \<open>An operation alone: its beginning, and its own set.\<close>

lemma write_is_begin_finish:
  "pm_write dict_blob uuid now s x \<lparr>pm_blob = h, pm_delegate = m\<rparr> =
   (let s' = ov_run mem_act memory_snapshot [Begin (WriteItem uuid now s x), Finish 0] (at_rest_with m h) in
    (fst (ms_write uuid now s x m), \<lparr>pm_blob = ov_held s', pm_delegate = ov_delegate s'\<rparr>))"
  by (simp add: pm_write_def pm_persist_def dict_blob_def ov_run_def ms_write_def Let_def drop_nth_def)

lemma forget_is_begin_finish:
  "pm_forget dict_blob s i \<lparr>pm_blob = h, pm_delegate = m\<rparr> =
   (let s' = ov_run mem_act memory_snapshot [Begin (ForgetItem s i), Finish 0] (at_rest_with m h) in
    (Inr (), \<lparr>pm_blob = ov_held s', pm_delegate = ov_delegate s'\<rparr>))"
  by (simp add: pm_forget_def pm_persist_def dict_blob_def ov_run_def Let_def drop_nth_def)

interpretation mem: write_through mem_act memory_snapshot "\<lambda>v. restore_memory_snapshot v []" memory_ok mem_sound same_items
proof
  fix m c assume "memory_ok m" "mem_sound c"
  then show "memory_ok (snd (mem_act c m))"
    by (cases c) (auto simp: memory_ok_forget dest: ms_write_ok split: prod.splits sum.splits, (metis snd_conv ms_write_ok)+)
next
  fix m assume "memory_ok m"
  then show "\<exists>m'. restore_memory_snapshot (memory_snapshot m) [] = (Inr (), m') \<and> same_items m' m"
    by (simp add: restore_snapshot same_items_def ms_items_filter memory_ok_def)
next
  fix c m m' assume "mem_act c m = (False, m')"
  then show "same_items m' m" by (cases c) (auto simp: ms_write_def Let_def)
qed (auto simp: same_items_def)

text \<open>A store reopened on what is held answers as \<open>m\<close> does.\<close>

definition reopens_as :: "pydict option \<Rightarrow> memory_state \<Rightarrow> bool" where
  "reopens_as h m \<longleftrightarrow>
     (\<forall>(bl :: unit blob_store). bl_get bl () = (Inr h, ()) \<longrightarrow>
        (\<exists>p. pm_create bl () = (Inr p, ()) \<and> (\<forall>s j. pm_get s j p = ms_get s j m) \<and>
             (\<forall>bm25 s q n. pm_search bm25 s q n p = ms_search bm25 s q n m)))"

lemma reopens_asI:
  assumes "restore_memory_snapshot v [] = (Inr (), m')" "same_items m' m"
  shows "reopens_as (Some v) m"
proof -
  have i: "ms_items m' k = ms_items m k" for k using assms(2) unfolding same_items_def by blast
  then have "ms_get s j m' = ms_get s j m" "ms_search bm25 s q n m' = ms_search bm25 s q n m" for s j bm25 q n
    by (simp add: ms_get_def) (rule ms_search_items, rule i)
  with assms(1) show ?thesis by (auto simp: reopens_as_def pm_create_def pm_get_def pm_search_def)
qed

text \<open>C20: overlapping memory operations lose nothing when the state store finishes its sets in the order it was asked.
  However the operations interleave, once all have returned a store created anew on what the state store holds
  answers every get and every search like the running one.\<close>

theorem overlap_restart:
  assumes "memory_ok m" and "\<forall>e \<in> set es. begun_ok mem_sound e" and "\<forall>e \<in> set es. in_order e"
    and "s = ov_run mem_act memory_snapshot es (at_rest_with m (Some (memory_snapshot m)))" and "ov_pending s = []"
  shows "reopens_as (ov_held s) (ov_delegate s)"
  using mem.in_order_kept [OF assms(1-3) refl assms(4,5)] reopens_asI by auto

text \<open>C21: what the state store holds is never torn. In whatever order its sets finish, and whichever of them fail, a
  store created anew on it, now or after a crash, answers like the running one did at some moment.\<close>

theorem overlap_never_torn:
  assumes "memory_ok m" and "\<forall>e \<in> set es. begun_ok mem_sound e"
  shows "\<exists>k \<le> length es.
    reopens_as (ov_held (ov_run mem_act memory_snapshot es (at_rest_with m (Some (memory_snapshot m)))))
      (ov_delegate (ov_run mem_act memory_snapshot (take k es) (at_rest_with m (Some (memory_snapshot m)))))"
  using mem.never_torn [OF assms refl] reopens_asI by fastforce

text \<open>C22: a write that has returned can be lost. When the set of an earlier write finishes after that of a later one,
  both have returned and the running store has both items, but a store created anew has no trace of the later
  one.\<close>

theorem late_set_loses_write:
  assumes "memory_ok m" and "created_ok now x"
    and "s = ov_run mem_act memory_snapshot [Begin (WriteItem uuid now sc x), Begin (WriteItem uuid' now' sc' x'), Finish 1, Finish 0]
           (at_rest_with m (Some (memory_snapshot m)))"
    and "fst (ms_write uuid now sc x m) = Inr i" and "fst (ms_write uuid' now' sc' x' m) = Inr j"
    and "ms_get sc' j m = None" and "i \<noteq> j"
  shows "ov_pending s = [] \<and> ms_get sc' j (ov_delegate s) = Some (stored_item uuid' now' x') \<and>
    reopens_as (ov_held s) (snd (ms_write uuid now sc x m)) \<and> ms_get sc' j (snd (ms_write uuid now sc x m)) = None"
proof -
  have j: "j = the (mi_id (stored_item uuid' now' x'))" and i: "i = the (mi_id (stored_item uuid now x))"
    using assms(4,5) by (simp_all add: ms_write_def Let_def)
  have s: "s = at_rest_with (snd (ms_write uuid' now' sc' x' (snd (ms_write uuid now sc x m))))
      (Some (memory_snapshot (snd (ms_write uuid now sc x m))))"
    unfolding assms(3) by (simp add: ov_run_def ms_write_def Let_def drop_nth_def at_rest_with_def)
  have "memory_ok (snd (ms_write uuid now sc x m))" using assms(1,2) by (rule ms_write_ok)
  from mem.snap_reopen [OF this] reopens_asI have "reopens_as (ov_held s) (snd (ms_write uuid now sc x m))" by (auto simp: s)
  moreover have "ms_get sc' j (snd (ms_write uuid now sc x m)) = None" using assms(6,7) i by (simp add: ms_get_write)
  ultimately show ?thesis by (simp add: s ms_get_write j)
qed

section \<open>The prompt store\<close>

datatype prompt_change =
    PutPrompt datetime pystr pystr "pydict option" bool pyval
  | DeletePrompt pystr "int option"

text \<open>A put that is refused raises before anything is persisted.\<close>

fun prompt_act :: "prompt_change \<Rightarrow> prompts \<Rightarrow> bool \<times> prompts" where
  "prompt_act (PutPrompt now n c md ca bd) st =
     (case ps_put now n c md ca bd st of (Inl e, st') \<Rightarrow> (False, st') | (Inr t, st') \<Rightarrow> (True, st'))"
| "prompt_act (DeletePrompt n v) st = (True, ps_delete n v st)"

fun prompt_sound :: "prompt_change \<Rightarrow> bool" where
  "prompt_sound (PutPrompt now n c md ca bd) \<longleftrightarrow> datetime_ok now"
| "prompt_sound (DeletePrompt n v) \<longleftrightarrow> True"

definition same_versions :: "prompts \<Rightarrow> prompts \<Rightarrow> bool" where
  "same_versions st st' \<longleftrightarrow> (\<forall>n. versions_of st n = versions_of st' n)"

interpretation prm: write_through prompt_act prompt_snapshot "\<lambda>v. restore_prompt_snapshot v []" prompts_ok prompt_sound same_versions
proof
  fix st c assume "prompts_ok st" "prompt_sound c"
  then show "prompts_ok (snd (prompt_act c st))"
    by (cases c) (auto simp: prompts_ok_delete split: prod.splits sum.splits dest: prompts_ok_put)
next
  fix st assume "prompts_ok st"
  then show "\<exists>st'. restore_prompt_snapshot (prompt_snapshot st) [] = (Inr (), st') \<and> same_versions st' st"
    by (simp add: restore_prompts same_versions_def versions_of_filter prompts_ok_def)
next
  fix c st st' assume "prompt_act c st = (False, st')"
  then show "same_versions st' st"
    by (cases c) (auto simp: same_versions_def ps_put_Inl split: prod.splits sum.splits)
qed (auto simp: same_versions_def)

section \<open>The cache of the prompt manager\<close>

text \<open>What is left of an operation of the manager when its set returns, and the manager among its tasks. A get
  awaits nothing that suspends.\<close>

datatype prompt_tail = PutTail pystr template | DeleteTail pystr

record managed =
  mg_manager :: "pydict option persisted_prompts prompt_manager"
  mg_pending :: "(pydict \<times> prompt_tail) list"

definition finish_tail :: "prompt_tail \<Rightarrow> cache \<Rightarrow> cache" where
  "finish_tail tail c =
     (case tail of
        PutTail n t \<Rightarrow> dict_set (n, Some (pt_version t)) t (dict_pop (n, None) c)
      | DeleteTail n \<Rightarrow> filter (\<lambda>(k, _). fst k \<noteq> n) c)"

definition begin_change :: "prompts \<Rightarrow> prompt_tail option \<Rightarrow> managed \<Rightarrow> managed" where
  "begin_change st tail s =
     s\<lparr>mg_manager := (mg_manager s)\<lparr>pg_store := (pg_store (mg_manager s))\<lparr>pp_delegate := st\<rparr>\<rparr>,
       mg_pending := mg_pending s @ (case tail of None \<Rightarrow> [] | Some x \<Rightarrow> [(prompt_snapshot st, x)])\<rparr>"

datatype mg_event = GetEvent datetime pystr "int option" | ChangeEvent prompt_change | FinishEvent nat

fun mg_step :: "mg_event \<Rightarrow> managed \<Rightarrow> managed" where
  "mg_step (GetEvent now n v) s =
     s\<lparr>mg_manager := snd (cached_lookup (persisted_prompt_api dict_blob now) n v (mg_manager s))\<rparr>"
| "mg_step (ChangeEvent (PutPrompt now n c md ca bd)) s =
     (case ps_put now n c md ca bd (pp_delegate (pg_store (mg_manager s))) of
        (Inl e, st) \<Rightarrow> begin_change st None s
      | (Inr t, st) \<Rightarrow> begin_change st (Some (PutTail n t)) s)"
| "mg_step (ChangeEvent (DeletePrompt n v)) s =
     begin_change (ps_delete n v (pp_delegate (pg_store (mg_manager s)))) (Some (DeleteTail n)) s"
| "mg_step (FinishEvent i) s =
     (if i < length (mg_pending s) then
        s\<lparr>mg_manager := \<lparr>pg_store = (pg_store (mg_manager s))\<lparr>pp_blob := Some (fst (mg_pending s ! i))\<rparr>,
                         pg_cache = finish_tail (snd (mg_pending s ! i)) (pg_cache (mg_manager s))\<rparr>,
          mg_pending := drop_nth i (mg_pending s)\<rparr>
      else s)"

definition mg_run :: "mg_event list \<Rightarrow> managed \<Rightarrow> managed" where
  "mg_run es s = fold mg_step es s"

fun in_turn :: "mg_event \<Rightarrow> bool" where
  "in_turn (FinishEvent i) \<longleftrightarrow> i = 0"
| "in_turn (GetEvent now n v) \<longleftrightarrow> True"
| "in_turn (ChangeEvent c) \<longleftrightarrow> True"

text \<open>An operation of the manager alone is its beginning and its own end.\<close>

lemma put_is_begin_finish:
  "snd (store_and_cache (persisted_prompt_api dict_blob now) n c md ca bd g) =
   mg_manager (mg_run [ChangeEvent (PutPrompt now n c md ca bd), FinishEvent 0] \<lparr>mg_manager = g, mg_pending = []\<rparr>)"
  by (simp add: store_and_cache_def persisted_prompt_api_def pp_put_def pp_persist_def dict_blob_def mg_run_def
      begin_change_def finish_tail_def split: prod.split sum.split)

lemma delete_is_begin_finish:
  "snd (pg_delete (persisted_prompt_api dict_blob now) n v g) =
   mg_manager (mg_run [ChangeEvent (DeletePrompt n v), FinishEvent 0] \<lparr>mg_manager = g, mg_pending = []\<rparr>)"
  by (simp add: pg_delete_def persisted_prompt_api_def pp_delete_def pp_persist_def dict_blob_def mg_run_def
      begin_change_def finish_tail_def)

text \<open>Cached entries are what the delegate answers, unless an operation on their name is still to end that will drop
  them; and a template that is still to be cached is the delegate's, unless a later delete will drop it.\<close>

definition excused :: "pystr \<Rightarrow> int option \<Rightarrow> prompt_tail set \<Rightarrow> bool" where
  "excused n v tails \<longleftrightarrow> DeleteTail n \<in> tails \<or> v = None \<and> (\<exists>t. PutTail n t \<in> tails)"

fun tails_ok :: "prompts \<Rightarrow> prompt_tail list \<Rightarrow> bool" where
  "tails_ok st [] \<longleftrightarrow> True"
| "tails_ok st (PutTail n t # tails) \<longleftrightarrow>
     (ps_get n (Some (pt_version t)) st = Some t \<or> DeleteTail n \<in> set tails) \<and> tails_ok st tails"
| "tails_ok st (DeleteTail n # tails) \<longleftrightarrow> tails_ok st tails"

definition mg_inv :: "managed \<Rightarrow> bool" where
  "mg_inv s \<longleftrightarrow>
     (\<forall>n v t. dict_get (pg_cache (mg_manager s)) (n, v) = Some t \<longrightarrow>
        ps_get n v (pp_delegate (pg_store (mg_manager s))) = Some t \<or> excused n v (set (map snd (mg_pending s)))) \<and>
     tails_ok (pp_delegate (pg_store (mg_manager s))) (map snd (mg_pending s))"

lemma tails_ok_put:
  "tails_ok st tails \<Longrightarrow> ps_put now n c md ca bd st = (Inr t, st') \<Longrightarrow> tails_ok st' (tails @ [PutTail n t])"
proof (induction tails)
  case Nil
  then show ?case using in_memory_prompts.put_get [of now n c md ca bd st t st' n "Some (pt_version t)"] by simp
next
  case (Cons x tails)
  note get = in_memory_prompts.put_get [OF Cons.prems(2)] and new = in_memory_prompts.put_new [OF Cons.prems(2)]
  show ?case
  proof (cases x)
    case (PutTail n' t')
    with Cons get [of n' "Some (pt_version t')"] new show ?thesis by auto
  qed (use Cons in simp)
qed

lemma tails_ok_delete: "tails_ok st tails \<Longrightarrow> tails_ok (ps_delete n v st) (tails @ [DeleteTail n])"
proof (induction tails)
  case (Cons x tails)
  show ?case
  proof (cases x)
    case (PutTail n' t')
    with Cons in_memory_prompts.delete_other [of n v st "ps_delete n v st" n'] show ?thesis by (cases "n' = n") auto
  qed (use Cons in simp)
qed simp

lemma tails_ok_same: "tails_ok st tails \<Longrightarrow> (\<And>n v. ps_get n v st' = ps_get n v st) \<Longrightarrow> tails_ok st' tails"
  by (induction st tails rule: tails_ok.induct) auto

lemma excused_mono: "excused n v A \<Longrightarrow> A \<subseteq> B \<Longrightarrow> excused n v B"
  by (auto simp: excused_def)

lemma mg_inv_change:
  assumes "mg_inv s" and "tails_ok st' (map snd (mg_pending s) @ (case tail of None \<Rightarrow> [] | Some x \<Rightarrow> [x]))"
    and "\<And>n v. ps_get n v st' = ps_get n v (pp_delegate (pg_store (mg_manager s))) \<or>
           ps_get n v (pp_delegate (pg_store (mg_manager s))) = None \<or> (\<exists>x. tail = Some x \<and> excused n v {x})"
  shows "mg_inv (begin_change st' tail s)"
  unfolding mg_inv_def
proof (intro conjI allI impI)
  fix n v t
  assume c: "dict_get (pg_cache (mg_manager (begin_change st' tail s))) (n, v) = Some t"
  let ?st = "pp_delegate (pg_store (mg_manager s))"
  have p: "set (map snd (mg_pending (begin_change st' tail s))) = set (map snd (mg_pending s)) \<union> set_option tail"
    by (auto simp: begin_change_def split: option.splits)
  from c assms(1) have "ps_get n v ?st = Some t \<or> excused n v (set (map snd (mg_pending s)))"
    by (auto simp: mg_inv_def begin_change_def)
  then show "ps_get n v (pp_delegate (pg_store (mg_manager (begin_change st' tail s)))) = Some t \<or>
      excused n v (set (map snd (mg_pending (begin_change st' tail s))))"
  proof
    assume "excused n v (set (map snd (mg_pending s)))"
    then show ?thesis unfolding p by (auto intro: excused_mono)
  next
    assume g: "ps_get n v ?st = Some t"
    with assms(3) [of n v] show ?thesis
      unfolding p by (auto simp: begin_change_def intro: excused_mono)
  qed
next
  show "tails_ok (pp_delegate (pg_store (mg_manager (begin_change st' tail s)))) (map snd (mg_pending (begin_change st' tail s)))"
    using assms(2) by (auto simp: begin_change_def split: option.splits)
qed

lemma mg_inv_finish:
  assumes "mg_inv s" and "mg_pending s = (b, tail) # rest"
  shows "mg_inv (mg_step (FinishEvent 0) s)"
proof -
  let ?st = "pp_delegate (pg_store (mg_manager s))" and ?c = "pg_cache (mg_manager s)"
  have old: "ps_get n v ?st = Some t \<or> excused n v (insert tail (set (map snd rest)))"
    if "dict_get ?c (n, v) = Some t" for n v t using assms that by (auto simp: mg_inv_def)
  have "ps_get n v ?st = Some t \<or> excused n v (set (map snd rest))" if h: "dict_get (finish_tail tail ?c) (n, v) = Some t" for n v t
  proof (cases tail)
    case (PutTail n' t')
    show ?thesis
    proof (cases "(n, v) = (n', Some (pt_version t'))")
      case True
      with h PutTail have "t = t'" by (simp add: finish_tail_def map_of_dict_set)
      with True assms PutTail show ?thesis by (auto simp: mg_inv_def excused_def)
    next
      case False
      with h PutTail have "dict_get ?c (n, v) = Some t" "(n, v) \<noteq> (n', None)"
        by (auto simp: finish_tail_def map_of_dict_set map_of_dict_pop split: if_splits)
      with old PutTail show ?thesis by (fastforce simp: excused_def)
    qed
  next
    case (DeleteTail n')
    with h have "dict_get ?c (n, v) = Some t" "n \<noteq> n'" by (auto simp: finish_tail_def map_of_filter_key split: if_splits)
    with old DeleteTail show ?thesis by (fastforce simp: excused_def)
  qed
  moreover have "tails_ok ?st (map snd rest)" using assms by (cases tail) (auto simp: mg_inv_def)
  ultimately show ?thesis using assms(2) by (simp add: mg_inv_def)
qed

lemma mg_inv_step:
  assumes "mg_inv s" and "in_turn e"
  shows "mg_inv (mg_step e s)"
proof (cases e)
  case (GetEvent now n v)
  then show ?thesis using assms(1)
    by (auto simp: mg_inv_def cached_lookup_def persisted_prompt_api_def pp_get_def map_of_dict_set split: option.split)
next
  case (ChangeEvent ch)
  let ?st = "pp_delegate (pg_store (mg_manager s))"
  have ok: "tails_ok ?st (map snd (mg_pending s))" using assms(1) by (simp add: mg_inv_def)
  show ?thesis
  proof (cases ch)
    case (PutPrompt now n c md ca bd)
    obtain r st where put: "ps_put now n c md ca bd ?st = (r, st)" by (metis prod.exhaust)
    show ?thesis
    proof (cases r)
      case (Inl err)
      with put have same: "ps_get n' v st = ps_get n' v ?st" for n' v using in_memory_prompts.put_fails by blast
      have "mg_inv (begin_change st None s)"
        by (rule mg_inv_change [OF assms(1)]) (simp_all add: same tails_ok_same [OF ok same])
      with ChangeEvent PutPrompt put Inl show ?thesis by simp
    next
      case (Inr t)
      note p = put [unfolded Inr]
      have "mg_inv (begin_change st (Some (PutTail n t)) s)"
        by (rule mg_inv_change [OF assms(1)])
          (use tails_ok_put [OF ok p] in_memory_prompts.put_get [OF p] in_memory_prompts.put_new [OF p] in \<open>auto simp: excused_def\<close>)
      with ChangeEvent PutPrompt put Inr show ?thesis by simp
    qed
  next
    case (DeletePrompt n v)
    have "mg_inv (begin_change (ps_delete n v ?st) (Some (DeleteTail n)) s)"
      by (rule mg_inv_change [OF assms(1)])
        (use tails_ok_delete [OF ok] in_memory_prompts.delete_other [of n v ?st "ps_delete n v ?st"] in \<open>auto simp: excused_def\<close>)
    with ChangeEvent DeletePrompt show ?thesis by simp
  qed
next
  case (FinishEvent i)
  with assms(2) have "i = 0" by simp
  then show ?thesis using FinishEvent assms(1) mg_inv_finish [OF assms(1)] by (cases "mg_pending s") auto
qed

lemma mg_inv_run: "mg_inv s \<Longrightarrow> \<forall>e \<in> set es. in_turn e \<Longrightarrow> mg_inv (mg_run es s)"
  unfolding mg_run_def by (induction es arbitrary: s) (simp_all add: mg_inv_step)

text \<open>C23: overlapping prompt operations leave the cache right when the sets finish in order. However gets, puts and
  deletes, refused puts among them, interleave: when none is under way a get answers what the store answers.\<close>

theorem overlap_cache_coherent:
  assumes "\<forall>e \<in> set es. in_turn e" and "s = mg_run es \<lparr>mg_manager = new_prompt_manager p, mg_pending = []\<rparr>" and "mg_pending s = []"
  shows "fst (cached_lookup (persisted_prompt_api bl now) n v (mg_manager s)) = pp_get n v (pg_store (mg_manager s))"
proof -
  have "mg_inv \<lparr>mg_manager = new_prompt_manager p, mg_pending = []\<rparr>" by (simp add: mg_inv_def new_prompt_manager_def)
  from mg_inv_run [OF this assms(1)] assms(2,3) show ?thesis
    by (auto simp: mg_inv_def excused_def cached_lookup_def persisted_prompt_api_def pp_get_def split: option.split)
qed

text \<open>Out of order it is not: a put whose set ends after that of a delete of the same version caches the deleted
  template, and goes on serving it.\<close>

lemma late_put_serves_deleted:
  assumes "ps_put now n c md ca bd (pp_delegate (pg_store g)) = (Inr t, st)"
    and "s = mg_run [ChangeEvent (PutPrompt now n c md ca bd), ChangeEvent (DeletePrompt n (Some (pt_version t))), FinishEvent 1,
           FinishEvent 0] \<lparr>mg_manager = g, mg_pending = []\<rparr>"
  shows "mg_pending s = [] \<and> fst (cached_lookup (persisted_prompt_api bl now) n (Some (pt_version t)) (mg_manager s)) = Some t \<and>
    pp_get n (Some (pt_version t)) (pg_store (mg_manager s)) = None"
  using assms(1) in_memory_prompts.delete_gone [of n "Some (pt_version t)" st "ps_delete n (Some (pt_version t)) st" "pt_version t"]
  by (simp add: assms(2) mg_run_def begin_change_def finish_tail_def drop_nth_def cached_lookup_def map_of_dict_set pp_get_def)

section \<open>Runs to try the properties on\<close>

definition two_writes :: "mem_change ov_event list" where
  "two_writes =
     [Begin (WriteItem [117] demo_now (agent_scope [97]) (demo_memory None [120])),
      Begin (WriteItem [118] demo_now (agent_scope [97]) (demo_memory None [121]))]"

lemma demo_created_ok: "created_ok demo_now (demo_memory None c)"
  by (simp add: created_ok_def demo_memory_def demo_datetime_ok)

lemma two_writes_ok: "\<forall>e \<in> set (two_writes @ map Finish is). begun_ok mem_sound e"
  by (auto simp: two_writes_def demo_created_ok)

lemma overlap_restart_witness:
  "reopens_as (ov_held (ov_run mem_act memory_snapshot (two_writes @ [Finish 0, Finish 0]) (at_rest_with [] (Some (memory_snapshot [])))))
     (ov_delegate (ov_run mem_act memory_snapshot (two_writes @ [Finish 0, Finish 0]) (at_rest_with [] (Some (memory_snapshot [])))))"
  by (rule overlap_restart [OF memory_ok_empty _ _ refl])
    (use two_writes_ok [of "[0, 0]"] in \<open>auto simp: two_writes_def ov_run_def ms_write_def Let_def drop_nth_def at_rest_with_def\<close>)

lemma overlap_never_torn_witness:
  "\<exists>k \<le> 4. reopens_as
     (ov_held (ov_run mem_act memory_snapshot (two_writes @ [Finish 1, Fail 0]) (at_rest_with [] (Some (memory_snapshot [])))))
     (ov_delegate (ov_run mem_act memory_snapshot (take k (two_writes @ [Finish 1, Fail 0])) (at_rest_with [] (Some (memory_snapshot [])))))"
proof -
  have "\<forall>e \<in> set (two_writes @ [Finish 1, Fail 0]). begun_ok mem_sound e" by (simp add: two_writes_def demo_created_ok)
  from overlap_never_torn [OF memory_ok_empty this] show ?thesis by (simp add: two_writes_def eval_nat_numeral)
qed

lemma late_set_loses_write_witness:
  "reopens_as (ov_held (ov_run mem_act memory_snapshot (two_writes @ [Finish 1, Finish 0]) (at_rest_with [] (Some (memory_snapshot [])))))
     (snd (ms_write [117] demo_now (agent_scope [97]) (demo_memory None [120]) [])) \<and>
   ms_get (agent_scope [97]) [118] (snd (ms_write [117] demo_now (agent_scope [97]) (demo_memory None [120]) [])) = None"
  using late_set_loses_write [of "[]" demo_now "demo_memory None [120]" _ "[117]" "agent_scope [97]" "[118]" demo_now
      "agent_scope [97]" "demo_memory None [121]" "[117]" "[118]", OF memory_ok_empty demo_created_ok refl]
  by (simp add: two_writes_def ms_write_def Let_def stored_item_def demo_memory_def ms_get_def ms_items_def dict_get_or_def)

lemma overlap_cache_coherent_witness:
  "let s = mg_run [ChangeEvent (DeletePrompt [112] None), GetEvent demo_now [112] None, ChangeEvent (DeletePrompt [113] None),
        FinishEvent 0, FinishEvent 0] \<lparr>mg_manager = new_prompt_manager fresh_prompts, mg_pending = []\<rparr>
   in fst (cached_lookup (persisted_prompt_api dict_blob demo_now) [112] None (mg_manager s)) = pp_get [112] None (pg_store (mg_manager s))"
  unfolding Let_def
  by (rule overlap_cache_coherent [OF _ refl])
    (simp_all add: mg_run_def begin_change_def drop_nth_def fresh_prompts_def)

lemma late_put_serves_deleted_witness:
  "pp_get [112] (Some 2) (pg_store (mg_manager (mg_run
     [ChangeEvent (PutPrompt demo_now [112] [120] None False PNone), ChangeEvent (DeletePrompt [112] (Some 2)), FinishEvent 1, FinishEvent 0]
     \<lparr>mg_manager = new_prompt_manager \<lparr>pp_blob = None, pp_delegate = [([112], [(1, demo_template 1 [])])]\<rparr>, mg_pending = []\<rparr>))) = None"
  using late_put_serves_deleted [of demo_now "[112]" "[120]" None False PNone
      "new_prompt_manager \<lparr>pp_blob = None, pp_delegate = [([112], [(1, demo_template 1 [])])]\<rparr>" "demo_template 2 [120]"
      "[([112], [(1, demo_template 1 []), (2, demo_template 2 [120])])]", OF _ refl]
  by (simp add: demo_put new_prompt_manager_def, simp add: demo_template_def)

end
