(* ===== verification/ServiceState.thy ===== *)
theory ServiceState
  imports CivitasBridge WriteThrough
begin

text \<open>
  A service across restarts: the bridge, the managers, the two persisted stores and the one state store they share
  under the names \<^verbatim>\<open>build()\<close> gives them (\<^verbatim>\<open>civitas_bridge/bridge.py\<close>, \<^verbatim>\<open>civitas_bridge/state.py\<close>).
\<close>

section \<open>The state store\<close>

text \<open>What a state store is documented to do: it answers what was set last under a name, a set under one name leaves
  the others alone whether it fails or not, and reading changes nothing.\<close>

definition keeps_names :: "'d state_store \<Rightarrow> bool" where
  "keeps_names ss \<longleftrightarrow>
     (\<forall>n d. snd (ss_get ss n d) = d) \<and>
     (\<forall>n v d r d'. ss_set ss n v d = (r, d') \<longrightarrow>
        (r = Inr () \<longrightarrow> fst (ss_get ss n d') = Inr (Some v)) \<and>
        (\<forall>m. m \<noteq> n \<longrightarrow> fst (ss_get ss m d') = fst (ss_get ss m d)))"

lemma keeps_namesD:
  assumes "keeps_names ss"
  shows "ss_get ss n d = (fst (ss_get ss n d), d)"
    and "ss_set ss n v d = (Inr (), d') \<Longrightarrow> fst (ss_get ss n d') = Inr (Some v)"
    and "ss_set ss n v d = (r, d') \<Longrightarrow> m \<noteq> n \<Longrightarrow> fst (ss_get ss m d') = fst (ss_get ss m d)"
  using assms unfolding keeps_names_def by (metis prod.collapse)+

definition memory_name :: pystr where "memory_name = u ''memory_manager''"

definition prompts_name :: pystr where "prompts_name = u ''prompts_manager''"

lemma names_differ: "memory_name \<noteq> prompts_name" "prompts_name \<noteq> memory_name"
  by (simp_all add: memory_name_def prompts_name_def)

text \<open>The state store holds what a memory, or prompts, would be restored from.\<close>

definition holds_memory :: "'d state_store \<Rightarrow> 'd \<Rightarrow> memory_state \<Rightarrow> bool" where
  "holds_memory ss d m \<longleftrightarrow>
     fst (ss_get ss memory_name d) = Inr None \<and> same_items [] m \<or>
     (\<exists>m1. memory_ok m1 \<and> fst (ss_get ss memory_name d) = Inr (Some (memory_snapshot m1)) \<and> same_items m1 m)"

definition holds_prompts :: "'d state_store \<Rightarrow> 'd \<Rightarrow> prompts \<Rightarrow> bool" where
  "holds_prompts ss d st \<longleftrightarrow>
     fst (ss_get ss prompts_name d) = Inr None \<and> same_versions [] st \<or>
     (\<exists>st1. prompts_ok st1 \<and> fst (ss_get ss prompts_name d) = Inr (Some (prompt_snapshot st1)) \<and> same_versions st1 st)"

text \<open>Nothing yet, or what earlier runs of the service left.\<close>

definition left_by_service :: "'d state_store \<Rightarrow> 'd \<Rightarrow> bool" where
  "left_by_service ss d \<longleftrightarrow> (\<exists>m st. holds_memory ss d m \<and> holds_prompts ss d st)"

section \<open>Operations of a service\<close>

datatype service_op =
    StoreItem scope memory_item
  | DropItem scope pystr
  | StorePrompt pystr pystr "pydict option" bool pyval
  | DropPrompt pystr "int option"

fun of_memory :: "service_op \<Rightarrow> bool" where
  "of_memory (StoreItem s x) \<longleftrightarrow> True"
| "of_memory (DropItem s i) \<longleftrightarrow> True"
| "of_memory (StorePrompt n c md ca bd) \<longleftrightarrow> False"
| "of_memory (DropPrompt n v) \<longleftrightarrow> False"

definition service_memory :: "'d state_store \<Rightarrow> bm25_scores \<Rightarrow> pystr \<Rightarrow> datetime \<Rightarrow> 'd long_term_state long_term" where
  "service_memory ss bm25 uuid now =
     either_long_term True (in_memory_api bm25 uuid now) (persisted_api (bound_handle ss memory_name) bm25 uuid now)"

definition service_prompts :: "'d state_store \<Rightarrow> datetime \<Rightarrow> 'd prompt_state prompt_api" where
  "service_prompts ss now = either_prompts (in_memory_prompt_api now) (persisted_prompt_api (bound_handle ss prompts_name) now)"

type_synonym ('p, 'f, 'g, 'b, 't, 'd, 'c) service_fabrica =
  "('p, 'f, 'g, 'b, 't, 'd long_term_state, 'c, 'd prompt_state) fabrica"

text \<open>One operation, with a fresh id and the time it runs at: whether it returned, and what it left.\<close>

definition whether_returned :: "('a result \<times> 'w) \<Rightarrow> bool \<times> 'w" where
  "whether_returned x = (case x of (Inl e, w) \<Rightarrow> (False, w) | (Inr y, w) \<Rightarrow> (True, w))"

fun service_step ::
    "'d state_store \<Rightarrow> bm25_scores \<Rightarrow> pystr \<times> datetime \<times> service_op
     \<Rightarrow> tracer \<times> ('p, 'f, 'g, 'b, 't, 'd, 'c) service_fabrica
     \<Rightarrow> bool \<times> (tracer \<times> ('p, 'f, 'g, 'b, 't, 'd, 'c) service_fabrica)" where
  "service_step ss bm25 (uuid, now, StoreItem s x) w =
     whether_returned (on_memory (mm_write (service_memory ss bm25 uuid now) s x) w)"
| "service_step ss bm25 (uuid, now, DropItem s i) w =
     whether_returned (on_memory (io_lift (mm_forget (service_memory ss bm25 uuid now) s i)) w)"
| "service_step ss bm25 (uuid, now, StorePrompt n c md ca bd) w =
     whether_returned (on_prompts (pg_put (service_prompts ss now) n c md ca bd) w)"
| "service_step ss bm25 (uuid, now, DropPrompt n v) w =
     whether_returned (on_prompts (io_lift (pg_delete (service_prompts ss now) n v)) w)"

text \<open>A history, and which of its operations returned.\<close>

primrec service_run ::
    "'d state_store \<Rightarrow> bm25_scores \<Rightarrow> (pystr \<times> datetime \<times> service_op) list
     \<Rightarrow> tracer \<times> ('p, 'f, 'g, 'b, 't, 'd, 'c) service_fabrica
     \<Rightarrow> (service_op \<times> bool) list \<times> (tracer \<times> ('p, 'f, 'g, 'b, 't, 'd, 'c) service_fabrica)" where
  "service_run ss bm25 [] w = ([], w)"
| "service_run ss bm25 (op # ops) w =
     (case service_step ss bm25 op w of
        (b, w1) \<Rightarrow> (case service_run ss bm25 ops w1 of (outs, w2) \<Rightarrow> ((snd (snd op), b) # outs, w2)))"

text \<open>Whether the last operation of one kind returned; \<open>b\<close> if there is none.\<close>

fun last_returned :: "(service_op \<Rightarrow> bool) \<Rightarrow> bool \<Rightarrow> (service_op \<times> bool) list \<Rightarrow> bool" where
  "last_returned sel b [] = b"
| "last_returned sel b ((op, r) # outs) = last_returned sel (if sel op then r else b) outs"

text \<open>The state of a service: both stores on one state store, which holds the delegate of each store whose last
  operation returned.\<close>

definition service_inv :: "'d state_store \<Rightarrow> bool \<Rightarrow> bool \<Rightarrow> ('p, 'f, 'g, 'b, 't, 'd, 'c) service_fabrica \<Rightarrow> bool" where
  "service_inv ss mc pc fab \<longleftrightarrow>
     (\<exists>d m st. mm_long_term (fab_memory fab) = Inr \<lparr>pm_blob = d, pm_delegate = m\<rparr> \<and>
        pg_store (fab_prompts fab) = Inr \<lparr>pp_blob = d, pp_delegate = st\<rparr> \<and> memory_ok m \<and> prompts_ok st \<and>
        (mc \<longrightarrow> holds_memory ss d m) \<and> (pc \<longrightarrow> holds_prompts ss d st))"

lemma service_invI:
  assumes "mm_long_term (fab_memory fab) = Inr \<lparr>pm_blob = d, pm_delegate = m\<rparr>"
    and "pg_store (fab_prompts fab) = Inr \<lparr>pp_blob = d, pp_delegate = st\<rparr>"
    and "memory_ok m" "prompts_ok st" "mc \<Longrightarrow> holds_memory ss d m" "pc \<Longrightarrow> holds_prompts ss d st"
  shows "service_inv ss mc pc fab"
  using assms unfolding service_inv_def by blast

text \<open>Changes of one store.\<close>

lemma memory_change:
  assumes "service_inv ss mc pc fab" and "keeps_names ss"
    and "mm_long_term (fab_memory fab) = Inr p" and "mm_long_term mm = Inr p'"
    and "memory_ok (pm_delegate p')"
    and "ss_set ss memory_name v (pm_blob p) = (rs, pm_blob p')"
    and "b \<Longrightarrow> rs = Inr () \<and> v = memory_snapshot (pm_delegate p')"
  shows "service_inv ss b pc (share_memory (fab\<lparr>fab_memory := mm\<rparr>))"
proof -
  from assms(1,3) obtain d m st where i: "p = \<lparr>pm_blob = d, pm_delegate = m\<rparr>"
    "pg_store (fab_prompts fab) = Inr \<lparr>pp_blob = d, pp_delegate = st\<rparr>" "prompts_ok st" "pc \<longrightarrow> holds_prompts ss d st"
    by (auto simp: service_inv_def)
  obtain d' m' where p': "p' = \<lparr>pm_blob = d', pm_delegate = m'\<rparr>" by (metis persisted_memory.surjective old.unit.exhaust)
  have other: "fst (ss_get ss prompts_name d') = fst (ss_get ss prompts_name d)"
    using keeps_namesD(3) [OF assms(2), of memory_name v d rs d' prompts_name] assms(6) i(1) p' by (simp add: names_differ)
  show ?thesis
  proof (rule service_invI [where d = d' and m = m' and st = st])
    show "holds_memory ss d' m'" if b
      using keeps_namesD(2) [OF assms(2), of memory_name v d d'] assms(5,6) assms(7) [OF that] i(1) p'
      by (auto simp: holds_memory_def same_items_def)
    show "holds_prompts ss d' st" if pc using i(4) that other by (simp add: holds_prompts_def)
  qed (use assms(4,5) i p' in \<open>simp_all add: share_memory_def\<close>)
qed

lemma prompts_change:
  assumes "service_inv ss mc pc fab" and "keeps_names ss"
    and "pg_store (fab_prompts fab) = Inr p" and "pg_store pg = Inr p'"
    and "prompts_ok (pp_delegate p')"
    and "ss_set ss prompts_name v (pp_blob p) = (rs, pp_blob p') \<or> pp_blob p' = pp_blob p \<and> \<not> b"
    and "b \<Longrightarrow> rs = Inr () \<and> v = prompt_snapshot (pp_delegate p')"
  shows "service_inv ss mc b (share_prompts (fab\<lparr>fab_prompts := pg\<rparr>))"
proof -
  from assms(1,3) obtain d m st where i: "p = \<lparr>pp_blob = d, pp_delegate = st\<rparr>"
    "mm_long_term (fab_memory fab) = Inr \<lparr>pm_blob = d, pm_delegate = m\<rparr>" "memory_ok m" "mc \<longrightarrow> holds_memory ss d m"
    by (auto simp: service_inv_def)
  obtain d' st' where p': "p' = \<lparr>pp_blob = d', pp_delegate = st'\<rparr>" by (metis persisted_prompts.surjective old.unit.exhaust)
  have other: "fst (ss_get ss memory_name d') = fst (ss_get ss memory_name d)"
    using keeps_namesD(3) [OF assms(2), of prompts_name v d rs d' memory_name] assms(6) i(1) p' by (auto simp: names_differ)
  show ?thesis
  proof (rule service_invI [where d = d' and m = m and st = st'])
    show "holds_prompts ss d' st'" if b
      using keeps_namesD(2) [OF assms(2), of prompts_name v d d'] assms(5,6) assms(7) [OF that] i(1) p' that
      by (auto simp: holds_prompts_def same_versions_def)
    show "holds_memory ss d' m" if mc using i(4) that other by (simp add: holds_memory_def)
  qed (use assms(4,5) i p' in \<open>simp_all add: share_prompts_def\<close>)
qed

lemma pm_write_set:
  assumes "pm_write (bound_handle ss name) uuid now s x p = (r, p')"
  shows "\<exists>v rs. ss_set ss name v (pm_blob p) = (rs, pm_blob p') \<and>
    (\<forall>y. r = Inr y \<longrightarrow> rs = Inr () \<and> v = memory_snapshot (pm_delegate p'))"
  using assms
  by (intro exI [of _ "memory_snapshot (snd (ms_write uuid now s x (pm_delegate p)))"])
    (auto simp: pm_write_def pm_persist_def bound_handle_def ms_write_def Let_def split: prod.splits sum.splits)

lemma pm_forget_set:
  assumes "pm_forget (bound_handle ss name) s i p = (r, p')"
  shows "\<exists>v rs. ss_set ss name v (pm_blob p) = (rs, pm_blob p') \<and>
    (\<forall>y. r = Inr y \<longrightarrow> rs = Inr () \<and> v = memory_snapshot (pm_delegate p'))"
  using assms
  by (intro exI [of _ "memory_snapshot (ms_forget s i (pm_delegate p))"])
    (auto simp: pm_forget_def pm_persist_def bound_handle_def split: prod.splits)

lemma pp_put_set:
  assumes "pp_put (bound_handle ss name) now n c md ca bd p = (r, p')"
  shows "(\<exists>v rs. ss_set ss name v (pp_blob p) = (rs, pp_blob p') \<and>
    (\<forall>y. r = Inr y \<longrightarrow> rs = Inr () \<and> v = prompt_snapshot (pp_delegate p'))) \<or> pp_blob p' = pp_blob p \<and> (\<exists>e. r = Inl e)"
  using assms
  by (fastforce simp: pp_put_def pp_persist_def bound_handle_def split: prod.splits sum.splits)

lemma pp_delete_set:
  assumes "pp_delete (bound_handle ss name) n v p = (r, p')"
  shows "\<exists>v rs. ss_set ss name v (pp_blob p) = (rs, pp_blob p') \<and>
    (\<forall>y. r = Inr y \<longrightarrow> rs = Inr () \<and> v = prompt_snapshot (pp_delegate p'))"
  using assms
  by (intro exI [of _ "prompt_snapshot (ps_delete n v (pp_delegate p))"])
    (auto simp: pp_delete_def pp_persist_def bound_handle_def split: prod.splits)

fun op_timed :: "pystr \<times> datetime \<times> service_op \<Rightarrow> bool" where
  "op_timed (uuid, now, StoreItem s x) \<longleftrightarrow> created_ok now x"
| "op_timed (uuid, now, DropItem s i) \<longleftrightarrow> True"
| "op_timed (uuid, now, StorePrompt n c md ca bd) \<longleftrightarrow> datetime_ok now"
| "op_timed (uuid, now, DropPrompt n v) \<longleftrightarrow> True"

lemma whether_returned_io: "whether_returned x = (b, w') \<Longrightarrow> \<exists>r. x = (r, w') \<and> b = (\<exists>y. r = Inr y)"
  by (auto simp: whether_returned_def split: prod.splits sum.splits)

lemma store_item_step:
  assumes "service_inv ss mc pc fab" "keeps_names ss" "created_ok now x"
    and "on_memory (mm_write (service_memory ss bm25 uuid now) s x) (t, fab) = (r, (t', fab'))"
  shows "service_inv ss (\<exists>y. r = Inr y) pc fab'"
proof -
  from assms(1) obtain p where p: "mm_long_term (fab_memory fab) = Inr p" "memory_ok (pm_delegate p)"
    by (auto simp: service_inv_def)
  obtain rr p' where w: "pm_write (bound_handle ss memory_name) uuid now s x p = (rr, p')" by (metis prod.exhaust)
  have lt: "lt_write (service_memory ss bm25 uuid now) s x (Inr p) = (rr, Inr p')"
    using w by (simp add: service_memory_def either_long_term_def persisted_api_def)
  have ok: "memory_ok (pm_delegate p')"
    using pm_write_delegate [of "bound_handle ss memory_name" uuid now s x p] w ms_write_ok [OF p(2) assms(3)] by simp
  obtain r0 tr mm' where m: "mm_write (service_memory ss bm25 uuid now) s x (t, fab_memory fab) = (r0, (tr, mm'))"
    by (metis prod.exhaust)
  with assms(4) have f: "fab' = share_memory (fab\<lparr>fab_memory := mm'\<rparr>)" "r0 = r" by (auto simp: on_memory_def io_zoom_def)
  from mm_write_outcome [OF m] p(1) lt f(2) have o: "mm_long_term mm' = Inr p'" "\<And>y. r = Inr y \<Longrightarrow> \<exists>i. rr = Inr i"
    by (auto simp: on_long_term_def rbind_def split: sum.splits)
  from pm_write_set [OF w] obtain v rs where v: "ss_set ss memory_name v (pm_blob p) = (rs, pm_blob p')"
    "\<forall>y. rr = Inr y \<longrightarrow> rs = Inr () \<and> v = memory_snapshot (pm_delegate p')" by blast
  show ?thesis unfolding f(1)
    by (rule memory_change [OF assms(1,2) p(1) o(1) ok v(1)]) (use v(2) o(2) in blast)
qed

lemma drop_item_step:
  assumes "service_inv ss mc pc fab" "keeps_names ss"
    and "on_memory (io_lift (mm_forget (service_memory ss bm25 uuid now) s i)) (t, fab) = (r, (t', fab'))"
  shows "service_inv ss (\<exists>y. r = Inr y) pc fab'"
proof -
  from assms(1) obtain p where p: "mm_long_term (fab_memory fab) = Inr p" "memory_ok (pm_delegate p)"
    by (auto simp: service_inv_def)
  obtain rr p' where w: "pm_forget (bound_handle ss memory_name) s i p = (rr, p')" by (metis prod.exhaust)
  have ok: "memory_ok (pm_delegate p')"
    using pm_forget_delegate [of "bound_handle ss memory_name" s i p] w memory_ok_forget [OF p(2)] by simp
  have f: "r = rr" "fab' = share_memory (fab\<lparr>fab_memory := (fab_memory fab)\<lparr>mm_long_term := Inr p'\<rparr>\<rparr>)"
    using assms(3) p(1) w
    by (auto simp: on_memory_def io_zoom_def io_lift_def mm_forget_def on_long_term_def service_memory_def either_long_term_def
        persisted_api_def)
  from pm_forget_set [OF w] obtain v rs where v: "ss_set ss memory_name v (pm_blob p) = (rs, pm_blob p')"
    "\<forall>y. rr = Inr y \<longrightarrow> rs = Inr () \<and> v = memory_snapshot (pm_delegate p')" by blast
  show ?thesis unfolding f
    by (rule memory_change [OF assms(1,2) p(1) _ ok v(1)]) (use v(2) in auto)
qed

lemma store_prompt_step:
  assumes "service_inv ss mc pc fab" "keeps_names ss" "datetime_ok now"
    and "on_prompts (pg_put (service_prompts ss now) n c md ca bd) (t, fab) = (r, (t', fab'))"
  shows "service_inv ss mc (\<exists>y. r = Inr y) fab'"
proof -
  from assms(1) obtain p where p: "pg_store (fab_prompts fab) = Inr p" "prompts_ok (pp_delegate p)"
    by (auto simp: service_inv_def)
  obtain rr p' where w: "pp_put (bound_handle ss prompts_name) now n c md ca bd p = (rr, p')" by (metis prod.exhaust)
  have ok: "prompts_ok (pp_delegate p')"
    using pp_put_delegate [of "bound_handle ss prompts_name" now n c md ca bd p] w prompts_ok_put [OF p(2) assms(3)]
    by (metis prod.collapse snd_conv)
  have api: "pa_put (service_prompts ss now) n c md ca bd (Inr p) = (rr, Inr p')"
    using w by (simp add: service_prompts_def either_prompts_def persisted_prompt_api_def)
  obtain r0 tr pg' where m: "pg_put (service_prompts ss now) n c md ca bd (t, fab_prompts fab) = (r0, (tr, pg'))"
    by (metis prod.exhaust)
  with assms(4) have f: "fab' = share_prompts (fab\<lparr>fab_prompts := pg'\<rparr>)" "r0 = r" by (auto simp: on_prompts_def io_zoom_def)
  from pg_put_outcome [OF m] p(1) api f(2) have o: "pg_store pg' = Inr p'" "\<And>y. r = Inr y \<Longrightarrow> \<exists>i. rr = Inr i"
    by (auto simp: store_and_cache_def rbind_def split: sum.splits)
  from pp_put_set [OF w] obtain v rs where v: "ss_set ss prompts_name v (pp_blob p) = (rs, pp_blob p') \<or>
      pp_blob p' = pp_blob p \<and> \<not> (\<exists>y. r = Inr y)"
    "\<exists>y. r = Inr y \<Longrightarrow> rs = Inr () \<and> v = prompt_snapshot (pp_delegate p')" using o(2) by fastforce
  show ?thesis unfolding f(1) by (rule prompts_change [OF assms(1,2) p(1) o(1) ok v])
qed

lemma drop_prompt_step:
  assumes "service_inv ss mc pc fab" "keeps_names ss"
    and "on_prompts (io_lift (pg_delete (service_prompts ss now) n v)) (t, fab) = (r, (t', fab'))"
  shows "service_inv ss mc (\<exists>y. r = Inr y) fab'"
proof -
  from assms(1) obtain p where p: "pg_store (fab_prompts fab) = Inr p" "prompts_ok (pp_delegate p)"
    by (auto simp: service_inv_def)
  obtain rr p' where w: "pp_delete (bound_handle ss prompts_name) n v p = (rr, p')" by (metis prod.exhaust)
  have ok: "prompts_ok (pp_delegate p')"
    using pp_delete_delegate [of "bound_handle ss prompts_name" n v p] w prompts_ok_delete [OF p(2)] by simp
  have api: "pa_delete (service_prompts ss now) n v (Inr p) = (rr, Inr p')"
    using w by (simp add: service_prompts_def either_prompts_def persisted_prompt_api_def)
  obtain pg' where d: "pg_delete (service_prompts ss now) n v (fab_prompts fab) = (r, pg')" "pg_store pg' = Inr p'" "r = rr"
    "fab' = share_prompts (fab\<lparr>fab_prompts := pg'\<rparr>)"
    using assms(3) api p(1)
    by (auto simp: on_prompts_def io_zoom_def io_lift_def pg_delete_def split: prod.splits sum.splits)
  from pp_delete_set [OF w] obtain v rs where v: "ss_set ss prompts_name v (pp_blob p) = (rs, pp_blob p')"
    "\<forall>y. rr = Inr y \<longrightarrow> rs = Inr () \<and> v = prompt_snapshot (pp_delegate p')" by blast
  show ?thesis unfolding d(4)
    by (rule prompts_change [OF assms(1,2) p(1) d(2) ok disjI1 [OF v(1)]]) (use v(2) d(3) in blast)
qed

lemma service_step_inv:
  assumes "service_inv ss mc pc fab" "keeps_names ss" "op_timed op" "service_step ss bm25 op (t, fab) = (b, (t', fab'))"
  shows "service_inv ss (if of_memory (snd (snd op)) then b else mc) (if \<not> of_memory (snd (snd op)) then b else pc) fab'"
proof -
  obtain uuid now o' where op: "op = (uuid, now, o')" by (metis prod.exhaust)
  show ?thesis
  proof (cases o')
    case (StoreItem s x)
    with assms(4) op have "whether_returned (on_memory (mm_write (service_memory ss bm25 uuid now) s x) (t, fab)) = (b, (t', fab'))" by simp
    from whether_returned_io [OF this] obtain r where r: "on_memory (mm_write (service_memory ss bm25 uuid now) s x) (t, fab) = (r, (t', fab'))" "b = (\<exists>y. r = Inr y)" by blast
    from store_item_step [OF assms(1,2) _ r(1)] assms(3) op StoreItem r(2) show ?thesis by simp
  next
    case (DropItem s i)
    with assms(4) op have "whether_returned (on_memory (io_lift (mm_forget (service_memory ss bm25 uuid now) s i)) (t, fab)) = (b, (t', fab'))" by simp
    from whether_returned_io [OF this] obtain r where r: "on_memory (io_lift (mm_forget (service_memory ss bm25 uuid now) s i)) (t, fab) = (r, (t', fab'))" "b = (\<exists>y. r = Inr y)" by blast
    from drop_item_step [OF assms(1,2) r(1)] op DropItem r(2) show ?thesis by simp
  next
    case (StorePrompt n c md ca bd)
    with assms(4) op have "whether_returned (on_prompts (pg_put (service_prompts ss now) n c md ca bd) (t, fab)) = (b, (t', fab'))" by simp
    from whether_returned_io [OF this] obtain r where r: "on_prompts (pg_put (service_prompts ss now) n c md ca bd) (t, fab) = (r, (t', fab'))" "b = (\<exists>y. r = Inr y)" by blast
    from store_prompt_step [OF assms(1,2) _ r(1)] assms(3) op StorePrompt r(2) show ?thesis by simp
  next
    case (DropPrompt n v)
    with assms(4) op have "whether_returned (on_prompts (io_lift (pg_delete (service_prompts ss now) n v)) (t, fab)) = (b, (t', fab'))" by simp
    from whether_returned_io [OF this] obtain r where r: "on_prompts (io_lift (pg_delete (service_prompts ss now) n v)) (t, fab) = (r, (t', fab'))" "b = (\<exists>y. r = Inr y)" by blast
    from drop_prompt_step [OF assms(1,2) r(1)] op DropPrompt r(2) show ?thesis by simp
  qed
qed

lemma service_run_inv:
  assumes "service_inv ss mc pc fab" "keeps_names ss" "\<forall>op \<in> set ops. op_timed op"
    and "service_run ss bm25 ops (t, fab) = (outs, (t', fab'))"
  shows "service_inv ss (last_returned of_memory mc outs) (last_returned (Not \<circ> of_memory) pc outs) fab'"
  using assms(1,3,4)
proof (induction ops arbitrary: mc pc t fab outs t' fab')
  case (Cons op ops)
  obtain b t1 fab1 where s: "service_step ss bm25 op (t, fab) = (b, (t1, fab1))" by (metis prod.exhaust)
  obtain outs1 t2 fab2 where r: "service_run ss bm25 ops (t1, fab1) = (outs1, (t2, fab2))" by (metis prod.exhaust)
  from service_step_inv [OF Cons.prems(1) assms(2) _ s] Cons.prems(2)
  have "service_inv ss (if of_memory (snd (snd op)) then b else mc) (if \<not> of_memory (snd (snd op)) then b else pc) fab1" by simp
  note this [THEN Cons.IH, OF _ r]
  with Cons.prems s r show ?case by auto
qed simp

section \<open>Restart\<close>

lemma open_memory:
  assumes "keeps_names ss" "holds_memory ss d m"
  shows "\<exists>m'. pm_create (bound_handle ss memory_name) d = (Inr \<lparr>pm_blob = d, pm_delegate = m'\<rparr>, d) \<and> same_items m' m \<and> memory_ok m'"
  using assms(2) unfolding holds_memory_def
proof (elim disjE exE conjE)
  assume "fst (ss_get ss memory_name d) = Inr None" "same_items [] m"
  with keeps_namesD(1) [OF assms(1), of memory_name d] show ?thesis by (simp add: pm_create_def bound_handle_def)
next
  fix m1 assume m1: "memory_ok m1" "fst (ss_get ss memory_name d) = Inr (Some (memory_snapshot m1))" "same_items m1 m"
  have "memory_ok (filter (\<lambda>(k, d). d \<noteq> []) m1)" using m1(1) distinct_map_filter [of fst m1] by (auto simp: memory_ok_def)
  moreover have "same_items (filter (\<lambda>(k, d). d \<noteq> []) m1) m"
    using m1(1,3) ms_items_filter [of m1] by (simp add: same_items_def memory_ok_def)
  ultimately show ?thesis using keeps_namesD(1) [OF assms(1), of memory_name d] m1(2) restore_snapshot [OF m1(1)]
    by (simp add: pm_create_def bound_handle_def)
qed

lemma open_prompts:
  assumes "keeps_names ss" "holds_prompts ss d st"
  shows "\<exists>st'. pp_create (bound_handle ss prompts_name) d = (Inr \<lparr>pp_blob = d, pp_delegate = st'\<rparr>, d) \<and> same_versions st' st \<and> prompts_ok st'"
  using assms(2) unfolding holds_prompts_def
proof (elim disjE exE conjE)
  assume "fst (ss_get ss prompts_name d) = Inr None" "same_versions [] st"
  with keeps_namesD(1) [OF assms(1), of prompts_name d] show ?thesis by (simp add: pp_create_def bound_handle_def)
next
  fix s1 assume s1: "prompts_ok s1" "fst (ss_get ss prompts_name d) = Inr (Some (prompt_snapshot s1))" "same_versions s1 st"
  have "prompts_ok (filter (\<lambda>(n, vs). vs \<noteq> []) s1)" using s1(1) distinct_map_filter [of fst s1] by (auto simp: prompts_ok_def)
  moreover have "same_versions (filter (\<lambda>(n, vs). vs \<noteq> []) s1) st"
    using s1(1,3) versions_of_filter [of s1] by (simp add: same_versions_def prompts_ok_def)
  ultimately show ?thesis using keeps_namesD(1) [OF assms(1), of prompts_name d] s1(2) restore_prompts [OF s1(1)]
    by (simp add: pp_create_def bound_handle_def)
qed

text \<open>A bridge of a service over a state store that is new, or that a service left, builds; what it builds has what the
  state store holds.\<close>

lemma service_builds:
  assumes "keeps_names ss" "holds_memory ss d m" "holds_prompts ss d st"
    and "br_service b" "br_store b = Some d" "br_built b = None"
  shows "\<exists>fab b' m' st'. bridge_build ss chosen tools0 b = (Inr fab, b') \<and>
    mm_long_term (fab_memory fab) = Inr \<lparr>pm_blob = d, pm_delegate = m'\<rparr> \<and>
    pg_store (fab_prompts fab) = Inr \<lparr>pp_blob = d, pp_delegate = st'\<rparr> \<and>
    same_items m' m \<and> same_versions st' st \<and> memory_ok m' \<and> prompts_ok st'"
proof -
  from open_memory [OF assms(1,2)] obtain m' where m':
    "pm_create (bound_handle ss memory_name) d = (Inr \<lparr>pm_blob = d, pm_delegate = m'\<rparr>, d)" "same_items m' m" "memory_ok m'" by blast
  from open_prompts [OF assms(1,3)] obtain st' where st':
    "pp_create (bound_handle ss prompts_name) d = (Inr \<lparr>pp_blob = d, pp_delegate = st'\<rparr>, d)" "same_versions st' st" "prompts_ok st'"
    by blast
  have "open_stores ss b = (Inr (Inr \<lparr>pm_blob = d, pm_delegate = m'\<rparr>, Inr \<lparr>pp_blob = d, pp_delegate = st'\<rparr>), Some d)"
    using m'(1) st'(1) assms(4,5)
    by (simp add: open_stores_def request_state_persistence_def memory_name_def prompts_name_def del: u_simps)
  then show ?thesis using m'(2,3) st'(2,3) assms(6)
    by (simp add: bridge_build_def assemble_def Let_def new_prompt_manager_def)
qed

text \<open>What the stores of two services answer.\<close>

definition answers_alike ::
    "'d state_store \<Rightarrow> ('p, 'f, 'g, 'b, 't, 'd, 'c) service_fabrica \<Rightarrow> ('p, 'f, 'g, 'b, 't, 'd, 'c) service_fabrica \<Rightarrow> bool" where
  "answers_alike ss fab fab' \<longleftrightarrow>
     (\<forall>bm25 uuid now s i. mm_get (service_memory ss bm25 uuid now) s i (fab_memory fab) =
        mm_get (service_memory ss bm25 uuid now) s i (fab_memory fab')) \<and>
     (\<forall>bm25 uuid now s q n. fst (lt_search (service_memory ss bm25 uuid now) s q n (mm_long_term (fab_memory fab))) =
        fst (lt_search (service_memory ss bm25 uuid now) s q n (mm_long_term (fab_memory fab')))) \<and>
     (\<forall>now n v. pa_get (service_prompts ss now) n v (pg_store (fab_prompts fab)) =
        pa_get (service_prompts ss now) n v (pg_store (fab_prompts fab'))) \<and>
     (\<forall>now n. pa_list_versions (service_prompts ss now) n (pg_store (fab_prompts fab)) =
        pa_list_versions (service_prompts ss now) n (pg_store (fab_prompts fab')))"

lemma answers_alikeI:
  assumes "mm_long_term (fab_memory fab) = Inr p" "mm_long_term (fab_memory fab') = Inr p'" "same_items (pm_delegate p) (pm_delegate p')"
    and "pg_store (fab_prompts fab) = Inr q" "pg_store (fab_prompts fab') = Inr q'" "same_versions (pp_delegate q) (pp_delegate q')"
  shows "answers_alike ss fab fab'"
proof -
  have i: "ms_items (pm_delegate p) k = ms_items (pm_delegate p') k" for k using assms(3) unfolding same_items_def by blast
  have v: "versions_of (pp_delegate q) n = versions_of (pp_delegate q') n" for n using assms(6) unfolding same_versions_def by blast
  have s: "ms_search bm25 s x n (pm_delegate p) = ms_search bm25 s x n (pm_delegate p')" for bm25 s x n
    by (rule ms_search_items) (rule i)
  show ?thesis
    using assms(1,2,4,5) i v s
    by (simp add: answers_alike_def service_memory_def either_long_term_def persisted_api_def mm_get_def pm_get_def ms_get_def
        pm_search_def service_prompts_def either_prompts_def persisted_prompt_api_def pp_get_def ps_get_def pp_list_versions_def
        ps_list_versions_def)
qed

text \<open>C12: a service survives a restart. Take a bridge in service mode over a state store that is new or was left by an
  earlier run, and any history of writes, forgets, puts and deletes on what it builds, in which any may fail, as
  long as the last operation on the memory and the last on the prompts returned. Then a new bridge over the state
  store as it is builds, what it builds answers every lookup and every search like the service that ran, and the
  state store is again one a service left, so this goes on for any number of restarts.\<close>

theorem service_restart:
  assumes "keeps_names ss" and "left_by_service ss d"
    and "br_service b" and "br_store b = Some d" and "br_built b = None" and "bridge_build ss chosen tools0 b = (Inr fab, b1)"
    and "\<forall>op \<in> set ops. op_timed op" and "service_run ss bm25 ops (t, fab) = (outs, (t', fab'))"
    and "last_returned of_memory True outs" and "last_returned (Not \<circ> of_memory) True outs"
    and "mm_long_term (fab_memory fab') = Inr p" and "br_service b2" and "br_store b2 = Some (pm_blob p)" and "br_built b2 = None"
  shows "left_by_service ss (pm_blob p) \<and>
    (\<exists>fab'' b3. bridge_build ss chosen' tools0' b2 = (Inr fab'', b3) \<and> answers_alike ss fab'' fab')"
proof -
  from assms(2) obtain m st where h: "holds_memory ss d m" "holds_prompts ss d st" by (auto simp: left_by_service_def)
  from service_builds [OF assms(1) h assms(3-5), of chosen tools0] assms(6) obtain m' st' where f:
    "mm_long_term (fab_memory fab) = Inr \<lparr>pm_blob = d, pm_delegate = m'\<rparr>"
    "pg_store (fab_prompts fab) = Inr \<lparr>pp_blob = d, pp_delegate = st'\<rparr>"
    "same_items m' m" "same_versions st' st" "memory_ok m'" "prompts_ok st'" by auto
  have "holds_memory ss d m'" "holds_prompts ss d st'"
    using h f(3,4) by (auto simp: holds_memory_def holds_prompts_def same_items_def same_versions_def)
  then have "service_inv ss True True fab" using f by (intro service_invI)
  from service_run_inv [OF this assms(1,7,8)] assms(9-11) obtain m2 st2 where i:
    "p = \<lparr>pm_blob = pm_blob p, pm_delegate = m2\<rparr>" "pg_store (fab_prompts fab') = Inr \<lparr>pp_blob = pm_blob p, pp_delegate = st2\<rparr>"
    "holds_memory ss (pm_blob p) m2" "holds_prompts ss (pm_blob p) st2" by (auto simp: service_inv_def)
  from service_builds [OF assms(1) i(3,4) assms(12-14), of chosen' tools0'] obtain fab'' b3 m3 st3 where n:
    "bridge_build ss chosen' tools0' b2 = (Inr fab'', b3)" "mm_long_term (fab_memory fab'') = Inr \<lparr>pm_blob = pm_blob p, pm_delegate = m3\<rparr>"
    "pg_store (fab_prompts fab'') = Inr \<lparr>pp_blob = pm_blob p, pp_delegate = st3\<rparr>" "same_items m3 m2" "same_versions st3 st2" by blast
  have "pm_delegate p = m2" using i(1) by (metis persisted_memory.select_convs(2))
  then have "answers_alike ss fab'' fab'"
    using n(4,5) by (intro answers_alikeI [OF n(2) assms(11) _ n(3) i(2)]) simp_all
  with n(1) i(3,4) show ?thesis by (auto simp: left_by_service_def)
qed

section \<open>A service to try the property on\<close>

definition named_store :: "(pystr \<Rightarrow> pydict option) state_store" where
  "named_store =
     \<lparr>ss_get = (\<lambda>n d. (Inr (d n), d)), ss_set = (\<lambda>n v d. (Inr (), d(n := Some v))), ss_delete = (\<lambda>n d. (Inr (), d(n := None)))\<rparr>"

definition demo_service :: "(nat, nat, unit, pystr \<Rightarrow> pydict option,
    (keyword_state, keyword_state, nat client, nat, unit, memory_state + (pystr \<Rightarrow> pydict option) persisted_memory, unit option,
     prompts + (pystr \<Rightarrow> pydict option) persisted_prompts) fabrica) bridge" where
  "demo_service =
     \<lparr>br_service = True, br_summarizer = None, br_client = Some 0, br_allow_ungoverned = False, br_runtime = Some (\<lambda>_. True),
      br_store = Some (\<lambda>_. None), br_supervisor = Some [115], br_warm_size = 1, br_max_concurrent = 1, br_backend = None,
      br_built = None\<rparr>"

lemma named_keeps: "keeps_names named_store"
  by (simp add: keeps_names_def named_store_def)

lemma nothing_left: "left_by_service named_store (\<lambda>_. None)"
  unfolding left_by_service_def
  by (intro exI [of _ "[]"]) (simp add: holds_memory_def holds_prompts_def named_store_def same_items_def same_versions_def)

lemma demo_service_run:
  assumes "mm_long_term (fab_memory fab) = Inr \<lparr>pm_blob = d, pm_delegate = m\<rparr>"
    and "pg_store (fab_prompts fab) = Inr \<lparr>pp_blob = d, pp_delegate = st\<rparr>"
  shows "\<exists>t' fab' p. service_run named_store bm25
      [([117], demo_now, StoreItem (agent_scope [97]) (demo_memory None [120])), ([118], demo_now, DropPrompt [112] None)] (t, fab) =
      ([(StoreItem (agent_scope [97]) (demo_memory None [120]), True), (DropPrompt [112] None, True)], (t', fab')) \<and>
    mm_long_term (fab_memory fab') = Inr p"
proof -
  let ?lt = "service_memory named_store bm25 [117] demo_now" and ?x = "demo_memory None [120]" and ?s = "agent_scope [97]"
  obtain r t1 mm where w: "mm_write ?lt ?s ?x (t, fab_memory fab) = (r, (t1, mm))" by (metis prod.exhaust)
  obtain i p1 where lt: "lt_write ?lt ?s ?x (Inr \<lparr>pm_blob = d, pm_delegate = m\<rparr>) = (Inr i, Inr p1)"
    by (simp add: service_memory_def either_long_term_def persisted_api_def pm_write_def pm_persist_def ms_write_def Let_def
        bound_handle_def named_store_def)
  have "utf8_len (mi_content ?x) = Inr 1"
    by (simp add: demo_memory_def utf8_len_def utf8_encode_def is_surrogate_def utf8_char_def)
  with mm_write_outcome [OF w] lt assms(1) have r: "r = Inr i" "mm_long_term mm = Inr p1" by (auto simp: on_long_term_def rbind_def)
  let ?f1 = "share_memory (fab\<lparr>fab_memory := mm\<rparr>)"
  have s1: "service_step named_store bm25 ([117], demo_now, StoreItem ?s ?x) (t, fab) = (True, (t1, ?f1))"
    using w r by (simp add: on_memory_def io_zoom_def whether_returned_def)
  have f1: "mm_long_term (fab_memory ?f1) = Inr p1" "pg_store (fab_prompts ?f1) = Inr \<lparr>pp_blob = pm_blob p1, pp_delegate = st\<rparr>"
    using r assms(2) by (simp_all add: share_memory_def)
  obtain f2 p2 where s2: "service_step named_store bm25 ([118], demo_now, DropPrompt [112] None) (t1, ?f1) = (True, (t1, f2))"
    "mm_long_term (fab_memory f2) = Inr p2"
    using f1 by (simp add: on_prompts_def io_zoom_def io_lift_def pg_delete_def service_prompts_def either_prompts_def persisted_prompt_api_def
        pp_delete_def pp_persist_def bound_handle_def named_store_def whether_returned_def share_prompts_def)
  from s1 s2 show ?thesis by auto
qed

lemma service_restart_witness:
  "\<exists>d fab'' b3. left_by_service named_store d \<and> bridge_build named_store 0 () (demo_service\<lparr>br_store := Some d\<rparr>) = (Inr fab'', b3)"
proof -
  have demo: "br_service demo_service" "br_store demo_service = Some (\<lambda>_. None)" "br_built demo_service = None"
    by (simp_all add: demo_service_def)
  from nothing_left obtain m st where h: "holds_memory named_store (\<lambda>_. None) m" "holds_prompts named_store (\<lambda>_. None) st"
    by (auto simp: left_by_service_def)
  from service_builds [OF named_keeps h demo, of 0 "()"] obtain fab b1 m' st' where b:
    "bridge_build named_store 0 () demo_service = (Inr fab, b1)"
    "mm_long_term (fab_memory fab) = Inr \<lparr>pm_blob = \<lambda>_. None, pm_delegate = m'\<rparr>"
    "pg_store (fab_prompts fab) = Inr \<lparr>pp_blob = \<lambda>_. None, pp_delegate = st'\<rparr>" by blast
  from demo_service_run [OF b(2,3), of count_bm25 null_tracer] obtain t' fab' p where r:
    "service_run named_store count_bm25
      [([117], demo_now, StoreItem (agent_scope [97]) (demo_memory None [120])), ([118], demo_now, DropPrompt [112] None)] (null_tracer, fab) =
      ([(StoreItem (agent_scope [97]) (demo_memory None [120]), True), (DropPrompt [112] None, True)], (t', fab'))"
    "mm_long_term (fab_memory fab') = Inr p" by blast
  have timed: "\<forall>op \<in> set [([117], demo_now, StoreItem (agent_scope [97]) (demo_memory None [120])), ([118], demo_now, DropPrompt [112] None)].
      op_timed op" by (simp add: demo_created_ok)
  from service_restart [OF named_keeps nothing_left demo b(1) timed r(1) _ _ r(2), of "demo_service\<lparr>br_store := Some (pm_blob p)\<rparr>" 0 "()"]
  show ?thesis using demo by (auto simp: demo_service_def)
qed

end
