(* ===== verification/Spec2Isabelle.thy ===== *)
theory Spec2Isabelle
  imports RetrieverOverlap McpClient Tunnel ServiceAnswers ServiceState
begin

text \<open>
  A verification development for Fabrica (\<^verbatim>\<open>src/fabrica\<close>), a library and service that gives agents tools, skills,
  memory and prompts, runs the code they write in sandboxes, and asks a governance service before it does.

  \<^bold>\<open>How the program fits together.\<close> A \<^verbatim>\<open>CivitasBridge\<close> assembles one object graph: a retriever over a keyword
  index, one sandbox pool over one backend, a governance client, and the four managers that share them. Code
  (\<^verbatim>\<open>ToolManager.run_code\<close>) and scripts (\<^verbatim>\<open>SkillManager.run\<close>) go through one sequence,
  \<^verbatim>\<open>execute_in_sandbox\<close>: ask for a grant, acquire an instance, run, release. Inside the sandbox a guest shim
  sends tool calls back to the host, which routes them to the namespace that registered the tool, a dictionary of
  functions or a remote MCP server. The MCP server offers five of the managers' operations and the prompts to
  external callers, and a tunnel may make a local port reachable.

  \<^bold>\<open>Theories and code\<close>, in the order of their dependence:

  \<^item> \<^verbatim>\<open>Prelude\<close>, \<^verbatim>\<open>Exceptions\<close>, \<^verbatim>\<open>PyText\<close>, \<^verbatim>\<open>PyJson\<close>, \<^verbatim>\<open>PyDatetime\<close>: the parts of Python the program uses
    (ordered dictionaries, code points, \<open>pyval\<close>, exceptions with their hierarchy and all \<^verbatim>\<open>errors.py\<close>, UTF-8,
    \<^verbatim>\<open>json.dumps\<close>, ISO times).
  \<^item> \<^verbatim>\<open>Observability\<close> (\<^verbatim>\<open>observability.py\<close>): spans, the computation type \<open>io\<close> that passes the tracer, and
    two notions about it, \<open>well_traced\<close> (every span opened is closed, on every exit) and \<open>obs_eq\<close>. A tracer is an
    injected object, taken by the contract the file states: its calls return.
  \<^item> \<^verbatim>\<open>ScopeModel\<close> (\<^verbatim>\<open>scope.py\<close>): scopes, scope keys, the flattening policies see.
  \<^item> \<^verbatim>\<open>Presidium\<close> (\<^verbatim>\<open>presidium/\<close>): grants, the circuit breaker, the REST and the in-process client; the locale
    \<open>grant_source\<close> is what a client promises, interpreted for both and, in \<^verbatim>\<open>CivitasBridge\<close>, for the client of a bridge.
  \<^item> \<^verbatim>\<open>RetrieverModel\<close> (\<^verbatim>\<open>retriever/\<close>): the keyword backend and the retriever with its fallback, over the
    locales \<open>retriever_backend\<close> and \<open>steady_backend\<close>; \<^verbatim>\<open>RetrieverOverlap\<close>: its operations when they overlap.
  \<^item> \<^verbatim>\<open>WorkingMemory\<close>, \<^verbatim>\<open>MemoryStore\<close>, \<^verbatim>\<open>Compactor\<close>, \<^verbatim>\<open>MemoryManager\<close> (\<^verbatim>\<open>memory/\<close>, \<^verbatim>\<open>civitas_bridge/state.py\<close>): the
    quota, the in-memory and the persisted store (locale \<open>memory_store\<close>), compaction and the manager.
  \<^item> \<^verbatim>\<open>PromptStore\<close>, \<^verbatim>\<open>PromptManager\<close> (\<^verbatim>\<open>prompts/\<close>): versioned prompts and the read cache over either store
    (locales \<open>prompt_store\<close>, \<open>atomic_prompt_store\<close>).
  \<^item> \<^verbatim>\<open>WriteThrough\<close> (\<^verbatim>\<open>memory/store.py\<close>, \<^verbatim>\<open>prompts/store.py\<close>, \<^verbatim>\<open>prompts/manager.py\<close>): the persisted stores and the
    cache when operations overlap, over the locale \<open>write_through\<close> both stores interpret.
  \<^item> \<^verbatim>\<open>SandboxPool\<close>, \<^verbatim>\<open>PoolTasks\<close> (\<^verbatim>\<open>sandbox/pool.py\<close>): the operations of the pool, and the pool among concurrent
    tasks as a step relation over the sections between two awaits.
  \<^item> \<^verbatim>\<open>Tools\<close>, \<^verbatim>\<open>ExecuteInSandbox\<close>, \<^verbatim>\<open>ToolManager\<close>, \<^verbatim>\<open>SkillManager\<close> (\<^verbatim>\<open>tools/\<close>, \<^verbatim>\<open>managers/\<close>): namespaces, the
    one sequence of an execution with its specification \<open>execute_outcome\<close>, and the managers.
  \<^item> \<^verbatim>\<open>McpClient\<close> (\<^verbatim>\<open>mcp/client.py\<close>, \<^verbatim>\<open>isolation.py\<close>, \<^verbatim>\<open>namespace.py\<close>, \<^verbatim>\<open>tool.py\<close>): remote tools.
  \<^item> \<^verbatim>\<open>GuestProtocol\<close>, \<^verbatim>\<open>ShimRunner\<close> (\<^verbatim>\<open>sandbox/_guest_shim.py\<close>, \<^verbatim>\<open>_shim_runner.py\<close>, \<^verbatim>\<open>subprocess_backend.py\<close>,
    \<^verbatim>\<open>srt_backend.py\<close>, \<^verbatim>\<open>network_policy.py\<close>, \<^verbatim>\<open>dispatch.py\<close>): Tiers 0 and 1, guest and host side.
  \<^item> \<^verbatim>\<open>FirecrackerWire\<close>, \<^verbatim>\<open>FirecrackerBoot\<close> (\<^verbatim>\<open>sandbox/firecracker_backend.py\<close>, \<^verbatim>\<open>_firecracker_guest_shim.py\<close>): Tier 2,
    its wire protocol and the life of its instances.
  \<^item> \<^verbatim>\<open>Tunnel\<close> (\<^verbatim>\<open>tunnel/\<close>): both providers and the choice between them.
  \<^item> \<^verbatim>\<open>McpServer\<close> (\<^verbatim>\<open>mcp/server.py\<close>): the handlers, over a record of the operations they call.
  \<^item> \<^verbatim>\<open>CivitasBridge\<close> (\<^verbatim>\<open>civitas_bridge/bridge.py\<close>): the checks, the assembly, and those operations made of the
    model's managers. \<^verbatim>\<open>ExternalCalls\<close>: sequences of external calls on an assembled Fabrica. \<^verbatim>\<open>ServiceState\<close>: the
    stores of a service on one state store, and restarts.
  \<^item> \<^verbatim>\<open>SandboxContract\<close> (\<^verbatim>\<open>sandbox/backend.py\<close> seen from both sides): what the pool and the caller rely on, as the locales
    \<open>running_sandbox\<close> and \<open>answering_sandbox\<close>, interpreted for Tiers 0, 1 and 2. \<^verbatim>\<open>ToolGate\<close>: the locale \<open>tool_gate\<close>, a
    sandbox reaches the tools only through its callback, interpreted for the same three. \<^verbatim>\<open>ServiceLife\<close>: the locale
    \<open>tidy_sandbox\<close>, instances are tracked, interpreted for Tier 2, and the life of a service from start to close.
    \<^verbatim>\<open>EndToEnd\<close>: one external call of code or of a skill, from the server down to the guest and its tools.
    \<^verbatim>\<open>ServiceAnswers\<close>: the locale \<open>steady_sandbox\<close>, boots succeed, interpreted for Tier 2, and that such a service
    answers after every history.

  \<^bold>\<open>What the lemmas show.\<close>
  Governance: no sandbox is touched and no result returned without an explicit \<^verbatim>\<open>allow\<close> to this agent, action and
  scope, for the REST client alone, for one execution, and for every sequence of external calls on a governed
  object graph; outages open the circuit, and its bookkeeping survives every interleaving.
  Sandboxes: an execution holds nothing afterwards, a released instance is never used again, the pool's count is what
  is held, and where the ceiling fails; a program's output, success and message reach the caller as they are in every
  tier, which failures there are, what is bounded, what a crashed boot and a failed tunnel leak; framed messages survive any cutting of
  the stream; the reconnect loops end.
  Through the whole stack: an external caller is told what its program or its skill did on each tier, and always gets an
  answer, on Tier 2 from whatever runs in the machine; the tools change only by calls of registered namespaces; over the
  whole life of a service on Tier 2 the live machines are the warm ones, the host holds nothing that does not belong to
  them, after the close nothing is left, and no history of programs uses the pool up.
  Stores: isolation between scopes, the quota, the round trip of a whole service over any number of restarts, coherence of
  the prompt cache, what overlapping operations keep when the state store finishes its sets in order, what it never
  loses in any order and what it can lose, soundness of searches, completeness of the keyword fallback. Managers and servers: what is registered, who a call acts for.
  Some properties state a defect exactly: text on stderr without a line break, a machine that dies while it boots,
  the ceiling that warm instances pass, a returned write that a late set undoes, an item a slow deregistration hides.

  \<^bold>\<open>Time, concurrency and bounds.\<close> Code between two awaits is one function; where tasks interleave
  (\<^verbatim>\<open>PoolTasks\<close>, \<^verbatim>\<open>WriteThrough\<close>, \<^verbatim>\<open>RetrieverOverlap\<close>, histories of the breaker) all interleavings are sequences of steps. Clocks are arguments. How long
  \<^verbatim>\<open>acquire\<close> waits for the lock of the pool, which another task may hold while it boots, and what other tasks do while it
  waits for a slot, are the argument \<open>waits\<close>; the wait ends with it or with the timeout, whichever is first; races of a
  run are decided by the durations of its parts. Loops are structural, or count down to the code's own limit (three tunnel
  attempts, 200 reconnects, one retry of the compactor); no fuel is introduced. A program in a sandbox is a tree of
  tool calls that may never end, and not ending is one of its outcomes. Integers are Python's; the length field of a
  frame is four bytes. Floats are real numbers, and only their order, rounding and differences are used.

  \<^bold>\<open>Parameters\<close> stand for what is not in the repository: \<^verbatim>\<open>httpx\<close>, the governance engine, \<^verbatim>\<open>rank_bm25\<close>, YAML and JSON
  parsing (\<open>loads\<close>), SHA-256, \<^verbatim>\<open>uuid4\<close>, \<^verbatim>\<open>sys.getsizeof\<close>, the spelling of a float, the MCP library (\<open>mcp_env\<close>), the operating system
  under the shims (\<open>shim_env\<close>) and under Firecracker (\<open>fc_env\<close>), the tunnel tools, the state store and the runtime of
  Civitas, the tools themselves; each may raise. What Python makes of the text of a program is the parameter \<open>python\<close>.

  \<^bold>\<open>Machines.\<close> A micro virtual machine is live (\<open>live_machine\<close>) when the backend has it registered and its process runs, and
  has ended (\<open>machine_ended\<close>) when it is unregistered and its process, listener, files and jail are gone. Its guest shim
  (\<open>fc_main\<close>) runs the code of the request it is sent, and a statement about any guest takes the machine as any function
  of that request. Tunnel tools may fail to start, to be read or to die, each of which \<open>cloudflare_start_stop\<close> accounts for.

  \<^bold>\<open>Not modelled.\<close> Package interfaces and Protocols (no behaviour); how the MCP library and uvicorn serve what \<^verbatim>\<open>start()\<close>
  hands them; the messages of exceptions beyond the values the program reads again; what the managers do with
  arguments whose types their signatures exclude, where an external caller can send some (\<open>po_find_other\<close> and its
  companions in \<^verbatim>\<open>CivitasBridge\<close>); dictionaries shared by reference between a caller and a store.
\<close>

end
